theory Spec2Isabelle
  imports Main
begin

section \<open>Python string helpers used by the request handlers\<close>

text \<open>
  A string is a list of characters with code points below 256. \<open>isspace\<close> is the
  white space that \<^verbatim>\<open>str.strip()\<close> removes. \<open>int_space\<close> is the white space that
  \<^verbatim>\<open>int()\<close> accepts around a literal: the separators 0x1C to 0x1F are not part
  of it.
\<close>

definition isspace :: "char \<Rightarrow> bool" where
  "isspace c = (c \<in> set [CHR 0x09, CHR 0x0A, CHR 0x0B, CHR 0x0C, CHR 0x0D,
                          CHR 0x1C, CHR 0x1D, CHR 0x1E, CHR 0x1F, CHR 0x20,
                          CHR 0x85, CHR 0xA0])"

definition int_space :: "char \<Rightarrow> bool" where
  "int_space c = (c \<in> set [CHR 0x09, CHR 0x0A, CHR 0x0B, CHR 0x0C, CHR 0x0D, CHR 0x20,
                            CHR 0x85, CHR 0xA0])"

definition strip :: "string \<Rightarrow> string" where
  "strip s = rev (dropWhile isspace (rev (dropWhile isspace s)))"

text \<open>\<^verbatim>\<open>s.split(sep)\<close> with an explicit one-character separator: empty pieces are kept.\<close>

fun split_on :: "char \<Rightarrow> string \<Rightarrow> string list" where
  "split_on sep [] = [[]]"
| "split_on sep (x # xs) =
     (if x = sep then [] # split_on sep xs
      else (case split_on sep xs of
              [] \<Rightarrow> [[x]]
            | w # ws \<Rightarrow> (x # w) # ws))"

definition digit_of :: "char \<Rightarrow> int option" where
  "digit_of c = map_of [(CHR ''0'', 0), (CHR ''1'', 1), (CHR ''2'', 2), (CHR ''3'', 3),
                        (CHR ''4'', 4), (CHR ''5'', 5), (CHR ''6'', 6), (CHR ''7'', 7),
                        (CHR ''8'', 8), (CHR ''9'', 9)] c"

text \<open>
  The digits of a decimal literal: at least one digit, single underscores allowed
  between digits. The flag says whether the previous character was a digit.
\<close>

fun parse_digits :: "bool \<Rightarrow> int \<Rightarrow> string \<Rightarrow> int option" where
  "parse_digits prev acc [] = (if prev then Some acc else None)"
| "parse_digits prev acc (c # cs) =
     (case digit_of c of
        Some v \<Rightarrow> parse_digits True (acc * 10 + v) cs
      | None \<Rightarrow> (if c = CHR ''_'' \<and> prev then parse_digits False acc cs else None))"

text \<open>
  \<^verbatim>\<open>int(s)\<close> on a string; \<open>None\<close> stands for the \<^verbatim>\<open>ValueError\<close>. A literal
  with more digits than the interpreter's default limit of 4300 is refused.
\<close>

definition MAX_STR_DIGITS :: nat where
  "MAX_STR_DIGITS = 4300"

definition py_int :: "string \<Rightarrow> int option" where
  "py_int s =
     (case rev (dropWhile int_space (rev (dropWhile int_space s))) of
        [] \<Rightarrow> None
      | c # cs \<Rightarrow>
          (let body = (if c = CHR ''-'' \<or> c = CHR ''+'' then cs else c # cs)
           in if MAX_STR_DIGITS < length (filter (\<lambda>x. digit_of x \<noteq> None) body) then None
              else if c = CHR ''-'' then map_option uminus (parse_digits False 0 body)
              else parse_digits False 0 body))"

text \<open>\<^verbatim>\<open>dict(pairs).get(k)\<close>: a later pair with the same key replaces an earlier one.\<close>

definition dict_get :: "('k \<times> 'v) list \<Rightarrow> 'k \<Rightarrow> 'v option" where
  "dict_get kvs k = map_of (rev kvs) k"

section \<open>Settings\<close>

text \<open>
  The Django settings module is not part of the sources; it is a parameter. A setting
  that is absent is \<open>None\<close>, and \<open>getattr\<close> supplies the default written at the
  call site. The numeric settings are integers.
\<close>

record settings =
  TIME_SLOTS :: "(int \<times> string) list"
  RESERVATION_BOOKING_WINDOW_MINUTES :: "int option"
  RESERVATION_TIMEOUT_HOURS :: "int option"
  RESERVATION_EXPIRE_DAYS :: "int option"
  RESERVATION_MAX_DAYS_AHEAD :: "int option"
  RESERVATION_MAX_DAYS_AHEAD_MANAGER :: "int option"
  ACCESS_CODE_NOTIFY_MINUTES :: "int option"
  ACCESS_CODE_FIXED :: "string option"

definition getattr :: "'a option \<Rightarrow> 'a \<Rightarrow> 'a" where
  "getattr v d = (case v of Some x \<Rightarrow> x | None \<Rightarrow> d)"

section \<open>Dates and times\<close>

text \<open>
  A date is its ordinal (\<^verbatim>\<open>date.toordinal()\<close>): 1 is 0001-01-01 and \<open>MAXORDINAL\<close>
  is 9999-12-31. A naive datetime is the number of seconds since the start of day 0, so
  that \<^verbatim>\<open>datetime.combine(d, time(h, m))\<close> is \<open>combine d h m\<close>; fractions of a
  second are left out.
\<close>

definition MAXORDINAL :: int where
  "MAXORDINAL = 3652059"

definition valid_date :: "int \<Rightarrow> bool" where
  "valid_date d = (1 \<le> d \<and> d \<le> MAXORDINAL)"

definition combine :: "int \<Rightarrow> int \<Rightarrow> int \<Rightarrow> int" where
  "combine d h m = d * 86400 + h * 3600 + m * 60"

definition date_of :: "int \<Rightarrow> int" where
  "date_of now = now div 86400"

definition valid_datetime :: "int \<Rightarrow> bool" where
  "valid_datetime t = valid_date (date_of t)"

text \<open>
  \<^verbatim>\<open>timedelta(...)\<close> as a number of seconds. \<open>None\<close> is the \<^verbatim>\<open>OverflowError\<close>
  raised when the number of days leaves the range of plus or minus 999999999.
\<close>

definition timedelta :: "int \<Rightarrow> int option" where
  "timedelta secs =
     (if - 999999999 \<le> secs div 86400 \<and> secs div 86400 \<le> 999999999 then Some secs else None)"

definition minutes :: "int \<Rightarrow> int option" where
  "minutes n = timedelta (n * 60)"

definition hours :: "int \<Rightarrow> int option" where
  "hours n = timedelta (n * 3600)"

definition days :: "int \<Rightarrow> int option" where
  "days n = timedelta (n * 86400)"

text \<open>
  \<^verbatim>\<open>t - delta\<close> on a datetime and \<^verbatim>\<open>d + delta\<close>, \<^verbatim>\<open>d - delta\<close> on a date. The
  result is \<open>None\<close>, for the \<^verbatim>\<open>OverflowError\<close>, when the duration could not be
  built or when the result leaves the years 1 to 9999.
\<close>

definition datetime_sub :: "int \<Rightarrow> int option \<Rightarrow> int option" where
  "datetime_sub t delta =
     (case delta of
        None \<Rightarrow> None
      | Some s \<Rightarrow> if valid_datetime (t - s) then Some (t - s) else None)"

definition date_add :: "int \<Rightarrow> int option \<Rightarrow> int option" where
  "date_add d delta =
     (case delta of
        None \<Rightarrow> None
      | Some s \<Rightarrow> if valid_date (d + s div 86400) then Some (d + s div 86400) else None)"

definition date_sub :: "int \<Rightarrow> int option \<Rightarrow> int option" where
  "date_sub d delta =
     (case delta of
        None \<Rightarrow> None
      | Some s \<Rightarrow> if valid_date (d - s div 86400) then Some (d - s div 86400) else None)"

text \<open>
  The start of a slot label such as \<^verbatim>\<open>08:00 - 10:00\<close>:
  \<^verbatim>\<open>h, m = map(int, label.split('-')[0].strip().split(':'))\<close> followed by
  \<^verbatim>\<open>datetime.time(h, m)\<close>. \<open>None\<close> stands for any exception raised on the way.
\<close>

definition parse_hm :: "string \<Rightarrow> (int \<times> int) option" where
  "parse_hm slot_label =
     (case split_on (CHR ''-'') slot_label of
        [] \<Rightarrow> None
      | first # _ \<Rightarrow>
          (case map py_int (split_on (CHR '':'') (strip first)) of
             [Some h, Some m] \<Rightarrow>
               (if 0 \<le> h \<and> h < 24 \<and> 0 \<le> m \<and> m < 60 then Some (h, m) else None)
           | _ \<Rightarrow> None))"

text \<open>
  \<^verbatim>\<open>get_slot_start_time\<close> of send_access_codes.py; the handlers of views.py, admin.py
  and cleanup.py spell the same steps out inline.
\<close>

definition get_slot_start_time :: "settings \<Rightarrow> int \<Rightarrow> int \<Rightarrow> int option" where
  "get_slot_start_time cfg date_obj slot_id =
     (case dict_get (TIME_SLOTS cfg) slot_id of
        None \<Rightarrow> None
      | Some slot_label \<Rightarrow>
          (if slot_label = [] then None
           else (case parse_hm slot_label of
                   None \<Rightarrow> None
                 | Some (h, m) \<Rightarrow> Some (combine date_obj h m))))"

text \<open>
  The deadline that the handlers compute inside \<^verbatim>\<open>try\<close>: the slot start minus
  \<^verbatim>\<open>timedelta(minutes=RESERVATION_BOOKING_WINDOW_MINUTES)\<close>. \<open>None\<close> stands for
  any exception raised on the way, the overflow of the subtraction included.
\<close>

definition booking_deadline :: "settings \<Rightarrow> int \<Rightarrow> int \<Rightarrow> int option" where
  "booking_deadline cfg d slot =
     (case get_slot_start_time cfg d slot of
        None \<Rightarrow> None
      | Some slot_start \<Rightarrow>
          datetime_sub slot_start (minutes (getattr (RESERVATION_BOOKING_WINDOW_MINUTES cfg) 30)))"

text \<open>
  \<^verbatim>\<open>now >= deadline\<close>; false when the \<^verbatim>\<open>try\<close> block was left by an exception,
  which \<^verbatim>\<open>except Exception: pass\<close> discards.
\<close>

definition deadline_passed :: "settings \<Rightarrow> int \<Rightarrow> int \<Rightarrow> int \<Rightarrow> bool" where
  "deadline_passed cfg now d slot =
     (case booking_deadline cfg d slot of None \<Rightarrow> False | Some deadline \<Rightarrow> now \<ge> deadline)"

text \<open>
  A date that arrives as a string is represented by what the two parsers in use make of
  it: \<^verbatim>\<open>datetime.strptime(s, '%Y-%m-%d')\<close>, called by the handlers, and the parser of
  Django's \<^verbatim>\<open>DateField\<close>, applied when the string itself is given to a query or to
  \<^verbatim>\<open>create\<close>. \<open>None\<close> stands for the exception. \<open>iso d\<close> is a string that
  both read as the day \<open>d\<close>.
\<close>

record date_string =
  strptime :: "int option"
  parse_date :: "int option"

definition iso :: "int \<Rightarrow> date_string" where
  "iso d = \<lparr>strptime = Some d, parse_date = Some d\<rparr>"

section \<open>Data model (core/models.py)\<close>

datatype status = Pending | Approved | Rejected | Expired | Cancelled

datatype role = User | Manager

datatype student_status = Normal | Blacklist | Whitelist

datatype promotion_status = PromotionPending | PromotionApproved | PromotionRejected

type_synonym uuid = nat

record student =
  stu_pk :: int
  student_id :: string
  stu_status :: student_status
  role :: role
  is_auto_created :: bool

record classroom =
  cls_pk :: int
  name :: string
  layout :: string
  is_active :: bool

record reservation =
  rid :: int
  batch_id :: uuid
  student :: int
  classroom :: int
  seat_row :: int
  seat_col :: int
  date :: int
  time_slot :: int
  status :: status
  created_at :: int
  is_admin_action :: bool
  cancelled_seats_info :: "(int \<times> int \<times> int \<times> int \<times> int) list"

record promotion_request =
  pr_pk :: int
  pr_student :: int
  pr_status :: promotion_status
  reviewed_at :: "int option"
  reviewer :: string

record access_code =
  ac_classroom :: int
  ac_date :: int
  ac_time_slot :: int
  code :: string
  notified :: bool

text \<open>
  The tables, in primary-key order, with the counters of the auto-increment keys.
\<close>

record db =
  students :: "student list"
  student_seq :: int
  classrooms :: "classroom list"
  reservations :: "reservation list"
  reservation_seq :: int
  promotion_requests :: "promotion_request list"
  promotion_seq :: int
  access_codes :: "access_code list"

text \<open>
  Integer columns hold 64-bit signed values; binding a larger one to a statement raises
  \<^verbatim>\<open>OverflowError\<close>.
\<close>

definition db_int :: "int \<Rightarrow> bool" where
  "db_int i = (- (2 ^ 63) \<le> i \<and> i < 2 ^ 63)"

text \<open>The seat, date and slot a reservation competes for.\<close>

type_synonym seat_key = "int \<times> int \<times> int \<times> int \<times> int"

definition key_of :: "reservation \<Rightarrow> seat_key" where
  "key_of r = (classroom r, seat_row r, seat_col r, date r, time_slot r)"

text \<open>\<^verbatim>\<open>obj.save()\<close> of a loaded row: all columns are written to the row with that key.\<close>

definition save :: "reservation list \<Rightarrow> reservation \<Rightarrow> reservation list" where
  "save rows obj = map (\<lambda>r. if rid r = rid obj then obj else r) rows"

text \<open>\<^verbatim>\<open>queryset.update(status=s)\<close> on the rows that satisfy the filter.\<close>

definition update_status :: "(reservation \<Rightarrow> bool) \<Rightarrow> status \<Rightarrow> reservation list \<Rightarrow> reservation list" where
  "update_status P s rows = map (\<lambda>r. if P r then r\<lparr>status := s\<rparr> else r) rows"

definition get_student :: "student list \<Rightarrow> int option \<Rightarrow> student option" where
  "get_student studs sid =
     (case sid of None \<Rightarrow> None | Some i \<Rightarrow> find (\<lambda>s. stu_pk s = i) studs)"

section \<open>Exceptions, mails and responses\<close>

datatype exc =
    SeatTaken int int
  | ValueError
  | TypeError
  | DoesNotExist
  | IntegrityError
  | ValidationError
  | AttributeError
  | IndexError
  | OverflowError
  | MailError

text \<open>Whether \<^verbatim>\<open>except ValueError\<close> catches the exception.\<close>

fun is_ValueError :: "exc \<Rightarrow> bool" where
  "is_ValueError (SeatTaken r c) = True"
| "is_ValueError ValueError = True"
| "is_ValueError _ = False"

text \<open>
  The mails of the sources, each with the key of the student it concerns: the
  confirmation of a password reset, the request for approval sent to the administrator
  with its number of seats, the decision on a promotion, the request for a promotion
  sent to the administrator, the notice of a cancellation with the seats, and the
  access code of a classroom, date and slot with the student's seats.
\<close>

datatype mail =
    ResetMail int
  | BookingRequestMail int nat
  | PromotionDecisionMail int bool
  | PromotionRequestMail int
  | CancelNotice int "seat_key list"
  | AccessCodeMail int int int int string "(int \<times> int) list"

text \<open>
  Each call of \<^verbatim>\<open>send_mail\<close> is logged with its outcome: \<open>True\<close> when it
  returned, \<open>False\<close> when it raised.
\<close>

type_synonym mail_log = "(mail \<times> bool) list"

datatype submit_msg =
    InvalidDate
  | PastDate
  | TooFarAhead int
  | BookingClosed
  | NoSeatSelected
  | TooManyPending nat
  | UserMultiSeat
  | UserHasBooking
  | CaughtValueError exc
  | SystemError exc

datatype response =
    InfoError submit_msg
  | InfoSuccess nat
  | RedirectBooking

section \<open>submit (core/views.py)\<close>

record submit_request =
  rq_post :: bool
  rq_sid :: "int option"
  rq_cid :: "string option"
  rq_date :: "date_string option"
  rq_slot :: "string option"
  rq_seats_list :: "string option"

text \<open>
  The fields are the raw form fields, \<open>None\<close> when the form does not have them.
\<close>

definition current_pending_batches :: "reservation list \<Rightarrow> int \<Rightarrow> int \<Rightarrow> nat" where
  "current_pending_batches rows stu today =
     length (remdups (map batch_id
       (filter (\<lambda>r. student r = stu \<and> status r = Pending \<and> date r \<ge> today) rows)))"

definition has_booking :: "reservation list \<Rightarrow> int \<Rightarrow> int \<Rightarrow> int \<Rightarrow> bool" where
  "has_booking rows stu d slot =
     (\<exists>r \<in> set rows. student r = stu \<and> date r = d \<and> time_slot r = slot
        \<and> status r \<in> {Approved, Pending})"

definition MAX_PENDING_BATCHES :: nat where
  "MAX_PENDING_BATCHES = 3"

text \<open>
  Everything \<open>submit\<close> does before it opens the transaction. \<open>Inl\<close> is the response
  of an early return or of a caught exception. The date of the time checks is the one
  \<^verbatim>\<open>strptime\<close> reads; the query for an existing booking is given the string.
\<close>

definition submit_prechecks ::
  "settings \<Rightarrow> int \<Rightarrow> db \<Rightarrow> submit_request
     \<Rightarrow> response + (student \<times> int \<times> date_string \<times> string list)" where
  "submit_prechecks cfg now d rq =
     (case get_student (students d) (rq_sid rq) of
        None \<Rightarrow> Inl (InfoError (SystemError DoesNotExist))
      | Some stu \<Rightarrow>
     (case rq_slot rq of
        None \<Rightarrow> Inl (InfoError (SystemError TypeError))
      | Some slot_str \<Rightarrow>
     (case py_int slot_str of
        None \<Rightarrow> Inl (InfoError (CaughtValueError ValueError))
      | Some slot \<Rightarrow>
     (case rq_date rq of
        None \<Rightarrow> Inl (InfoError InvalidDate)
      | Some date_str \<Rightarrow>
     (case strptime date_str of
        None \<Rightarrow> Inl (InfoError InvalidDate)
      | Some req_date \<Rightarrow>
         (let today = date_of now;
              max_ahead = (if role stu = Manager
                           then getattr (RESERVATION_MAX_DAYS_AHEAD_MANAGER cfg) 7
                           else getattr (RESERVATION_MAX_DAYS_AHEAD cfg) 2)
          in if req_date < today then Inl (InfoError PastDate)
             else
               (case date_add today (days max_ahead) of
                  None \<Rightarrow> Inl (InfoError (SystemError OverflowError))
                | Some last_date \<Rightarrow>
                    if req_date > last_date then Inl (InfoError (TooFarAhead max_ahead))
                    else if deadline_passed cfg now req_date slot
                      then Inl (InfoError BookingClosed)
                    else
                      (case rq_seats_list rq of
                         None \<Rightarrow> Inl (InfoError NoSeatSelected)
                       | Some seats_str \<Rightarrow>
                           if seats_str = [] then Inl (InfoError NoSeatSelected)
                           else
                             (let seats_list = split_on (CHR '','') seats_str;
                                  n = current_pending_batches (reservations d) (stu_pk stu) today
                              in if n \<ge> MAX_PENDING_BATCHES
                                   then Inl (InfoError (TooManyPending n))
                                 else if role stu = User \<and> length seats_list > 1
                                   then Inl (InfoError UserMultiSeat)
                                 else if role stu = User
                                   then (case parse_date date_str of
                                           None \<Rightarrow> Inl (InfoError (SystemError ValidationError))
                                         | Some dt \<Rightarrow>
                                             if has_booking (reservations d) (stu_pk stu) dt slot
                                             then Inl (InfoError UserHasBooking)
                                             else Inr (stu, slot, date_str, seats_list))
                                 else Inr (stu, slot, date_str, seats_list))))))))))"

text \<open>\<^verbatim>\<open>r, c = map(int, s.split('-'))\<close>; \<open>None\<close> is the \<^verbatim>\<open>ValueError\<close>.\<close>

definition parse_seat :: "string \<Rightarrow> (int \<times> int) option" where
  "parse_seat s =
     (case map py_int (split_on (CHR ''-'') s) of
        [Some r, Some c] \<Rightarrow> Some (r, c)
      | _ \<Rightarrow> None)"

text \<open>
  A form field used as a primary key in a filter: a missing field matches no row, a
  field that is not a number raises \<^verbatim>\<open>ValueError\<close>.
\<close>

definition pk_of_field :: "string option \<Rightarrow> exc + int option" where
  "pk_of_field f =
     (case f of
        None \<Rightarrow> Inr None
      | Some s \<Rightarrow> (case py_int s of None \<Rightarrow> Inl ValueError | Some i \<Rightarrow> Inr (Some i)))"

definition is_hard_locked :: "reservation list \<Rightarrow> seat_key \<Rightarrow> bool" where
  "is_hard_locked rows k = (\<exists>x \<in> set rows. key_of x = k \<and> status x = Approved)"

definition new_reservation ::
  "int \<Rightarrow> uuid \<Rightarrow> int \<Rightarrow> seat_key \<Rightarrow> status \<Rightarrow> int \<Rightarrow> bool \<Rightarrow> reservation" where
  "new_reservation i bid stu k st now adm =
     (case k of (cls, r, c, d, slot) \<Rightarrow>
        \<lparr>rid = i, batch_id = bid, student = stu, classroom = cls, seat_row = r, seat_col = c,
         date = d, time_slot = slot, status = st, created_at = now, is_admin_action = adm,
         cancelled_seats_info = []\<rparr>)"

text \<open>
  The loop inside \<^verbatim>\<open>transaction.atomic()\<close>. It works on the rows and the key
  counter; \<open>Inl\<close> is the exception that leaves the block. \<open>d\<close> is what the ORM
  reads in the date string. The query converts the classroom field and the date before
  it runs; the insertion binds the integers and refuses a missing classroom.
\<close>

fun submit_loop ::
  "string option \<Rightarrow> int \<Rightarrow> int option \<Rightarrow> int \<Rightarrow> uuid \<Rightarrow> int \<Rightarrow> string list
     \<Rightarrow> reservation list \<times> int \<Rightarrow> reservation list
     \<Rightarrow> exc + ((reservation list \<times> int) \<times> reservation list)" where
  "submit_loop cid stu d slot bid now [] st new_reservations = Inr (st, new_reservations)"
| "submit_loop cid stu d slot bid now (s # ss) (rows, seq) new_reservations =
     (case parse_seat s of
        None \<Rightarrow> Inl ValueError
      | Some (r, c) \<Rightarrow>
     (case pk_of_field cid of
        Inl e \<Rightarrow> Inl e
      | Inr cls \<Rightarrow>
     (case d of
        None \<Rightarrow> Inl ValidationError
      | Some dt \<Rightarrow>
     (case cls of
        None \<Rightarrow>
          if db_int r \<and> db_int c \<and> db_int slot then Inl IntegrityError else Inl OverflowError
      | Some k \<Rightarrow>
          if is_hard_locked rows (k, r, c, dt, slot) then Inl (SeatTaken r c)
          else if \<not> (db_int k \<and> db_int r \<and> db_int c \<and> db_int slot) then Inl OverflowError
          else (let res = new_reservation seq bid stu (k, r, c, dt, slot) Pending now False
                in submit_loop cid stu d slot bid now ss
                     (rows @ [res], seq + 1) (new_reservations @ [res]))))))"

text \<open>
  The foreign key to the classroom is checked when the transaction commits.
\<close>

definition classroom_exists :: "classroom list \<Rightarrow> string option \<Rightarrow> bool" where
  "classroom_exists cls cid =
     (case pk_of_field cid of
        Inr (Some k) \<Rightarrow> k \<in> cls_pk ` set cls
      | _ \<Rightarrow> False)"

text \<open>
  \<open>this_batch_id\<close> is the value \<^verbatim>\<open>uuid.uuid4()\<close> returns in this call and
  \<open>mail_ok\<close> says whether \<^verbatim>\<open>send_mail\<close> to the administrator succeeds;
  \<open>MailError\<close> is its exception. An exception inside the atomic block or at its
  commit restores the tables; the mail is sent after the block.
\<close>

definition submit ::
  "settings \<Rightarrow> int \<Rightarrow> uuid \<Rightarrow> bool \<Rightarrow> db \<Rightarrow> submit_request \<Rightarrow> (response \<times> mail_log) \<times> db" where
  "submit cfg now this_batch_id mail_ok d rq =
     (if \<not> rq_post rq then ((RedirectBooking, []), d)
      else
        (case submit_prechecks cfg now d rq of
           Inl resp \<Rightarrow> ((resp, []), d)
         | Inr (stu, slot, date_str, seats_list) \<Rightarrow>
             (case submit_loop (rq_cid rq) (stu_pk stu) (parse_date date_str) slot
                     this_batch_id now seats_list (reservations d, reservation_seq d) [] of
                Inl e \<Rightarrow>
                  ((InfoError (if is_ValueError e then CaughtValueError e else SystemError e), []),
                   d)
              | Inr ((rows, seq), new_reservations) \<Rightarrow>
                  if \<not> classroom_exists (classrooms d) (rq_cid rq)
                  then ((InfoError (SystemError IntegrityError), []), d)
                  else
                    ((if mail_ok then InfoSuccess (length new_reservations)
                      else InfoError (SystemError MailError),
                      [(BookingRequestMail (stu_pk stu) (length new_reservations), mail_ok)]),
                     d\<lparr>reservations := rows, reservation_seq := seq\<rparr>))))"

section \<open>cleanup (core/management/commands/cleanup.py)\<close>

text \<open>
  Step 0 walks over the pending reservations dated today or later, as they were loaded
  when the loop started, and saves each one whose deadline has passed.
\<close>

fun expire_loop ::
  "settings \<Rightarrow> int \<Rightarrow> reservation list \<Rightarrow> reservation list \<times> nat \<Rightarrow> reservation list \<times> nat" where
  "expire_loop cfg now [] st = st"
| "expire_loop cfg now (res # rest) (rows, deadline_expired) =
     (if deadline_passed cfg now (date res) (time_slot res)
      then expire_loop cfg now rest (save rows (res\<lparr>status := Expired\<rparr>), deadline_expired + 1)
      else expire_loop cfg now rest (rows, deadline_expired))"

text \<open>
  The result carries the three counters that the command prints, or the exception that
  ends it: the two thresholds are computed outside any \<^verbatim>\<open>try\<close>. What was written
  before the exception stays written.
\<close>

definition cleanup :: "settings \<Rightarrow> int \<Rightarrow> db \<Rightarrow> db \<times> (exc + nat \<times> nat \<times> nat)" where
  "cleanup cfg now d =
     (let today = date_of now;
          pending_reservations =
            filter (\<lambda>r. status r = Pending \<and> date r \<ge> today) (reservations d);
          (rows0, deadline_expired) = expire_loop cfg now pending_reservations (reservations d, 0)
      in case datetime_sub now (hours (getattr (RESERVATION_TIMEOUT_HOURS cfg) 24)) of
           None \<Rightarrow> (d\<lparr>reservations := rows0\<rparr>, Inl OverflowError)
         | Some timeout_threshold \<Rightarrow>
             (let timed_out = (\<lambda>r. status r = Pending \<and> created_at r < timeout_threshold);
                  expired_pending = length (filter timed_out rows0);
                  rows1 = update_status timed_out Expired rows0
              in case date_sub today (days (getattr (RESERVATION_EXPIRE_DAYS cfg) 1)) of
                   None \<Rightarrow> (d\<lparr>reservations := rows1\<rparr>, Inl OverflowError)
                 | Some cutoff_date \<Rightarrow>
                     (let outdated = (\<lambda>r. status r = Pending \<and> date r \<le> cutoff_date);
                          expired_date = length (filter outdated rows1);
                          rows2 = update_status outdated Expired rows1
                      in (d\<lparr>reservations := rows2\<rparr>,
                          Inr (deadline_expired, expired_pending, expired_date)))))"

section \<open>cancel_booking (core/views.py)\<close>

text \<open>\<^verbatim>\<open>queryset.first()\<close> of a query without an ordering: the row with the least key.\<close>

definition first_by :: "('a \<Rightarrow> int) \<Rightarrow> 'a list \<Rightarrow> 'a option" where
  "first_by pk xs =
     (case xs of
        [] \<Rightarrow> None
      | x # rest \<Rightarrow> Some (fold (\<lambda>y best. if pk y < pk best then y else best) rest x))"

datatype cancel_msg =
    NothingToCancel
  | CancelClosed
  | CancelledRows nat

datatype cancel_response =
    ToIndex
  | ToMyBookings "cancel_msg option"
  | Unhandled exc

text \<open>
  \<open>sid\<close> is the session's student key, \<open>post\<close> says whether the method is POST and
  \<open>bid\<close> is the batch id of the URL.
\<close>

definition cancel_booking ::
  "settings \<Rightarrow> int \<Rightarrow> db \<Rightarrow> int option \<Rightarrow> bool \<Rightarrow> uuid \<Rightarrow> cancel_response \<times> db" where
  "cancel_booking cfg now d sid post bid =
     (if sid = None \<or> sid = Some 0 then (ToIndex, d)
      else if \<not> post then (ToMyBookings None, d)
      else
        (case get_student (students d) sid of
           None \<Rightarrow> (Unhandled DoesNotExist, d)
         | Some stu \<Rightarrow>
             (let qs = filter (\<lambda>r. batch_id r = bid \<and> student r = stu_pk stu
                                   \<and> status r \<in> {Pending, Approved}) (reservations d)
              in case first_by rid qs of
                   None \<Rightarrow> (ToMyBookings (Some NothingToCancel), d)
                 | Some first_res \<Rightarrow>
                     if deadline_passed cfg now (date first_res) (time_slot first_res)
                     then (ToMyBookings (Some CancelClosed), d)
                     else
                       (let rows = fold (\<lambda>res rows.
                                     save rows (res\<lparr>status := Cancelled, is_admin_action := False\<rparr>))
                                     qs (reservations d);
                            cnt = length qs
                        in (ToMyBookings (Some (if cnt > 0 then CancelledRows cnt
                                                else NothingToCancel)),
                            d\<lparr>reservations := rows\<rparr>)))))"

section \<open>admin_action (core/views.py), reservation links\<close>

text \<open>
  The handler is modelled from the point where the signed token has been verified and
  its type code is \<^verbatim>\<open>res\<close>: \<open>ids\<close> are the reservation keys of the token and
  \<open>action\<close> is its action string.
\<close>

datatype action_response =
    SkippedCancelled nat
  | SkippedExpired nat
  | AlreadyHandled
  | SkippedAutoExpired nat
  | ActionDone nat nat nat nat

text \<open>The loop that marks the requests whose deadline has passed and keeps the others.\<close>

fun deadline_loop ::
  "settings \<Rightarrow> int \<Rightarrow> reservation list \<Rightarrow> reservation list \<times> nat \<times> reservation list
     \<Rightarrow> reservation list \<times> nat \<times> reservation list" where
  "deadline_loop cfg now [] st = st"
| "deadline_loop cfg now (res # rest) (rows, expired_count, valid_res) =
     (if deadline_passed cfg now (date res) (time_slot res)
      then deadline_loop cfg now rest
             (save rows (res\<lparr>status := Expired\<rparr>), expired_count + 1, valid_res)
      else deadline_loop cfg now rest (rows, expired_count, valid_res @ [res]))"

text \<open>The loop inside \<^verbatim>\<open>transaction.atomic()\<close>, over the requests still valid.\<close>

fun decide_loop ::
  "string \<Rightarrow> reservation list \<Rightarrow> reservation list \<times> nat \<times> nat
     \<Rightarrow> reservation list \<times> nat \<times> nat" where
  "decide_loop action [] st = st"
| "decide_loop action (res # rest) (rows, success_count, auto_reject_count) =
     (if action = ''approve'' then
        (if is_hard_locked rows (key_of res)
         then decide_loop action rest
                (save rows (res\<lparr>status := Rejected\<rparr>), success_count, auto_reject_count)
         else
           (let rows1 = save rows (res\<lparr>status := Approved\<rparr>);
                competitors = (\<lambda>r. key_of r = key_of res \<and> status r = Pending \<and> rid r \<noteq> rid res);
                c_cnt = length (filter competitors rows1)
            in decide_loop action rest
                 (update_status competitors Rejected rows1,
                  success_count + 1, auto_reject_count + c_cnt)))
      else if action = ''reject'' then
        decide_loop action rest
          (save rows (res\<lparr>status := Rejected\<rparr>), success_count + 1, auto_reject_count)
      else decide_loop action rest (rows, success_count, auto_reject_count))"

definition admin_action ::
  "settings \<Rightarrow> int \<Rightarrow> db \<Rightarrow> int list \<Rightarrow> string \<Rightarrow> action_response \<times> db" where
  "admin_action cfg now d ids action =
     (let all_found = filter (\<lambda>r. rid r \<in> set ids) (reservations d);
          cancelled_count = length (filter (\<lambda>r. status r = Cancelled) all_found);
          target_res = filter (\<lambda>r. status r = Pending) all_found
      in if target_res = [] then
           (if cancelled_count > 0 then (SkippedCancelled cancelled_count, d)
            else if filter (\<lambda>r. status r = Expired) all_found \<noteq> []
              then (SkippedExpired (length (filter (\<lambda>r. status r = Expired) all_found)), d)
            else (AlreadyHandled, d))
         else
           (case deadline_loop cfg now target_res (reservations d, 0, []) of
              (rows0, expired_count, valid_res) \<Rightarrow>
                if expired_count > 0 \<and> valid_res = []
                  then (SkippedAutoExpired expired_count, d\<lparr>reservations := rows0\<rparr>)
                else if valid_res = [] then
                  (if cancelled_count > 0
                   then (SkippedCancelled cancelled_count, d\<lparr>reservations := rows0\<rparr>)
                   else (AlreadyHandled, d\<lparr>reservations := rows0\<rparr>))
                else
                  (case decide_loop action valid_res (rows0, 0, 0) of
                     (rows1, success_count, auto_reject_count) \<Rightarrow>
                       (ActionDone success_count auto_reject_count expired_count cancelled_count,
                        d\<lparr>reservations := rows1\<rparr>))))"

section \<open>The administrator's seat views (core/views.py)\<close>

text \<open>
  The query and form fields, \<open>None\<close> when absent. The \<^verbatim>\<open>date\<close> parameter
  defaults to today's date in ISO format.
\<close>

record admin_request =
  ar_post :: bool
  ar_classroom_id :: "string option"
  ar_date :: "date_string option"
  ar_slot :: "string option"
  ar_target_student_id :: "string option"
  ar_seats_list :: "string option"
  ar_reservation_ids :: "string option"

definition get_date :: "int \<Rightarrow> admin_request \<Rightarrow> date_string" where
  "get_date now rq = (case ar_date rq of None \<Rightarrow> iso (date_of now) | Some date_str \<Rightarrow> date_str)"

datatype flash =
    BookingClosedMsg
  | NeedStudentId
  | AutoCreatedAccount
  | Blacklisted
  | Booked nat
  | NoneBooked
  | OperationFailed exc
  | CancelSummary nat nat nat
  | CannotCancel nat
  | NothingFound
  | MailFailed int
  | AdminNoneCancellable
  | AdminCannotCancel nat
  | AdminPendingCancelled nat
  | AdminCancelSummary nat nat nat

datatype level = LInfo | LSuccess | LWarning | LError

fun flash_level :: "flash \<Rightarrow> level" where
  "flash_level BookingClosedMsg = LError"
| "flash_level NeedStudentId = LError"
| "flash_level AutoCreatedAccount = LWarning"
| "flash_level Blacklisted = LError"
| "flash_level (Booked n) = LSuccess"
| "flash_level NoneBooked = LWarning"
| "flash_level (OperationFailed e) = LError"
| "flash_level (CancelSummary t p m) = LSuccess"
| "flash_level (CannotCancel n) = LWarning"
| "flash_level NothingFound = LWarning"
| "flash_level (MailFailed s) = LError"
| "flash_level AdminNoneCancellable = LWarning"
| "flash_level (AdminCannotCancel n) = LWarning"
| "flash_level (AdminPendingCancelled n) = LInfo"
| "flash_level (AdminCancelSummary t p m) = LInfo"

datatype page =
    Redirected
  | Rendered
  | NoClassroom
  | NotFound
  | Crashed exc

text \<open>The default slot: today, the first slot that has not started; else the first slot.\<close>

fun first_future_slot :: "int \<Rightarrow> int \<Rightarrow> (int \<times> string) list \<Rightarrow> int option" where
  "first_future_slot today now [] = None"
| "first_future_slot today now ((s_id, s_label) # rest) =
     (case parse_hm s_label of
        None \<Rightarrow> first_future_slot today now rest
      | Some (h, m) \<Rightarrow>
          if combine today h m > now then Some s_id else first_future_slot today now rest)"

definition default_slot :: "settings \<Rightarrow> int \<Rightarrow> int \<Rightarrow> exc + int" where
  "default_slot cfg now req_date_obj =
     (if req_date_obj = date_of now then
        (case first_future_slot (date_of now) now (TIME_SLOTS cfg) of
           Some chosen \<Rightarrow> Inr chosen
         | None \<Rightarrow> (if TIME_SLOTS cfg = [] then Inl IndexError
                    else Inr (fst (last (TIME_SLOTS cfg)))))
      else (case TIME_SLOTS cfg of [] \<Rightarrow> Inl IndexError | (s_id, _) # _ \<Rightarrow> Inr s_id))"

text \<open>
  What the two views do before they look at the method: the slot, the date used for the
  time window, which is today when \<^verbatim>\<open>strptime\<close> raises, and the classroom.
\<close>

definition admin_prologue ::
  "settings \<Rightarrow> int \<Rightarrow> db \<Rightarrow> admin_request \<Rightarrow> page + (int \<times> int \<times> classroom)" where
  "admin_prologue cfg now d rq =
     (let slot_param = (case ar_slot rq of
                          None \<Rightarrow> None
                        | Some s \<Rightarrow> if s = [] then None else py_int s);
          req_date_obj = (case strptime (get_date now rq) of Some x \<Rightarrow> x | None \<Rightarrow> date_of now)
      in case (case slot_param of Some s \<Rightarrow> Inr s | None \<Rightarrow> default_slot cfg now req_date_obj) of
           Inl e \<Rightarrow> Inl (Crashed e)
         | Inr slot_id \<Rightarrow>
             (let active = filter is_active (classrooms d)
              in if active = [] then Inl NoClassroom
                 else
                   (case (case ar_classroom_id rq of
                            None \<Rightarrow> Inr (first_by cls_pk active)
                          | Some s \<Rightarrow>
                              if s = [] then Inr (first_by cls_pk active)
                              else (case py_int s of
                                      None \<Rightarrow> Inl (Crashed ValueError)
                                    | Some i \<Rightarrow>
                                        (case find (\<lambda>c. cls_pk c = i) (classrooms d) of
                                           None \<Rightarrow> Inl NotFound
                                         | Some c \<Rightarrow> Inr (Some c)))) of
                      Inl p \<Rightarrow> Inl p
                    | Inr None \<Rightarrow> Inl NoClassroom
                    | Inr (Some curr_cls) \<Rightarrow> Inr (slot_id, req_date_obj, curr_cls))))"

text \<open>\<^verbatim>\<open>Student.objects.get_or_create(student_id=..., defaults=...)\<close>.\<close>

definition get_or_create_student :: "db \<Rightarrow> string \<Rightarrow> (student \<times> bool) \<times> db" where
  "get_or_create_student d target_sid =
     (case find (\<lambda>s. student_id s = target_sid) (students d) of
        Some s \<Rightarrow> ((s, False), d)
      | None \<Rightarrow>
          (let s = \<lparr>stu_pk = student_seq d, student_id = target_sid, stu_status = Normal,
                    role = User, is_auto_created = True\<rparr>
           in ((s, True), d\<lparr>students := students d @ [s], student_seq := student_seq d + 1\<rparr>)))"

text \<open>
  The loop of \<open>admin_booking_view\<close> inside \<^verbatim>\<open>transaction.atomic()\<close>: a seat with an
  approved reservation is skipped; otherwise the pending requests for it are rejected
  and an approved reservation is created. \<open>d\<close> is what the ORM reads in the date
  string.
\<close>

fun booking_loop ::
  "int \<Rightarrow> int option \<Rightarrow> int \<Rightarrow> int \<Rightarrow> uuid \<Rightarrow> int \<Rightarrow> string list
     \<Rightarrow> (reservation list \<times> int) \<times> nat \<Rightarrow> exc + ((reservation list \<times> int) \<times> nat)" where
  "booking_loop cls d slot stu bid now [] st = Inr st"
| "booking_loop cls d slot stu bid now (s # ss) ((rows, seq), created_count) =
     (case parse_seat s of
        None \<Rightarrow> Inl ValueError
      | Some (r, c) \<Rightarrow>
     (case d of
        None \<Rightarrow> Inl ValidationError
      | Some dt \<Rightarrow>
          if is_hard_locked rows (cls, r, c, dt, slot)
          then booking_loop cls d slot stu bid now ss ((rows, seq), created_count)
          else if \<not> (db_int r \<and> db_int c \<and> db_int slot) then Inl OverflowError
          else
            (let rows1 = update_status
                           (\<lambda>x. key_of x = (cls, r, c, dt, slot) \<and> status x = Pending)
                           Rejected rows;
                 res = new_reservation seq bid stu (cls, r, c, dt, slot) Approved now True
             in booking_loop cls d slot stu bid now ss
                  ((rows1 @ [res], seq + 1), created_count + 1))))"

text \<open>
  The part of the view that renders the page: its query is given the date string, and
  the exception of a string that the ORM cannot read is not caught.
\<close>

definition render_booking :: "date_string \<Rightarrow> flash list \<Rightarrow> page \<times> flash list" where
  "render_booking date_str msgs =
     (case parse_date date_str of
        None \<Rightarrow> (Crashed ValidationError, msgs)
      | Some dt \<Rightarrow> (Rendered, msgs))"

text \<open>
  The atomic block and the message that follows it. An exception restores the
  reservations and is reported; the page is then rendered instead of redirected.
\<close>

definition book_seats ::
  "int \<Rightarrow> uuid \<Rightarrow> db \<Rightarrow> int \<Rightarrow> date_string \<Rightarrow> int \<Rightarrow> int \<Rightarrow> string \<Rightarrow> flash list
     \<Rightarrow> (page \<times> flash list) \<times> db" where
  "book_seats now batch_uuid d1 cls date_str slot_id stu seats_str msgs =
     (case booking_loop cls (parse_date date_str) slot_id stu batch_uuid now
             (split_on (CHR '','') seats_str) ((reservations d1, reservation_seq d1), 0) of
        Inl e \<Rightarrow> (render_booking date_str (msgs @ [OperationFailed e]), d1)
      | Inr ((rows, seq), created_count) \<Rightarrow>
          ((Redirected, msgs @ [if created_count > 0 then Booked created_count else NoneBooked]),
           d1\<lparr>reservations := rows, reservation_seq := seq\<rparr>))"

text \<open>The handling of a POST once the time window has been checked.\<close>

definition admin_booking_post ::
  "int \<Rightarrow> uuid \<Rightarrow> db \<Rightarrow> admin_request \<Rightarrow> int \<Rightarrow> classroom \<Rightarrow> (page \<times> flash list) \<times> db" where
  "admin_booking_post now batch_uuid d rq slot_id curr_cls =
     (case ar_target_student_id rq of
        None \<Rightarrow> ((Redirected, [NeedStudentId]), d)
      | Some target_sid \<Rightarrow>
          if target_sid = [] then ((Redirected, [NeedStudentId]), d)
          else
            (case get_or_create_student d target_sid of
               ((target_student, created), d1) \<Rightarrow>
                 (let msgs = (if created then [AutoCreatedAccount] else [])
                  in if stu_status target_student = Blacklist
                       then ((Redirected, msgs @ [Blacklisted]), d1)
                     else
                       (case ar_seats_list rq of
                          None \<Rightarrow>
                            (render_booking (get_date now rq)
                               (msgs @ [OperationFailed AttributeError]), d1)
                        | Some seats_str \<Rightarrow>
                            book_seats now batch_uuid d1 (cls_pk curr_cls) (get_date now rq)
                              slot_id (stu_pk target_student) seats_str msgs))))"

definition admin_booking_view ::
  "settings \<Rightarrow> int \<Rightarrow> uuid \<Rightarrow> db \<Rightarrow> admin_request \<Rightarrow> (page \<times> flash list) \<times> db" where
  "admin_booking_view cfg now batch_uuid d rq =
     (case admin_prologue cfg now d rq of
        Inl p \<Rightarrow> ((p, []), d)
      | Inr (slot_id, req_date_obj, curr_cls) \<Rightarrow>
          if \<not> ar_post rq then (render_booking (get_date now rq) [], d)
          else if deadline_passed cfg now req_date_obj slot_id
            then ((Redirected, [BookingClosedMsg]), d)
          else admin_booking_post now batch_uuid d rq slot_id curr_cls)"

section \<open>admin_cancel_view (core/views.py)\<close>

text \<open>
  \<^verbatim>\<open>[int(x) for x in s.split(',') if x.strip()]\<close>; \<open>None\<close> is the \<^verbatim>\<open>ValueError\<close>.
\<close>

fun parse_ids :: "string list \<Rightarrow> int list option" where
  "parse_ids [] = Some []"
| "parse_ids (x # xs) =
     (if strip x = [] then parse_ids xs
      else (case py_int x of
              None \<Rightarrow> None
            | Some i \<Rightarrow> (case parse_ids xs of None \<Rightarrow> None | Some is \<Rightarrow> Some (i # is))))"

text \<open>The keys of a dictionary filled in this order: first occurrences.\<close>

definition first_occurrences :: "'a list \<Rightarrow> 'a list" where
  "first_occurrences xs = rev (remdups (rev xs))"

text \<open>
  Pending requests: every pending reservation of each selected seat is loaded and saved
  as cancelled.
\<close>

definition cancel_pending_seat :: "seat_key \<Rightarrow> reservation list \<times> nat \<Rightarrow> reservation list \<times> nat" where
  "cancel_pending_seat k st =
     (case st of (rows, pending_cancelled) \<Rightarrow>
        (let competing_reservations = filter (\<lambda>r. key_of r = k \<and> status r = Pending) rows
         in (fold (\<lambda>res rows'. save rows' (res\<lparr>status := Cancelled\<rparr>)) competing_reservations rows,
             pending_cancelled + length competing_reservations)))"

text \<open>
  The dictionary \<^verbatim>\<open>student_reservations\<close>: the approved reservations to cancel,
  grouped by student in the order in which the students first occur.
\<close>

definition student_groups :: "reservation list \<Rightarrow> (int \<times> reservation list) list" where
  "student_groups approved_list =
     map (\<lambda>s. (s, filter (\<lambda>r. student r = s) approved_list))
       (first_occurrences (map student approved_list))"

text \<open>
  Approved reservations of one student: each is saved as cancelled, one cancellation
  record is created, and one mail is sent; a failure of the mail adds a flash message.
  \<open>new_uuid\<close> and \<open>mail_ok\<close> give, per student, the batch id generated for the record
  and whether \<^verbatim>\<open>send_mail\<close> succeeds.
\<close>

definition cancel_student_group ::
  "(int \<Rightarrow> uuid) \<Rightarrow> (int \<Rightarrow> bool) \<Rightarrow> int \<Rightarrow> int \<times> reservation list
     \<Rightarrow> ((reservation list \<times> int) \<times> nat \<times> nat \<times> flash list \<times> mail_log)
     \<Rightarrow> ((reservation list \<times> int) \<times> nat \<times> nat \<times> flash list \<times> mail_log)" where
  "cancel_student_group new_uuid mail_ok now grp st =
     (case (grp, st) of
        ((stu, []), _) \<Rightarrow> st
      | ((stu, first_res # others), ((rows, seq), approved_cancelled, email_sent_count, msgs, log)) \<Rightarrow>
          (let rs = first_res # others;
               rows1 = fold (\<lambda>res rows'. save rows' (res\<lparr>status := Cancelled\<rparr>)) rs rows;
               cancel_record = (new_reservation seq (new_uuid stu) stu (key_of first_res) Cancelled now True)
                          \<lparr>cancelled_seats_info := map key_of rs\<rparr>;
               m = CancelNotice stu (map key_of rs)
           in ((rows1 @ [cancel_record], seq + 1),
               approved_cancelled + length rs,
               (if mail_ok stu then email_sent_count + 1 else email_sent_count),
               (if mail_ok stu then msgs else msgs @ [MailFailed stu]),
               log @ [(m, mail_ok stu)])))"

text \<open>
  The cancellation of the selected reservations that are still pending or approved
  (\<open>reservations_to_cancel\<close>, not empty); \<open>can_cancel\<close> is the time window of the page.
\<close>

definition cancel_selected ::
  "int \<Rightarrow> (int \<Rightarrow> uuid) \<Rightarrow> (int \<Rightarrow> bool) \<Rightarrow> db \<Rightarrow> bool \<Rightarrow> reservation list
     \<Rightarrow> ((page \<times> flash list) \<times> mail_log) \<times> db" where
  "cancel_selected now new_uuid mail_ok d can_cancel reservations_to_cancel =
     (let pending_list = filter (\<lambda>r. status r = Pending) reservations_to_cancel;
          approved_list = filter (\<lambda>r. status r = Approved \<and> can_cancel) reservations_to_cancel;
          approved_cannot_cancel =
            filter (\<lambda>r. status r = Approved \<and> \<not> can_cancel) reservations_to_cancel;
          pending_seats_to_cancel = remdups (map key_of pending_list)
      in case fold cancel_pending_seat pending_seats_to_cancel (reservations d, 0) of
           (rows0, pending_cancelled) \<Rightarrow>
             (case fold (cancel_student_group new_uuid mail_ok now) (student_groups approved_list)
                     ((rows0, reservation_seq d), 0, 0, [], []) of
                ((rows1, seq), approved_cancelled, email_sent_count, msgs, log) \<Rightarrow>
                  (((Redirected,
                     msgs
                     @ (if pending_cancelled + approved_cancelled > 0
                        then [CancelSummary (pending_cancelled + approved_cancelled)
                                pending_cancelled email_sent_count]
                        else [])
                     @ (if approved_cannot_cancel \<noteq> []
                        then [CannotCancel (length approved_cannot_cancel)]
                        else [])),
                    log),
                   d\<lparr>reservations := rows1, reservation_seq := seq\<rparr>)))"

text \<open>
  The query \<^verbatim>\<open>id__in\<close> binds every posted key; neither the \<^verbatim>\<open>ValueError\<close> of
  a field that is not a number nor the \<^verbatim>\<open>OverflowError\<close> of a key that does not
  fit the column is caught.
\<close>

definition admin_cancel_view ::
  "settings \<Rightarrow> int \<Rightarrow> (int \<Rightarrow> uuid) \<Rightarrow> (int \<Rightarrow> bool) \<Rightarrow> db \<Rightarrow> admin_request
     \<Rightarrow> ((page \<times> flash list) \<times> mail_log) \<times> db" where
  "admin_cancel_view cfg now new_uuid mail_ok d rq =
     (case admin_prologue cfg now d rq of
        Inl p \<Rightarrow> (((p, []), []), d)
      | Inr (slot_id, req_date_obj, curr_cls) \<Rightarrow>
          if \<not> ar_post rq then (((Rendered, []), []), d)
          else
            (case ar_reservation_ids rq of
               None \<Rightarrow> (((Redirected, []), []), d)
             | Some res_ids_str \<Rightarrow>
                 if res_ids_str = [] then (((Redirected, []), []), d)
                 else
                   (case parse_ids (split_on (CHR '','') res_ids_str) of
                      None \<Rightarrow> (((Crashed ValueError, []), []), d)
                    | Some res_ids \<Rightarrow>
                        if \<not> list_all db_int res_ids
                          then (((Crashed OverflowError, []), []), d)
                        else
                          (let reservations_to_cancel =
                                 filter (\<lambda>r. rid r \<in> set res_ids \<and> status r \<in> {Pending, Approved})
                                   (reservations d)
                           in if reservations_to_cancel = []
                                then (((Redirected, [NothingFound]), []), d)
                              else cancel_selected now new_uuid mail_ok d
                                     (\<not> deadline_passed cfg now req_date_obj slot_id)
                                     reservations_to_cancel))))"

section \<open>The administration site (core/admin.py)\<close>

text \<open>
  \<^verbatim>\<open>cleaned_data\<close> of \<^verbatim>\<open>ReservationAdminForm\<close> once every field has passed its
  own validation: the editable columns of the reservation and the two 1-based inputs.
\<close>

record change_form =
  cf_student :: int
  cf_classroom :: int
  cf_date :: int
  cf_time_slot :: int
  cf_status :: status
  cf_is_admin_action :: bool
  cf_cancelled_seats_info :: "seat_key list"
  row_input :: int
  col_input :: int

datatype form_error =
    FieldErrors
  | RowOutOfRange nat
  | ColOutOfRange nat
  | IsAisle
  | TakenBy int

text \<open>
  \<^verbatim>\<open>ReservationAdminForm.clean\<close> for the reservation \<open>instance\<close>: the seat must
  exist in the layout of the classroom and no other reservation of the seat, date and
  slot may be approved. The result is the 0-based seat.
\<close>

definition clean :: "db \<Rightarrow> reservation \<Rightarrow> change_form \<Rightarrow> form_error + (int \<times> int)" where
  "clean d instance cd =
     (case find (\<lambda>c. cls_pk c = cf_classroom cd) (classrooms d) of
        None \<Rightarrow> Inl FieldErrors
      | Some cls \<Rightarrow>
          (let real_r = row_input cd - 1;
               real_c = col_input cd - 1;
               layout_lines = split_on (CHR 0x0A) (strip (layout cls))
           in if real_r \<ge> int (length layout_lines) \<or> real_r < 0
                then Inl (RowOutOfRange (length layout_lines))
              else
                (let row_str = strip (layout_lines ! nat real_r)
                 in if real_c \<ge> int (length row_str) \<or> real_c < 0
                      then Inl (ColOutOfRange (length row_str))
                    else if row_str ! nat real_c = CHR ''0'' then Inl IsAisle
                    else
                      (case first_by rid
                              (filter (\<lambda>x. key_of x = (cls_pk cls, real_r, real_c, cf_date cd,
                                                          cf_time_slot cd)
                                            \<and> status x = Approved \<and> rid x \<noteq> rid instance)
                                 (reservations d)) of
                         Some other \<Rightarrow> Inl (TakenBy (student other))
                       | None \<Rightarrow> Inr (real_r, real_c)))))"

text \<open>
  \<^verbatim>\<open>ReservationAdminForm.save\<close>: the instance takes the cleaned values and the
  seat; with \<open>commit\<close> it is saved and the pending requests for its seat, date and
  slot are rejected.
\<close>

definition form_save ::
  "bool \<Rightarrow> reservation list \<Rightarrow> reservation \<Rightarrow> change_form \<Rightarrow> int \<times> int
     \<Rightarrow> reservation \<times> reservation list" where
  "form_save commit rows instance cd seat =
     (let obj = instance\<lparr>student := cf_student cd, classroom := cf_classroom cd,
                          date := cf_date cd, time_slot := cf_time_slot cd,
                          status := cf_status cd,
                          cancelled_seats_info := cf_cancelled_seats_info cd,
                          seat_row := fst seat, seat_col := snd seat,
                          is_admin_action := True\<rparr>
      in if commit
           then (obj, update_status
                        (\<lambda>x. key_of x = key_of obj \<and> status x = Pending \<and> rid x \<noteq> rid obj)
                        Rejected (save rows obj))
         else (obj, rows))"

text \<open>
  The change page of a reservation: the administration site validates the form, calls
  \<^verbatim>\<open>form.save(commit=False)\<close> and saves the instance itself. The page for adding a
  reservation redirects to \<open>admin_booking_view\<close>.
\<close>

definition reservation_change_view :: "db \<Rightarrow> int \<Rightarrow> change_form \<Rightarrow> form_error option \<times> db" where
  "reservation_change_view d object_id cd =
     (case find (\<lambda>r. rid r = object_id) (reservations d) of
        None \<Rightarrow> (Some FieldErrors, d)
      | Some instance \<Rightarrow>
          (case clean d instance cd of
             Inl e \<Rightarrow> (Some e, d)
           | Inr seat \<Rightarrow>
               (case form_save False (reservations d) instance cd seat of
                  (obj, rows) \<Rightarrow> (None, d\<lparr>reservations := save rows obj\<rparr>))))"

text \<open>
  The action \<^verbatim>\<open>cancel_reservations\<close> on the selected rows, which the change list
  hands over by descending key. Pending rows are cancelled together with the other
  pending requests for their seats; an approved row is cancelled unless its deadline has
  passed, with a cancellation record and a mail per student.
\<close>

definition cancel_reservations ::
  "settings \<Rightarrow> int \<Rightarrow> (int \<Rightarrow> uuid) \<Rightarrow> (int \<Rightarrow> bool) \<Rightarrow> db \<Rightarrow> int list
     \<Rightarrow> (flash list \<times> mail_log) \<times> db" where
  "cancel_reservations cfg now new_uuid mail_ok d selected =
     (let valid_reservations =
            rev (filter (\<lambda>r. rid r \<in> set selected \<and> status r \<in> {Pending, Approved})
                   (reservations d))
      in if valid_reservations = [] then (([AdminNoneCancellable], []), d)
         else
           (let pending_reservations = filter (\<lambda>r. status r = Pending) valid_reservations;
                approved_can_cancel =
                  filter (\<lambda>r. status r = Approved
                               \<and> \<not> deadline_passed cfg now (date r) (time_slot r))
                    valid_reservations;
                approved_cannot_cancel =
                  filter (\<lambda>r. status r = Approved
                               \<and> deadline_passed cfg now (date r) (time_slot r))
                    valid_reservations;
                warned = (if approved_cannot_cancel \<noteq> []
                          then [AdminCannotCancel (length approved_cannot_cancel)] else []);
                pending_seats_to_cancel = remdups (map key_of pending_reservations)
            in case fold cancel_pending_seat pending_seats_to_cancel (reservations d, 0) of
                 (rows0, pending_cancelled) \<Rightarrow>
                   if approved_can_cancel = []
                   then ((warned @ (if pending_cancelled > 0
                                    then [AdminPendingCancelled pending_cancelled] else []),
                          []),
                         d\<lparr>reservations := rows0\<rparr>)
                   else
                     (case fold (cancel_student_group new_uuid mail_ok now)
                             (student_groups approved_can_cancel)
                             ((rows0, reservation_seq d), 0, 0, [], []) of
                        ((rows1, seq), approved_cancelled, email_sent_count, msgs, log) \<Rightarrow>
                          ((warned @ msgs
                            @ [AdminCancelSummary (pending_cancelled + approved_cancelled)
                                 pending_cancelled email_sent_count],
                            log),
                           d\<lparr>reservations := rows1, reservation_seq := seq\<rparr>))))"

section \<open>Accounts and promotions (core/views.py)\<close>

datatype reset_response =
    ResetForm
  | ResetMissingFields
  | ResetUnknownStudent
  | ResetMailSent
  | ResetCrashed exc

text \<open>
  \<open>reset_request\<close>: the confirmation mail is sent inside a \<^verbatim>\<open>try\<close> that
  catches \<^verbatim>\<open>Student.DoesNotExist\<close> only.
\<close>

definition reset_request ::
  "db \<Rightarrow> bool \<Rightarrow> string option \<Rightarrow> string option \<Rightarrow> bool \<Rightarrow> reset_response \<times> mail_log" where
  "reset_request d post sid new_password mail_ok =
     (if \<not> post then (ResetForm, [])
      else if sid = None \<or> sid = Some [] \<or> new_password = None \<or> new_password = Some []
        then (ResetMissingFields, [])
      else
        (case find (\<lambda>s. Some (student_id s) = sid) (students d) of
           None \<Rightarrow> (ResetUnknownStudent, [])
         | Some stu \<Rightarrow>
             (if mail_ok then ResetMailSent else ResetCrashed MailError,
              [(ResetMail (stu_pk stu), mail_ok)])))"

datatype promotion_response =
    PromotionToIndex
  | AlreadyManager
  | RejectedBefore
  | AlreadyApplied
  | PromotionSubmitted
  | PromotionCrashed exc

text \<open>
  \<open>apply_promotion\<close>: the request is stored, then the administrator is sent the
  two links; nothing catches the exception of the mail.
\<close>

definition apply_promotion ::
  "db \<Rightarrow> int option \<Rightarrow> bool \<Rightarrow> (promotion_response \<times> mail_log) \<times> db" where
  "apply_promotion d sid mail_ok =
     (if sid = None \<or> sid = Some 0 then ((PromotionToIndex, []), d)
      else
        (case get_student (students d) sid of
           None \<Rightarrow> ((PromotionCrashed DoesNotExist, []), d)
         | Some stu \<Rightarrow>
             if role stu = Manager then ((AlreadyManager, []), d)
             else if \<exists>p \<in> set (promotion_requests d).
                        pr_student p = stu_pk stu \<and> pr_status p = PromotionRejected
               then ((RejectedBefore, []), d)
             else if \<exists>p \<in> set (promotion_requests d).
                        pr_student p = stu_pk stu \<and> pr_status p = PromotionPending
               then ((AlreadyApplied, []), d)
             else
               (let pr = \<lparr>pr_pk = promotion_seq d, pr_student = stu_pk stu,
                          pr_status = PromotionPending, reviewed_at = None, reviewer = []\<rparr>
                in ((if mail_ok then PromotionSubmitted else PromotionCrashed MailError,
                     [(PromotionRequestMail (stu_pk stu), mail_ok)]),
                    d\<lparr>promotion_requests := promotion_requests d @ [pr],
                      promotion_seq := promotion_seq d + 1\<rparr>))))"

datatype student_action_response =
    NoSuchStudent
  | Promoted
  | PromotionDeclined
  | UnknownAction

text \<open>
  \<open>admin_action\<close> for a verified token of type \<^verbatim>\<open>stu\<close>: \<open>stu_id\<close> is the
  student key of the token. The update of the promotion requests and the mail to the
  student are inside \<^verbatim>\<open>try ... except Exception: pass\<close>.
\<close>

definition decide_promotions ::
  "int \<Rightarrow> string \<Rightarrow> int \<Rightarrow> promotion_status \<Rightarrow> promotion_request list \<Rightarrow> promotion_request list" where
  "decide_promotions now remote_user stu_id s prs =
     map (\<lambda>p. if pr_student p = stu_id \<and> pr_status p = PromotionPending
               then p\<lparr>pr_status := s, reviewed_at := Some now, reviewer := remote_user\<rparr>
               else p) prs"

definition admin_action_stu ::
  "int \<Rightarrow> string \<Rightarrow> bool \<Rightarrow> db \<Rightarrow> int \<Rightarrow> string \<Rightarrow> (student_action_response \<times> mail_log) \<times> db" where
  "admin_action_stu now remote_user mail_ok d stu_id action =
     (case find (\<lambda>s. stu_pk s = stu_id) (students d) of
        None \<Rightarrow> ((NoSuchStudent, []), d)
      | Some stu \<Rightarrow>
          if action = ''promote'' then
            ((Promoted, [(PromotionDecisionMail stu_id True, mail_ok)]),
             d\<lparr>students := map (\<lambda>s. if stu_pk s = stu_id then stu\<lparr>role := Manager\<rparr> else s)
                              (students d),
               promotion_requests :=
                 decide_promotions now remote_user stu_id PromotionApproved (promotion_requests d)\<rparr>)
          else if action = ''reject'' then
            ((PromotionDeclined, [(PromotionDecisionMail stu_id False, mail_ok)]),
             d\<lparr>promotion_requests :=
                 decide_promotions now remote_user stu_id PromotionRejected (promotion_requests d)\<rparr>)
          else ((UnknownAction, []), d))"

section \<open>send_access_codes (core/management/commands/send_access_codes.py)\<close>

definition generate_access_code :: "settings \<Rightarrow> string \<Rightarrow> string" where
  "generate_access_code cfg random_digits =
     (case ACCESS_CODE_FIXED cfg of
        None \<Rightarrow> random_digits
      | Some fixed_code \<Rightarrow> if fixed_code = [] then random_digits else fixed_code)"

definition ac_key :: "access_code \<Rightarrow> int \<times> int \<times> int" where
  "ac_key a = (ac_classroom a, ac_date a, ac_time_slot a)"

text \<open>\<^verbatim>\<open>AccessCode.objects.get_or_create(classroom, date, time_slot, defaults)\<close>.\<close>

definition get_or_create_code ::
  "access_code list \<Rightarrow> int \<times> int \<times> int \<Rightarrow> string \<Rightarrow> access_code \<times> access_code list" where
  "get_or_create_code codes k new_code =
     (case find (\<lambda>a. ac_key a = k) codes of
        Some a \<Rightarrow> (a, codes)
      | None \<Rightarrow>
          (case k of (cls, d, slot) \<Rightarrow>
             (let a = \<lparr>ac_classroom = cls, ac_date = d, ac_time_slot = slot, code = new_code,
                       notified = False\<rparr>
              in (a, codes @ [a]))))"

text \<open>\<^verbatim>\<open>access_code_obj.notified = True; access_code_obj.save()\<close>.\<close>

definition mark_notified :: "access_code list \<Rightarrow> access_code \<Rightarrow> access_code list" where
  "mark_notified codes obj =
     map (\<lambda>a. if ac_key a = ac_key obj then obj\<lparr>notified := True\<rparr> else a) codes"

text \<open>
  The body of the loop over the active classrooms, for one slot inside its window.
  \<open>rnd\<close> gives the digits drawn for a classroom and slot, \<open>mail_ok\<close> says for each
  student whether \<^verbatim>\<open>send_mail\<close> succeeds.
\<close>

definition notify_classroom ::
  "settings \<Rightarrow> bool \<Rightarrow> int \<Rightarrow> (int \<Rightarrow> int \<Rightarrow> string) \<Rightarrow> (int \<Rightarrow> bool) \<Rightarrow> reservation list
     \<Rightarrow> int \<Rightarrow> classroom \<Rightarrow> access_code list \<times> mail_log \<Rightarrow> access_code list \<times> mail_log" where
  "notify_classroom cfg dry_run today rnd mail_ok rows slot_id cls st =
     (case st of (codes, log) \<Rightarrow>
        (case get_or_create_code codes (cls_pk cls, today, slot_id)
                (generate_access_code cfg (rnd (cls_pk cls) slot_id)) of
           (access_code_obj, codes1) \<Rightarrow>
             if notified access_code_obj then (codes1, log)
             else
               (let approved_reservations =
                      filter (\<lambda>r. classroom r = cls_pk cls \<and> date r = today
                                   \<and> time_slot r = slot_id \<and> status r = Approved) rows
                in if approved_reservations = []
                     then (mark_notified codes1 access_code_obj, log)
                   else
                     (let student_seats =
                            map (\<lambda>s. (s, map (\<lambda>r. (seat_row r + 1, seat_col r + 1))
                                            (filter (\<lambda>r. student r = s) approved_reservations)))
                              (first_occurrences (map student approved_reservations))
                      in if dry_run then (codes1, log)
                         else (mark_notified codes1 access_code_obj,
                               log @ map (\<lambda>(s, seats).
                                           (AccessCodeMail s (cls_pk cls) today slot_id
                                              (code access_code_obj) seats, mail_ok s))
                                       student_seats)))))"

text \<open>
  The loop over the slots. The start of the notification window is computed outside
  any \<^verbatim>\<open>try\<close>, and so is the access code, whose slot has to fit its column: the
  exception, if any, ends the command and is returned with the state reached.
\<close>

fun notify_slots ::
  "settings \<Rightarrow> bool \<Rightarrow> int \<Rightarrow> (int \<Rightarrow> int \<Rightarrow> string) \<Rightarrow> (int \<Rightarrow> bool) \<Rightarrow> reservation list
     \<Rightarrow> classroom list \<Rightarrow> (int \<times> string) list \<Rightarrow> access_code list \<times> mail_log
     \<Rightarrow> (access_code list \<times> mail_log) \<times> exc option" where
  "notify_slots cfg dry_run now rnd mail_ok rows active [] st = (st, None)"
| "notify_slots cfg dry_run now rnd mail_ok rows active ((slot_id, slot_label) # rest) st =
     (case get_slot_start_time cfg (date_of now) slot_id of
        None \<Rightarrow> notify_slots cfg dry_run now rnd mail_ok rows active rest st
      | Some slot_start \<Rightarrow>
          (case datetime_sub slot_start (minutes (getattr (ACCESS_CODE_NOTIFY_MINUTES cfg) 15)) of
             None \<Rightarrow> (st, Some OverflowError)
           | Some notify_time \<Rightarrow>
               if notify_time \<le> now \<and> now < slot_start
               then (if active \<noteq> [] \<and> \<not> db_int slot_id then (st, Some OverflowError)
                     else notify_slots cfg dry_run now rnd mail_ok rows active rest
                            (fold (notify_classroom cfg dry_run (date_of now) rnd mail_ok rows slot_id)
                               active st))
               else notify_slots cfg dry_run now rnd mail_ok rows active rest st))"

text \<open>The command: the new database, the mail log, and the number of mails sent or the
  exception.\<close>

definition send_access_codes ::
  "settings \<Rightarrow> bool \<Rightarrow> int \<Rightarrow> (int \<Rightarrow> int \<Rightarrow> string) \<Rightarrow> (int \<Rightarrow> bool) \<Rightarrow> db
     \<Rightarrow> db \<times> mail_log \<times> (exc + nat)" where
  "send_access_codes cfg dry_run now rnd mail_ok d =
     (case notify_slots cfg dry_run now rnd mail_ok (reservations d)
             (filter is_active (classrooms d)) (TIME_SLOTS cfg) (access_codes d, []) of
        ((codes, log), crash) \<Rightarrow>
          (d\<lparr>access_codes := codes\<rparr>, log,
           (case crash of Some e \<Rightarrow> Inl e | None \<Rightarrow> Inr (length (filter snd log)))))"

section \<open>Well-formed tables and the seat invariant\<close>

text \<open>Primary keys are unique and below the counter of the auto-increment key.\<close>

definition wf_rows :: "reservation list \<Rightarrow> int \<Rightarrow> bool" where
  "wf_rows rows seq = (distinct (map rid rows) \<and> (\<forall>i \<in> set (map rid rows). i < seq))"

definition wf :: "db \<Rightarrow> bool" where
  "wf d = wf_rows (reservations d) (reservation_seq d)"

text \<open>No two approved reservations name the same classroom, seat, date and slot.\<close>

definition approved_keys :: "reservation list \<Rightarrow> seat_key list" where
  "approved_keys rows = map key_of (filter (\<lambda>r. status r = Approved) rows)"

definition one_approved :: "reservation list \<Rightarrow> bool" where
  "one_approved rows = distinct (approved_keys rows)"

section \<open>The claim's description of a stale reservation\<close>

text \<open>
  Written from the words of the specification, to be compared with what \<open>cleanup\<close>
  does: (a) dated today or later and the slot start minus the booking window has passed,
  (b) created more than \<open>RESERVATION_TIMEOUT_HOURS\<close> ago, (c) dated at least
  \<open>RESERVATION_EXPIRE_DAYS\<close> days in the past. In (a) the slot start minus the
  window has to be a time that a \<^verbatim>\<open>datetime\<close> can hold: \<open>window\<close> minutes make
  at most 999999999 days and the result lies in the years 1 to 9999.
\<close>

definition representable_deadline :: "int \<Rightarrow> int \<Rightarrow> bool" where
  "representable_deadline slot_start window =
     (- 999999999 \<le> (window * 60) div 86400 \<and> (window * 60) div 86400 \<le> 999999999
      \<and> 1 \<le> (slot_start - window * 60) div 86400
      \<and> (slot_start - window * 60) div 86400 \<le> 3652059)"

definition stale_by_spec :: "settings \<Rightarrow> int \<Rightarrow> reservation \<Rightarrow> bool" where
  "stale_by_spec cfg now r =
     ((date r \<ge> date_of now
         \<and> (case get_slot_start_time cfg (date r) (time_slot r) of
              None \<Rightarrow> False
            | Some slot_start \<Rightarrow>
                representable_deadline slot_start (getattr (RESERVATION_BOOKING_WINDOW_MINUTES cfg) 30)
                \<and> now \<ge> slot_start - getattr (RESERVATION_BOOKING_WINDOW_MINUTES cfg) 30 * 60))
      \<or> created_at r < now - getattr (RESERVATION_TIMEOUT_HOURS cfg) 24 * 3600
      \<or> date r \<le> date_of now - getattr (RESERVATION_EXPIRE_DAYS cfg) 1)"

text \<open>The invariant of the reservations table.\<close>

definition seat_invariant :: "db \<Rightarrow> bool" where
  "seat_invariant d = (wf d \<and> one_approved (reservations d))"

section \<open>Auxiliary notions for the approval loop\<close>

text \<open>The rows after one iteration of \<open>decide_loop\<close>, without the counters.\<close>

definition decide_rows :: "string \<Rightarrow> reservation \<Rightarrow> reservation list \<Rightarrow> reservation list" where
  "decide_rows action res rows =
     (if action = ''approve'' then
        (if is_hard_locked rows (key_of res) then save rows (res\<lparr>status := Rejected\<rparr>)
         else update_status (\<lambda>r. key_of r = key_of res \<and> status r = Pending \<and> rid r \<noteq> rid res)
                Rejected (save rows (res\<lparr>status := Approved\<rparr>)))
      else if action = ''reject'' then save rows (res\<lparr>status := Rejected\<rparr>)
      else rows)"

text \<open>
  The objects a loop holds were loaded from the table: each has its row, equal to it up
  to the status, and none of these rows is approved. Primary keys are unique.
\<close>

definition loaded :: "reservation list \<Rightarrow> reservation list \<Rightarrow> bool" where
  "loaded rows mem =
     (distinct (map rid rows) \<and> distinct (map rid mem)
      \<and> (\<forall>m \<in> set mem. \<exists>s. s \<noteq> Approved \<and> m\<lparr>status := s\<rparr> \<in> set rows))"

text \<open>Seat \<open>k\<close> has the approved reservation \<open>a\<close>, no other, and nothing pending.\<close>

definition settled :: "seat_key \<Rightarrow> reservation \<Rightarrow> reservation list \<Rightarrow> bool" where
  "settled k a rows =
     (a \<in> set rows \<and> status a = Approved \<and> key_of a = k
      \<and> (\<forall>r \<in> set rows. key_of r = k \<longrightarrow> status r \<noteq> Pending \<and> (status r = Approved \<longrightarrow> r = a)))"

text \<open>The rows after the deadline loop of \<open>admin_action\<close>.\<close>

definition after_deadline :: "settings \<Rightarrow> int \<Rightarrow> int list \<Rightarrow> reservation list \<Rightarrow> reservation list" where
  "after_deadline cfg now ids rows =
     map (\<lambda>r. if rid r \<in> set ids \<and> status r = Pending
                  \<and> deadline_passed cfg now (date r) (time_slot r)
               then r\<lparr>status := Expired\<rparr> else r) rows"

text \<open>The requests the deadline loop keeps.\<close>

definition valid_requests :: "settings \<Rightarrow> int \<Rightarrow> int list \<Rightarrow> reservation list \<Rightarrow> reservation list" where
  "valid_requests cfg now ids rows =
     filter (\<lambda>r. rid r \<in> set ids \<and> status r = Pending
                  \<and> \<not> deadline_passed cfg now (date r) (time_slot r)) rows"

section \<open>Auxiliary notions for the mails\<close>

text \<open>The student a mail concerns.\<close>

fun mail_student :: "mail \<Rightarrow> int" where
  "mail_student (ResetMail stu) = stu"
| "mail_student (BookingRequestMail stu n) = stu"
| "mail_student (PromotionDecisionMail stu ok) = stu"
| "mail_student (PromotionRequestMail stu) = stu"
| "mail_student (CancelNotice stu seats) = stu"
| "mail_student (AccessCodeMail stu cls d slot cd seats) = stu"

text \<open>The calls of \<^verbatim>\<open>send_mail\<close> that concern a student.\<close>

definition attempts :: "int \<Rightarrow> mail_log \<Rightarrow> mail_log" where
  "attempts stu log = filter (\<lambda>(m, ok). mail_student m = stu) log"

section \<open>Example data\<close>

definition cfg0 :: settings where
  "cfg0 = \<lparr>TIME_SLOTS = [(1, ''08:00 - 10:00''), (2, ''10:00 - 12:00'')],
           RESERVATION_BOOKING_WINDOW_MINUTES = None,
           RESERVATION_TIMEOUT_HOURS = None,
           RESERVATION_EXPIRE_DAYS = None,
           RESERVATION_MAX_DAYS_AHEAD = None,
           RESERVATION_MAX_DAYS_AHEAD_MANAGER = None,
           ACCESS_CODE_NOTIFY_MINUTES = None,
           ACCESS_CODE_FIXED = None\<rparr>"

text \<open>
  A booking window of 2000000000000 minutes and a timeout of 1000000000000 hours: more
  than a \<^verbatim>\<open>timedelta\<close> holds.
\<close>

definition cfg_far :: settings where
  "cfg_far = cfg0\<lparr>RESERVATION_BOOKING_WINDOW_MINUTES := Some 2000000000000\<rparr>"

definition cfg_slow :: settings where
  "cfg_slow = cfg0\<lparr>RESERVATION_TIMEOUT_HOURS := Some 1000000000000\<rparr>"

definition alice :: student where
  "alice = \<lparr>stu_pk = 1, student_id = ''U1001'', stu_status = Normal, role = User,
            is_auto_created = False\<rparr>"

definition bob :: student where
  "bob = \<lparr>stu_pk = 2, student_id = ''U1002'', stu_status = Normal, role = Manager,
          is_auto_created = False\<rparr>"

definition room :: classroom where
  "room = \<lparr>cls_pk = 1, name = ''A101'', layout = ''111'', is_active = True\<rparr>"

text \<open>Day 20000, slot 1 (08:00): the booking deadline is 07:30 of that day.\<close>

definition db0 :: db where
  "db0 = \<lparr>students = [alice, bob], student_seq = 3, classrooms = [room],
          reservations = [], reservation_seq = 1, promotion_requests = [],
          promotion_seq = 1, access_codes = []\<rparr>"

definition mk_res :: "int \<Rightarrow> uuid \<Rightarrow> int \<Rightarrow> int \<Rightarrow> int \<Rightarrow> status \<Rightarrow> reservation" where
  "mk_res i bid stu r c st =
     new_reservation i bid stu (1, r, c, 20000, 1) st (combine 19999 12 0) False"

text \<open>Bob holds the approved reservation of seat (0, 1).\<close>

definition db1 :: db where
  "db1 = db0\<lparr>reservations := [mk_res 1 50 2 0 1 Approved], reservation_seq := 2\<rparr>"

text \<open>Bob has three pending batches, one of them with two seats.\<close>

definition db3 :: db where
  "db3 = db0\<lparr>reservations := [mk_res 1 51 2 0 0 Pending, mk_res 2 51 2 0 1 Pending,
                               mk_res 3 52 2 1 0 Pending, mk_res 4 53 2 1 1 Pending],
             reservation_seq := 5\<rparr>"

definition rq_alice :: "string \<Rightarrow> submit_request" where
  "rq_alice seats = \<lparr>rq_post = True, rq_sid = Some 1, rq_cid = Some ''1'', rq_date = Some (iso 20000),
          rq_slot = Some ''1'', rq_seats_list = Some seats\<rparr>"

definition rq_bob :: "string \<Rightarrow> submit_request" where
  "rq_bob seats = \<lparr>rq_post = True, rq_sid = Some 2, rq_cid = Some ''1'', rq_date = Some (iso 20000),
          rq_slot = Some ''1'', rq_seats_list = Some seats\<rparr>"

text \<open>
  Five rows for the cleanup at 07:45 of day 20000: (1) slot 1 of today, past its 07:30
  deadline; (2) slot 2 of today, not stale; (3) approved; (4) dated yesterday;
  (5) dated tomorrow but created two days ago.
\<close>

definition cleanup_rows :: "reservation list" where
  "cleanup_rows =
     [new_reservation 1 50 1 (1, 0, 0, 20000, 1) Pending (combine 19999 12 0) False,
      new_reservation 2 51 1 (1, 0, 0, 20000, 2) Pending (combine 19999 12 0) False,
      new_reservation 3 52 2 (1, 0, 1, 20000, 1) Approved (combine 19999 12 0) False,
      new_reservation 4 53 2 (1, 0, 2, 19999, 2) Pending (combine 19999 12 0) False,
      new_reservation 5 54 2 (1, 0, 2, 20001, 2) Pending (combine 19998 7 0) False]"

text \<open>Bob's batch 60 for slot 1 of day 20000: one pending row and one approved row.\<close>

definition batch_rows :: "reservation list" where
  "batch_rows =
     [new_reservation 1 60 2 (1, 0, 0, 20000, 1) Pending (combine 19999 12 0) False,
      new_reservation 2 60 2 (1, 0, 1, 20000, 1) Approved (combine 19999 12 0) True,
      new_reservation 3 61 1 (1, 0, 0, 20000, 1) Pending (combine 19999 12 0) False]"

text \<open>
  Alice and Bob both ask for seat (0, 0) of slot 1 on day 20000; Bob also asks for (0, 1).
\<close>

definition rival_rows :: "reservation list" where
  "rival_rows =
     [new_reservation 1 70 1 (1, 0, 0, 20000, 1) Pending (combine 19999 12 0) False,
      new_reservation 2 71 2 (1, 0, 0, 20000, 1) Pending (combine 19999 12 0) False,
      new_reservation 3 71 2 (1, 0, 1, 20000, 1) Pending (combine 19999 12 0) False]"

text \<open>
  Bob holds the approved reservation of seat (0, 0) for slot 1 of day 20000 and Alice has
  a pending request for the same seat.
\<close>

definition lock_rows :: "reservation list" where
  "lock_rows =
     [new_reservation 1 80 2 (1, 0, 0, 20000, 1) Approved (combine 19999 12 0) False,
      new_reservation 2 81 1 (1, 0, 0, 20000, 1) Pending (combine 19999 12 0) False]"

definition lock_db :: db where
  "lock_db = db0\<lparr>reservations := lock_rows, reservation_seq := 3\<rparr>"

text \<open>The administrator books seats for Alice in the classroom, date and slot above.\<close>

definition rq_admin :: "string \<Rightarrow> admin_request" where
  "rq_admin seats =
     \<lparr>ar_post = True, ar_classroom_id = Some ''1'', ar_date = Some (iso 20000), ar_slot = Some ''1'',
      ar_target_student_id = Some ''U1001'', ar_seats_list = Some seats,
      ar_reservation_ids = None\<rparr>"

text \<open>The administrator cancels the reservations with the given ids on the same page.\<close>

definition rq_cancel :: "string \<Rightarrow> admin_request" where
  "rq_cancel ids_str =
     \<lparr>ar_post = True, ar_classroom_id = Some ''1'', ar_date = Some (iso 20000), ar_slot = Some ''1'',
      ar_target_student_id = None, ar_seats_list = None, ar_reservation_ids = Some ids_str\<rparr>"


text \<open>
  The change form of reservation 2, filled in to make it an approved reservation of seat
  (0, 0), which is row 1 and column 1 of the form.
\<close>

definition form_alice :: change_form where
  "form_alice = \<lparr>cf_student = 1, cf_classroom = 1, cf_date = 20000, cf_time_slot = 1,
                 cf_status = Approved, cf_is_admin_action = False, cf_cancelled_seats_info = [],
                 row_input = 1, col_input = 1\<rparr>"

section \<open>Evaluation rules\<close>

lemmas ex_defs = cfg0_def alice_def bob_def room_def db0_def db1_def db3_def mk_res_def
  rq_alice_def rq_bob_def iso_def

lemmas time_defs = py_int_def int_space_def strip_def isspace_def digit_of_def
  MAX_STR_DIGITS_def parse_hm_def dict_get_def getattr_def combine_def date_of_def
  minutes_def hours_def days_def timedelta_def datetime_sub_def date_add_def date_sub_def
  valid_date_def valid_datetime_def MAXORDINAL_def
  get_slot_start_time_def booking_deadline_def deadline_passed_def

lemmas submit_defs = Let_def submit_def submit_prechecks_def get_student_def
  current_pending_batches_def has_booking_def MAX_PENDING_BATCHES_def parse_seat_def
  pk_of_field_def is_hard_locked_def new_reservation_def key_of_def db_int_def
  classroom_exists_def

section \<open>Properties of submit\<close>

lemma split_on_nonempty [simp]: "split_on sep s \<noteq> []"
  by (induction s) (auto split: list.splits)

text \<open>The deadline of the handlers, spelled out.\<close>

lemma booking_deadline_alt:
  "booking_deadline cfg d slot =
     (case get_slot_start_time cfg d slot of
        None \<Rightarrow> None
      | Some slot_start \<Rightarrow>
          if representable_deadline slot_start (getattr (RESERVATION_BOOKING_WINDOW_MINUTES cfg) 30)
          then Some (slot_start - getattr (RESERVATION_BOOKING_WINDOW_MINUTES cfg) 30 * 60)
          else None)"
  by (cases "get_slot_start_time cfg d slot")
     (auto simp: booking_deadline_def datetime_sub_def minutes_def timedelta_def
        representable_deadline_def valid_datetime_def valid_date_def date_of_def MAXORDINAL_def)

lemma deadline_passed_alt:
  "deadline_passed cfg now d slot =
     (case get_slot_start_time cfg d slot of
        None \<Rightarrow> False
      | Some slot_start \<Rightarrow>
          representable_deadline slot_start (getattr (RESERVATION_BOOKING_WINDOW_MINUTES cfg) 30)
          \<and> now \<ge> slot_start - getattr (RESERVATION_BOOKING_WINDOW_MINUTES cfg) 30 * 60)"
  by (simp add: deadline_passed_def booking_deadline_alt split: option.splits)

lemma prechecks_Inl_unchanged:
  "rq_post rq \<Longrightarrow> submit_prechecks cfg now d rq = Inl resp \<Longrightarrow>
   submit cfg now bid mail_ok d rq = ((resp, []), d)"
  by (simp add: submit_def)

lemma prechecks_Inl_error:
  "submit_prechecks cfg now d rq = Inl resp \<Longrightarrow> \<exists>m. resp = InfoError m"
  by (auto simp: submit_prechecks_def Let_def split: option.splits if_splits)


text \<open>Every way out of \<open>submit\<close> that is not a success leaves the database as it was.\<close>

lemma submit_refused:
  assumes "rq_post rq"
    and "submit_prechecks cfg now d rq = Inl resp
         \<or> (\<exists>stu slot date_str seats_list e.
               submit_prechecks cfg now d rq = Inr (stu, slot, date_str, seats_list)
               \<and> submit_loop (rq_cid rq) (stu_pk stu) (parse_date date_str) slot bid now seats_list
                    (reservations d, reservation_seq d) [] = Inl e)"
  shows "snd (submit cfg now bid mail_ok d rq) = d
         \<and> (\<exists>m. fst (fst (submit cfg now bid mail_ok d rq)) = InfoError m)"
  using assms prechecks_Inl_error[of cfg now d rq resp]
  by (auto simp: submit_def)

lemma current_pending_batches_card:
  "current_pending_batches rows stu today =
     card (batch_id ` {r \<in> set rows. student r = stu \<and> status r = Pending \<and> date r \<ge> today})"
  by (simp add: current_pending_batches_def length_remdups_card_conv)

lemma key_of_new_reservation [simp]:
  "key_of (new_reservation i bid stu k st now adm) = k"
  by (cases k) (auto simp: key_of_def new_reservation_def)

lemma new_reservation_sel [simp]:
  "rid (new_reservation i bid stu k st now adm) = i"
  "batch_id (new_reservation i bid stu k st now adm) = bid"
  "student (new_reservation i bid stu k st now adm) = stu"
  "status (new_reservation i bid stu k st now adm) = st"
  "created_at (new_reservation i bid stu k st now adm) = now"
  "is_admin_action (new_reservation i bid stu k st now adm) = adm"
  by (cases k; simp add: new_reservation_def)+

lemma is_hard_locked_append_pending [simp]:
  "is_hard_locked (rows @ [new_reservation i bid stu k' Pending now adm]) k = is_hard_locked rows k"
  by (auto simp: is_hard_locked_def)


text \<open>Conversely, the loop raises unless every seat is well formed, in range and free.\<close>

lemma submit_loop_Inr_D:
  "submit_loop cid stu d slot bid now ss (rows, seq) new = Inr res \<Longrightarrow> ss \<noteq> [] \<Longrightarrow>
   \<exists>k dt. pk_of_field cid = Inr (Some k) \<and> d = Some dt \<and> db_int k \<and> db_int slot
      \<and> (\<forall>s \<in> set ss. \<exists>r c. parse_seat s = Some (r, c) \<and> db_int r \<and> db_int c
             \<and> \<not> is_hard_locked rows (k, r, c, dt, slot))"
proof (induction ss arbitrary: rows seq new)
  case Nil
  then show ?case by simp
next
  case (Cons s ss)
  from Cons.prems(1) obtain r c k dt where
    s: "parse_seat s = Some (r, c)" and k: "pk_of_field cid = Inr (Some k)" and dt: "d = Some dt"
    and nl: "\<not> is_hard_locked rows (k, r, c, dt, slot)"
    and rg: "db_int k" "db_int r" "db_int c" "db_int slot"
    and rec: "submit_loop cid stu d slot bid now ss
                (rows @ [new_reservation seq bid stu (k, r, c, dt, slot) Pending now False], seq + 1)
                (new @ [new_reservation seq bid stu (k, r, c, dt, slot) Pending now False]) = Inr res"
    by (auto simp: Let_def split: option.splits sum.splits if_splits)
  show ?case
  proof (cases "ss = []")
    case True
    then show ?thesis using s k dt nl rg by auto
  next
    case False
    from Cons.IH[OF rec False] k dt
    have "\<forall>s \<in> set ss. \<exists>r c. parse_seat s = Some (r, c) \<and> db_int r \<and> db_int c
             \<and> \<not> is_hard_locked rows (k, r, c, dt, slot)"
      by auto
    then show ?thesis using s k dt nl rg by auto
  qed
qed

text \<open>
  Claim C4, as amended (booking window). For a POST whose slot has a start time that
  parses, let the deadline be the slot start minus
  \<open>RESERVATION_BOOKING_WINDOW_MINUTES\<close> (30 when the setting is absent). When the
  deadline is a time that a \<^verbatim>\<open>datetime\<close> can hold: at or after the deadline
  \<open>submit\<close> answers with an error and leaves the database as it was, and strictly
  before it the answer is never the booking-closed error. When it is not, the
  subtraction raises inside \<^verbatim>\<open>try\<close> and the answer is never the booking-closed
  error.
\<close>

theorem submit_booking_window:
  assumes "rq_post rq" "rq_slot rq = Some slot_str" "py_int slot_str = Some slot"
    "rq_date rq = Some date_str" "strptime date_str = Some req_date"
    "get_slot_start_time cfg req_date slot = Some slot_start"
  shows "(representable_deadline slot_start (getattr (RESERVATION_BOOKING_WINDOW_MINUTES cfg) 30) \<longrightarrow>
           (now \<ge> slot_start - getattr (RESERVATION_BOOKING_WINDOW_MINUTES cfg) 30 * 60 \<longrightarrow>
              snd (submit cfg now bid mail_ok d rq) = d
              \<and> (\<exists>m. fst (fst (submit cfg now bid mail_ok d rq)) = InfoError m))
           \<and> (now < slot_start - getattr (RESERVATION_BOOKING_WINDOW_MINUTES cfg) 30 * 60 \<longrightarrow>
                fst (fst (submit cfg now bid mail_ok d rq)) \<noteq> InfoError BookingClosed))
       \<and> (\<not> representable_deadline slot_start (getattr (RESERVATION_BOOKING_WINDOW_MINUTES cfg) 30) \<longrightarrow>
            fst (fst (submit cfg now bid mail_ok d rq)) \<noteq> InfoError BookingClosed)"
proof -
  let ?W = "getattr (RESERVATION_BOOKING_WINDOW_MINUTES cfg) 30"
  have notclosed: "fst (fst (submit cfg now bid mail_ok d rq)) \<noteq> InfoError BookingClosed"
    if dp: "\<not> deadline_passed cfg now req_date slot"
  proof -
    have pre: "\<And>resp. submit_prechecks cfg now d rq = Inl resp \<Longrightarrow> resp \<noteq> InfoError BookingClosed"
      using assms dp by (auto simp: submit_prechecks_def Let_def split: option.splits if_splits)
    show ?thesis
      using assms(1) pre by (auto simp: submit_def split: sum.splits prod.splits)
  qed
  have late: "snd (submit cfg now bid mail_ok d rq) = d
              \<and> (\<exists>m. fst (fst (submit cfg now bid mail_ok d rq)) = InfoError m)"
    if dp: "deadline_passed cfg now req_date slot"
  proof -
    have "\<exists>resp. submit_prechecks cfg now d rq = Inl resp"
      using assms dp by (auto simp: submit_prechecks_def Let_def split: option.splits)
    then obtain resp where r: "submit_prechecks cfg now d rq = Inl resp" by blast
    show ?thesis
      using prechecks_Inl_unchanged[OF assms(1) r] prechecks_Inl_error[OF r] by simp
  qed
  show ?thesis
    using late notclosed assms(6) by (simp add: deadline_passed_alt)
qed

text \<open>
  The claim as first stated asks for a refusal whenever the current time is at or after
  the slot start minus the window. With a window of 2000000000000 minutes the
  subtraction overflows, and a request made at 07:45 for the 08:00 slot is accepted.
\<close>

theorem submit_booking_window_counterexample:
  "get_slot_start_time cfg_far 20000 1 = Some (combine 20000 8 0)
   \<and> combine 20000 7 45
       \<ge> combine 20000 8 0 - getattr (RESERVATION_BOOKING_WINDOW_MINUTES cfg_far) 30 * 60
   \<and> submit cfg_far (combine 20000 7 45) 7 True db0 (rq_alice ''0-2'')
       = ((InfoSuccess 1, [(BookingRequestMail 1 1, True)]),
          db0\<lparr>reservations :=
                [new_reservation 1 7 1 (1, 0, 2, 20000, 1) Pending (combine 20000 7 45) False],
              reservation_seq := 2\<rparr>)"
  by (simp add: cfg_far_def ex_defs time_defs submit_defs)

text \<open>
  At 07:30 of day 20000 the request for the 08:00 slot is refused as closed; one minute
  earlier it is accepted.
\<close>

theorem submit_booking_window_witness:
  "get_slot_start_time cfg0 20000 1 = Some (combine 20000 8 0)
   \<and> representable_deadline (combine 20000 8 0) 30
   \<and> submit cfg0 (combine 20000 7 30) 7 True db0 (rq_alice ''0-2'')
       = ((InfoError BookingClosed, []), db0)
   \<and> fst (fst (submit cfg0 (combine 20000 7 29) 7 True db0 (rq_alice ''0-2''))) = InfoSuccess 1"
proof -
  have h: "rq_post (rq_alice ''0-2'')" "rq_slot (rq_alice ''0-2'') = Some ''1''"
    "py_int ''1'' = Some 1" "rq_date (rq_alice ''0-2'') = Some (iso 20000)"
    "strptime (iso 20000) = Some 20000"
    "get_slot_start_time cfg0 20000 1 = Some (combine 20000 8 0)"
    by (simp_all add: ex_defs time_defs)
  have rep: "representable_deadline (combine 20000 8 0) 30"
    by (simp add: representable_deadline_def combine_def)
  note w = submit_booking_window[OF h, of _ 7 True db0]
  have late: "snd (submit cfg0 (combine 20000 7 30) 7 True db0 (rq_alice ''0-2'')) = db0"
    using w[of "combine 20000 7 30"] rep by (simp add: combine_def getattr_def cfg0_def)
  have early: "fst (fst (submit cfg0 (combine 20000 7 29) 7 True db0 (rq_alice ''0-2'')))
                 \<noteq> InfoError BookingClosed"
    using w[of "combine 20000 7 29"] rep by (simp add: combine_def getattr_def cfg0_def)
  show ?thesis
    using h(6) rep late early by (simp add: ex_defs time_defs submit_defs)
qed

text \<open>
  Claim C9 (pending-batch limit). \<open>MAX_PENDING_BATCHES\<close> is 3 and the number compared
  with it is the number of distinct batch ids among the student's pending reservations
  dated today or later, not the number of rows. A student for whom it is three or more
  is refused and nothing is created; below three the limit is not the reason of any
  refusal.
\<close>

theorem submit_pending_batch_limit:
  assumes "rq_post rq" "get_student (students d) (rq_sid rq) = Some stu"
  shows "MAX_PENDING_BATCHES = 3
       \<and> current_pending_batches (reservations d) (stu_pk stu) (date_of now)
           = card (batch_id ` {r \<in> set (reservations d).
                  student r = stu_pk stu \<and> status r = Pending \<and> date r \<ge> date_of now})
       \<and> (3 \<le> current_pending_batches (reservations d) (stu_pk stu) (date_of now) \<longrightarrow>
            snd (submit cfg now bid mail_ok d rq) = d
            \<and> (\<exists>m. fst (fst (submit cfg now bid mail_ok d rq)) = InfoError m))
       \<and> (current_pending_batches (reservations d) (stu_pk stu) (date_of now) < 3 \<longrightarrow>
            (\<forall>n. fst (fst (submit cfg now bid mail_ok d rq)) \<noteq> InfoError (TooManyPending n)))"
proof (intro conjI impI)
  show "MAX_PENDING_BATCHES = 3" by (simp add: MAX_PENDING_BATCHES_def)
next
  show "current_pending_batches (reservations d) (stu_pk stu) (date_of now)
           = card (batch_id ` {r \<in> set (reservations d).
                  student r = stu_pk stu \<and> status r = Pending \<and> date r \<ge> date_of now})"
    by (rule current_pending_batches_card)
next
  assume "3 \<le> current_pending_batches (reservations d) (stu_pk stu) (date_of now)"
  then have n: "current_pending_batches (reservations d) (stu_pk stu) (date_of now)
                  \<ge> MAX_PENDING_BATCHES"
    by (simp add: MAX_PENDING_BATCHES_def)
  have "\<exists>resp. submit_prechecks cfg now d rq = Inl resp"
    using assms n by (auto simp: submit_prechecks_def Let_def split: option.splits)
  then obtain resp where r: "submit_prechecks cfg now d rq = Inl resp" by blast
  show "snd (submit cfg now bid mail_ok d rq) = d"
    using prechecks_Inl_unchanged[OF assms(1) r] by simp
  show "\<exists>m. fst (fst (submit cfg now bid mail_ok d rq)) = InfoError m"
    using prechecks_Inl_unchanged[OF assms(1) r] prechecks_Inl_error[OF r] by simp
next
  assume "current_pending_batches (reservations d) (stu_pk stu) (date_of now) < 3"
  then have n: "\<not> current_pending_batches (reservations d) (stu_pk stu) (date_of now)
                    \<ge> MAX_PENDING_BATCHES"
    by (simp add: MAX_PENDING_BATCHES_def)
  have pre: "\<And>resp k. submit_prechecks cfg now d rq = Inl resp \<Longrightarrow>
                resp \<noteq> InfoError (TooManyPending k)"
    using assms n by (auto simp: submit_prechecks_def Let_def split: option.splits if_splits)
  show "\<forall>n. fst (fst (submit cfg now bid mail_ok d rq)) \<noteq> InfoError (TooManyPending n)"
    using assms(1) pre
    by (auto simp: submit_def split: sum.splits prod.splits)
qed

text \<open>
  Bob's four pending rows form three batches and his request is refused; with the two
  pending rows of one batch removed he has two batches and the request goes through.
\<close>

theorem submit_pending_batch_limit_witness:
  "submit cfg0 (combine 20000 7 0) 7 True db3 (rq_bob ''0-2'')
     = ((InfoError (TooManyPending 3), []), db3)
   \<and> fst (fst (submit cfg0 (combine 20000 7 0) 7 True
            (db3\<lparr>reservations := [mk_res 3 52 2 1 0 Pending, mk_res 4 53 2 1 1 Pending]\<rparr>)
            (rq_bob ''0-2''))) = InfoSuccess 1"
proof -
  have h: "rq_post (rq_bob ''0-2'')" "get_student (students db3) (rq_sid (rq_bob ''0-2'')) = Some bob"
    by (simp_all add: ex_defs get_student_def)
  let ?d2 = "db3\<lparr>reservations := [mk_res 3 52 2 1 0 Pending, mk_res 4 53 2 1 1 Pending]\<rparr>"
  have h2: "get_student (students ?d2) (rq_sid (rq_bob ''0-2'')) = Some bob"
    by (simp add: ex_defs get_student_def)
  have a: "snd (submit cfg0 (combine 20000 7 0) 7 True db3 (rq_bob ''0-2'')) = db3"
    using submit_pending_batch_limit[OF h, of "combine 20000 7 0" cfg0 7 True]
    by (simp add: current_pending_batches_def ex_defs time_defs new_reservation_def)
  have b: "fst (fst (submit cfg0 (combine 20000 7 0) 7 True ?d2 (rq_bob ''0-2'')))
             \<noteq> InfoError (TooManyPending 2)"
    using submit_pending_batch_limit[OF h(1) h2, of "combine 20000 7 0" cfg0 7 True]
    by (simp add: current_pending_batches_def ex_defs time_defs new_reservation_def)
  show ?thesis
    using a b by (simp add: ex_defs time_defs submit_defs)
qed

text \<open>
  Claim C10 (normal-user restrictions). A student with role \<open>User\<close> is refused, and
  nothing is created, when the seat list has more than one entry or when the student
  already has a pending or approved reservation for the requested date and slot. A
  student with role \<open>Manager\<close> never receives either of the two refusals.
\<close>

theorem submit_user_restrictions:
  assumes "rq_post rq" "get_student (students d) (rq_sid rq) = Some stu"
  shows "(role stu = User \<and>
            ((\<exists>seats_str. rq_seats_list rq = Some seats_str
                  \<and> length (split_on (CHR '','') seats_str) > 1)
             \<or> (\<exists>slot_str slot date_str req_date.
                   rq_slot rq = Some slot_str \<and> py_int slot_str = Some slot
                   \<and> rq_date rq = Some date_str \<and> parse_date date_str = Some req_date
                   \<and> (\<exists>r \<in> set (reservations d). student r = stu_pk stu \<and> date r = req_date
                         \<and> time_slot r = slot \<and> (status r = Pending \<or> status r = Approved)))) \<longrightarrow>
            snd (submit cfg now bid mail_ok d rq) = d
            \<and> (\<exists>m. fst (fst (submit cfg now bid mail_ok d rq)) = InfoError m))
       \<and> (role stu = Manager \<longrightarrow>
            fst (fst (submit cfg now bid mail_ok d rq)) \<noteq> InfoError UserMultiSeat
            \<and> fst (fst (submit cfg now bid mail_ok d rq)) \<noteq> InfoError UserHasBooking)"
proof (intro conjI impI)
  assume h: "role stu = User \<and>
            ((\<exists>seats_str. rq_seats_list rq = Some seats_str
                  \<and> length (split_on (CHR '','') seats_str) > 1)
             \<or> (\<exists>slot_str slot date_str req_date.
                   rq_slot rq = Some slot_str \<and> py_int slot_str = Some slot
                   \<and> rq_date rq = Some date_str \<and> parse_date date_str = Some req_date
                   \<and> (\<exists>r \<in> set (reservations d). student r = stu_pk stu \<and> date r = req_date
                         \<and> time_slot r = slot \<and> (status r = Pending \<or> status r = Approved))))"
  have "\<exists>resp. submit_prechecks cfg now d rq = Inl resp"
    using assms h by (auto simp: submit_prechecks_def has_booking_def Let_def split: option.splits)
  then obtain resp where r: "submit_prechecks cfg now d rq = Inl resp" by blast
  show "snd (submit cfg now bid mail_ok d rq) = d"
    using prechecks_Inl_unchanged[OF assms(1) r] by simp
  show "\<exists>m. fst (fst (submit cfg now bid mail_ok d rq)) = InfoError m"
    using prechecks_Inl_unchanged[OF assms(1) r] prechecks_Inl_error[OF r] by simp
next
  assume m: "role stu = Manager"
  have pre: "\<And>resp. submit_prechecks cfg now d rq = Inl resp \<Longrightarrow>
               resp \<noteq> InfoError UserMultiSeat \<and> resp \<noteq> InfoError UserHasBooking"
    using assms m by (auto simp: submit_prechecks_def Let_def split: option.splits if_splits)
  show "fst (fst (submit cfg now bid mail_ok d rq)) \<noteq> InfoError UserMultiSeat"
    using assms(1) pre by (auto simp: submit_def split: sum.splits prod.splits)
  show "fst (fst (submit cfg now bid mail_ok d rq)) \<noteq> InfoError UserHasBooking"
    using assms(1) pre by (auto simp: submit_def split: sum.splits prod.splits)
qed

text \<open>
  Alice (a user) is refused two seats, and refused a second seat in a slot where she has
  a pending one; Bob (a manager) obtains two seats in the slot of his approved one.
\<close>

theorem submit_user_restrictions_witness:
  "submit cfg0 (combine 20000 7 0) 7 True db0 (rq_alice ''0-0,0-2'')
     = ((InfoError UserMultiSeat, []), db0)
   \<and> submit cfg0 (combine 20000 7 0) 7 True
        (db0\<lparr>reservations := [mk_res 1 50 1 0 1 Pending]\<rparr>) (rq_alice ''0-2'')
     = ((InfoError UserHasBooking, []), db0\<lparr>reservations := [mk_res 1 50 1 0 1 Pending]\<rparr>)
   \<and> fst (fst (submit cfg0 (combine 20000 7 0) 7 True db1 (rq_bob ''0-0,0-2''))) = InfoSuccess 2"
proof -
  let ?d = "db0\<lparr>reservations := [mk_res 1 50 1 0 1 Pending]\<rparr>"
  have ha: "rq_post (rq_alice s)" "get_student (students db0) (rq_sid (rq_alice s)) = Some alice"
    "get_student (students ?d) (rq_sid (rq_alice s)) = Some alice" for s
    by (simp_all add: ex_defs get_student_def)
  have hb: "rq_post (rq_bob s)" "get_student (students db1) (rq_sid (rq_bob s)) = Some bob" for s
    by (simp_all add: ex_defs get_student_def)
  have a: "snd (submit cfg0 (combine 20000 7 0) 7 True db0 (rq_alice ''0-0,0-2'')) = db0"
    using submit_user_restrictions[OF ha(1) ha(2), of "''0-0,0-2''" cfg0 "combine 20000 7 0" 7 True]
    by (simp add: ex_defs)
  have b: "snd (submit cfg0 (combine 20000 7 0) 7 True ?d (rq_alice ''0-2'')) = ?d"
    using submit_user_restrictions[OF ha(1) ha(3), of "''0-2''" cfg0 "combine 20000 7 0" 7 True]
    by (simp add: ex_defs time_defs new_reservation_def)
  have c: "fst (fst (submit cfg0 (combine 20000 7 0) 7 True db1 (rq_bob ''0-0,0-2'')))
             \<noteq> InfoError UserMultiSeat"
    using submit_user_restrictions[OF hb, of "''0-0,0-2''" cfg0 "combine 20000 7 0" 7 True]
    by (simp add: ex_defs)
  show ?thesis
    using a b c by (simp add: ex_defs time_defs submit_defs)
qed




section \<open>Properties of cleanup and cancel_booking\<close>

lemma map_rid_save [simp]: "rid obj' = rid obj \<Longrightarrow> map rid (save rows obj') = map rid rows"
  by (induction rows) (auto simp: save_def)

lemma map_rid_save_upd [simp]: "map rid (save rows (obj\<lparr>status := s\<rparr>)) = map rid rows"
  by (induction rows) (auto simp: save_def)

lemma rid_inj_rows: "distinct (map rid rows) \<Longrightarrow> x \<in> set rows \<Longrightarrow> y \<in> set rows \<Longrightarrow> rid x = rid y \<Longrightarrow> x = y"
  by (meson distinct_map inj_on_def)

lemma in_set_save: "x \<in> set rows \<Longrightarrow> rid x \<noteq> rid obj \<Longrightarrow> x \<in> set (save rows obj)"
  by (induction rows) (auto simp: save_def)

text \<open>A loop of saves over rows loaded beforehand rewrites exactly those rows.\<close>

lemma fold_save_map:
  assumes "\<And>r. rid (f r) = rid r"
  shows "distinct (map rid rows) \<Longrightarrow> distinct (map rid mem) \<Longrightarrow> set mem \<subseteq> set rows \<Longrightarrow>
         fold (\<lambda>m rows'. save rows' (f m)) mem rows = map (\<lambda>r. if r \<in> set mem then f r else r) rows"
proof (induction mem arbitrary: rows)
  case Nil
  then show ?case by simp
next
  case (Cons m rest)
  let ?rows1 = "save rows (f m)"
  have d1: "distinct (map rid ?rows1)" using Cons.prems(1) assms by simp
  have d2: "distinct (map rid rest)" using Cons.prems(2) by simp
  have m_in: "m \<in> set rows" using Cons.prems(3) by simp
  have "rid m \<notin> rid ` set rest" using Cons.prems(2) by simp
  then have notin: "\<And>x. x \<in> set rest \<Longrightarrow> rid x \<noteq> rid m" by (metis imageI)
  have sub: "set rest \<subseteq> set ?rows1"
  proof
    fix x assume x: "x \<in> set rest"
    then have "x \<in> set rows" "rid x \<noteq> rid m" using Cons.prems(3) notin by auto
    then show "x \<in> set ?rows1" by (simp add: in_set_save assms)
  qed
  have "fold (\<lambda>m rows'. save rows' (f m)) (m # rest) rows
          = map (\<lambda>r. if r \<in> set rest then f r else r) ?rows1"
    using Cons.IH[OF d1 d2 sub] by simp
  also have "\<dots> = map (\<lambda>r. if r \<in> set (m # rest) then f r else r) rows"
  proof -
    define g where "g = (\<lambda>r. if r \<in> set rest then f r else r)"
    define h where "h = (\<lambda>r. if rid r = rid m then f m else r)"
    define k where "k = (\<lambda>r. if r \<in> set (m # rest) then f r else r)"
    have pw: "g (h r) = k r" if r: "r \<in> set rows" for r
    proof (cases "rid r = rid m")
      case True
      then have "r = m" using rid_inj_rows[OF Cons.prems(1) r m_in] by simp
      moreover have "f m \<notin> set rest" using notin[of "f m"] assms by auto
      ultimately show ?thesis by (simp add: g_def h_def k_def)
    next
      case False
      then show ?thesis by (auto simp: g_def h_def k_def)
    qed
    have "?rows1 = map h rows" by (simp add: save_def assms h_def)
    then have "map g ?rows1 = map (\<lambda>r. g (h r)) rows" by simp
    also have "\<dots> = map k rows" by (rule map_cong[OF refl]) (rule pw)
    finally show ?thesis unfolding g_def k_def .
  qed
  finally show ?case .
qed

lemma fold_save_filter:
  assumes "\<And>r. rid (f r) = rid r" "distinct (map rid rows)"
  shows "fold (\<lambda>m rows'. save rows' (f m)) (filter P rows) rows
           = map (\<lambda>r. if P r then f r else r) rows"
proof -
  have "fold (\<lambda>m rows'. save rows' (f m)) (filter P rows) rows
          = map (\<lambda>r. if r \<in> set (filter P rows) then f r else r) rows"
    by (rule fold_save_map) (use assms in \<open>auto simp: distinct_map_filter\<close>)
  also have "\<dots> = map (\<lambda>r. if P r then f r else r) rows" by auto
  finally show ?thesis .
qed

lemma expire_loop_fold:
  "expire_loop cfg now mem (rows, n)
     = (fold (\<lambda>m rows'. save rows' (m\<lparr>status := Expired\<rparr>))
          (filter (\<lambda>m. deadline_passed cfg now (date m) (time_slot m)) mem) rows,
        n + length (filter (\<lambda>m. deadline_passed cfg now (date m) (time_slot m)) mem))"
  by (induction mem arbitrary: rows n) auto

text \<open>The rows after step 0 of the command.\<close>

lemma expire_loop_rows:
  assumes "distinct (map rid rows)"
  shows "fst (expire_loop cfg now (filter (\<lambda>r. status r = Pending \<and> date r \<ge> today) rows) (rows, 0))
           = map (\<lambda>r. if status r = Pending \<and> date r \<ge> today
                          \<and> deadline_passed cfg now (date r) (time_slot r)
                       then r\<lparr>status := Expired\<rparr> else r) rows"
proof -
  let ?dp = "\<lambda>m. deadline_passed cfg now (date m) (time_slot m)"
  let ?mem = "filter ?dp (filter (\<lambda>r. status r = Pending \<and> date r \<ge> today) rows)"
  have "fold (\<lambda>m rows'. save rows' (m\<lparr>status := Expired\<rparr>)) ?mem rows
          = map (\<lambda>r. if r \<in> set ?mem then r\<lparr>status := Expired\<rparr> else r) rows"
    by (rule fold_save_map) (use assms in \<open>auto simp: distinct_map_filter\<close>)
  also have "\<dots> = map (\<lambda>r. if status r = Pending \<and> date r \<ge> today \<and> ?dp r
                       then r\<lparr>status := Expired\<rparr> else r) rows"
    by auto
  finally show ?thesis unfolding expire_loop_fold by simp
qed

text \<open>The two thresholds that the command computes outside \<^verbatim>\<open>try\<close>.\<close>

lemma thresholds_alt:
  "datetime_sub now (hours h) =
     (if - 999999999 \<le> (h * 3600) div 86400 \<and> (h * 3600) div 86400 \<le> 999999999
         \<and> valid_datetime (now - h * 3600)
      then Some (now - h * 3600) else None)"
  "date_sub today (days n) =
     (if - 999999999 \<le> n \<and> n \<le> 999999999 \<and> valid_date (today - n)
      then Some (today - n) else None)"
  by (auto simp: datetime_sub_def date_sub_def hours_def days_def timedelta_def)

text \<open>
  Claim C6, as amended (cleanup expires exactly the stale pending reservations). Primary
  keys are unique, and the two thresholds that the command computes outside
  \<^verbatim>\<open>try\<close> are times that Python can hold: the current time minus
  \<open>RESERVATION_TIMEOUT_HOURS\<close> and today minus \<open>RESERVATION_EXPIRE_DAYS\<close>. Then
  one run of the command ends with its three counters and turns into \<open>Expired\<close>
  exactly the rows that are pending and stale in the sense of \<open>stale_by_spec\<close>
  (conditions (a) to (c) of the claim, (a) for the deadlines that can be computed);
  every other row, in particular every row that is not pending, is left as it was, and
  afterwards no pending row is stale.
\<close>

theorem cleanup_expires_stale:
  assumes "distinct (map rid (reservations d))"
    and "- 999999999 \<le> (getattr (RESERVATION_TIMEOUT_HOURS cfg) 24 * 3600) div 86400"
    and "(getattr (RESERVATION_TIMEOUT_HOURS cfg) 24 * 3600) div 86400 \<le> 999999999"
    and "valid_datetime (now - getattr (RESERVATION_TIMEOUT_HOURS cfg) 24 * 3600)"
    and "- 999999999 \<le> getattr (RESERVATION_EXPIRE_DAYS cfg) 1"
    and "getattr (RESERVATION_EXPIRE_DAYS cfg) 1 \<le> 999999999"
    and "valid_date (date_of now - getattr (RESERVATION_EXPIRE_DAYS cfg) 1)"
  shows "reservations (fst (cleanup cfg now d))
           = map (\<lambda>r. if status r = Pending \<and> stale_by_spec cfg now r
                      then r\<lparr>status := Expired\<rparr> else r) (reservations d)
       \<and> (\<forall>r \<in> set (reservations (fst (cleanup cfg now d))).
             \<not> (status r = Pending \<and> stale_by_spec cfg now r))
       \<and> (\<exists>counters. snd (cleanup cfg now d) = Inr counters)"
proof -
  let ?rows = "reservations d"
  let ?step0 = "expire_loop cfg now (filter (\<lambda>r. status r = Pending \<and> date r \<ge> date_of now) ?rows)
                  (?rows, 0)"
  obtain rows0 n0 where s0: "?step0 = (rows0, n0)" by (cases ?step0)
  have r0: "rows0 = map (\<lambda>r. if status r = Pending \<and> date r \<ge> date_of now
                          \<and> deadline_passed cfg now (date r) (time_slot r)
                       then r\<lparr>status := Expired\<rparr> else r) ?rows"
    using expire_loop_rows[OF assms(1), of cfg now "date_of now"] s0 by simp
  have t1: "datetime_sub now (hours (getattr (RESERVATION_TIMEOUT_HOURS cfg) 24))
              = Some (now - getattr (RESERVATION_TIMEOUT_HOURS cfg) 24 * 3600)"
    using assms(2,3,4) by (simp add: thresholds_alt)
  have t2: "date_sub (date_of now) (days (getattr (RESERVATION_EXPIRE_DAYS cfg) 1))
              = Some (date_of now - getattr (RESERVATION_EXPIRE_DAYS cfg) 1)"
    using assms(5,6,7) by (simp add: thresholds_alt)
  have eq: "reservations (fst (cleanup cfg now d))
           = map (\<lambda>r. if status r = Pending \<and> stale_by_spec cfg now r
                      then r\<lparr>status := Expired\<rparr> else r) ?rows"
    unfolding cleanup_def Let_def s0 t1 t2 r0
    by (auto simp: update_status_def stale_by_spec_def deadline_passed_alt split: option.splits)
  have fin: "\<exists>counters. snd (cleanup cfg now d) = Inr counters"
    unfolding cleanup_def Let_def s0 t1 t2 by simp
  have st: "\<And>r s. stale_by_spec cfg now (r\<lparr>status := s\<rparr>) = stale_by_spec cfg now r"
    by (simp add: stale_by_spec_def)
  show ?thesis
    unfolding eq using st fin by auto
qed

text \<open>
  The claim as first stated has every pending reservation of (a), (b) or (c) expired by
  one run. With the window of 2000000000000 minutes the deadline of step 0 cannot be
  computed and the pending request for today's 08:00 slot, seen at 07:45, stays pending
  although the slot start minus the window has passed. With the timeout of
  1000000000000 hours the command ends with an exception before its last step, and the
  pending request dated yesterday stays pending.
\<close>

theorem cleanup_expires_stale_counterexample:
  "combine 20000 7 45
     \<ge> combine 20000 8 0 - getattr (RESERVATION_BOOKING_WINDOW_MINUTES cfg_far) 30 * 60
   \<and> cleanup cfg_far (combine 20000 7 45)
       (db0\<lparr>reservations :=
              [new_reservation 1 50 1 (1, 0, 0, 20000, 1) Pending (combine 19999 12 0) False]\<rparr>)
     = (db0\<lparr>reservations :=
              [new_reservation 1 50 1 (1, 0, 0, 20000, 1) Pending (combine 19999 12 0) False]\<rparr>,
        Inr (0, 0, 0))
   \<and> cleanup cfg_slow (combine 20000 7 45)
       (db0\<lparr>reservations :=
              [new_reservation 4 53 2 (1, 0, 2, 19999, 2) Pending (combine 19999 12 0) False]\<rparr>)
     = (db0\<lparr>reservations :=
              [new_reservation 4 53 2 (1, 0, 2, 19999, 2) Pending (combine 19999 12 0) False]\<rparr>,
        Inl OverflowError)"
  by (simp add: cfg_far_def cfg_slow_def cfg0_def db0_def cleanup_def Let_def new_reservation_def
        update_status_def save_def time_defs)

text \<open>The cleanup of the five example rows at 07:45 of day 20000.\<close>

theorem cleanup_expires_stale_witness:
  "distinct (map rid cleanup_rows)
   \<and> valid_datetime (combine 20000 7 45 - getattr (RESERVATION_TIMEOUT_HOURS cfg0) 24 * 3600)
   \<and> valid_date (date_of (combine 20000 7 45) - getattr (RESERVATION_EXPIRE_DAYS cfg0) 1)
   \<and> map status (reservations (fst (cleanup cfg0 (combine 20000 7 45)
                                      (db0\<lparr>reservations := cleanup_rows\<rparr>))))
     = [Expired, Pending, Approved, Expired, Expired]"
proof -
  have h: "distinct (map rid (reservations (db0\<lparr>reservations := cleanup_rows\<rparr>)))"
    by (simp add: cleanup_rows_def)
  have t: "- 999999999 \<le> (getattr (RESERVATION_TIMEOUT_HOURS cfg0) 24 * 3600) div 86400"
    "(getattr (RESERVATION_TIMEOUT_HOURS cfg0) 24 * 3600) div 86400 \<le> 999999999"
    "valid_datetime (combine 20000 7 45 - getattr (RESERVATION_TIMEOUT_HOURS cfg0) 24 * 3600)"
    "- 999999999 \<le> getattr (RESERVATION_EXPIRE_DAYS cfg0) 1"
    "getattr (RESERVATION_EXPIRE_DAYS cfg0) 1 \<le> 999999999"
    "valid_date (date_of (combine 20000 7 45) - getattr (RESERVATION_EXPIRE_DAYS cfg0) 1)"
    by (simp_all add: cfg0_def getattr_def combine_def date_of_def valid_datetime_def
          valid_date_def MAXORDINAL_def)
  have "reservations (fst (cleanup cfg0 (combine 20000 7 45) (db0\<lparr>reservations := cleanup_rows\<rparr>)))
          = map (\<lambda>r. if status r = Pending \<and> stale_by_spec cfg0 (combine 20000 7 45) r
                     then r\<lparr>status := Expired\<rparr> else r)
              (reservations (db0\<lparr>reservations := cleanup_rows\<rparr>))"
    using cleanup_expires_stale[OF h t] by blast
  then show ?thesis
    using t(3,6)
    by (simp add: cleanup_rows_def stale_by_spec_def representable_deadline_def
          new_reservation_def cfg0_def time_defs)
qed

lemma first_by_Some_iff: "first_by pk xs = None \<longleftrightarrow> xs = []"
  by (simp add: first_by_def split: list.splits)

text \<open>
  Claim C5, as amended (cancellation window). The session's student exists and the
  batch has at least one pending or approved reservation of that student; \<open>first_res\<close>
  is the one with the least key and its slot start parses. The deadline is that slot
  start minus the window. When the deadline is a time that a \<^verbatim>\<open>datetime\<close> can
  hold: strictly before it, every pending or approved reservation of the batch and
  student becomes \<open>Cancelled\<close> with \<open>is_admin_action\<close> cleared and nothing else
  changes; at or after it the answer is the error message and the database is
  unchanged. When it is not, the subtraction raises inside \<^verbatim>\<open>try\<close> and the
  reservations are cancelled whatever the time.
\<close>

theorem cancel_booking_window:
  assumes "distinct (map rid (reservations d))"
    and "sid = Some i" "i \<noteq> 0" "get_student (students d) sid = Some stu"
    and "first_by rid (filter (\<lambda>r. batch_id r = bid \<and> student r = stu_pk stu
                                   \<and> status r \<in> {Pending, Approved}) (reservations d)) = Some first_res"
    and "get_slot_start_time cfg (date first_res) (time_slot first_res) = Some slot_start"
  shows "(representable_deadline slot_start (getattr (RESERVATION_BOOKING_WINDOW_MINUTES cfg) 30)
            \<and> now \<ge> slot_start - getattr (RESERVATION_BOOKING_WINDOW_MINUTES cfg) 30 * 60 \<longrightarrow>
            cancel_booking cfg now d sid True bid = (ToMyBookings (Some CancelClosed), d))
       \<and> (\<not> representable_deadline slot_start (getattr (RESERVATION_BOOKING_WINDOW_MINUTES cfg) 30)
            \<or> now < slot_start - getattr (RESERVATION_BOOKING_WINDOW_MINUTES cfg) 30 * 60 \<longrightarrow>
            snd (cancel_booking cfg now d sid True bid)
              = d\<lparr>reservations :=
                   map (\<lambda>r. if batch_id r = bid \<and> student r = stu_pk stu
                                \<and> status r \<in> {Pending, Approved}
                             then r\<lparr>status := Cancelled, is_admin_action := False\<rparr> else r)
                     (reservations d)\<rparr>)"
proof -
  have fold0: "\<And>P. fold (\<lambda>res rows. save rows (res\<lparr>status := Cancelled, is_admin_action := False\<rparr>))
                 (filter P (reservations d)) (reservations d)
          = map (\<lambda>r. if P r then r\<lparr>status := Cancelled, is_admin_action := False\<rparr> else r)
              (reservations d)"
    by (rule fold_save_filter) (use assms(1) in auto)
  show ?thesis
    using assms(2-6)
    by (auto simp: cancel_booking_def Let_def deadline_passed_alt fold0)
qed

text \<open>
  The claim as first stated refuses the cancellation whenever the current time is at or
  after the slot start minus the window. With the window of 2000000000000 minutes the
  subtraction overflows, and at 07:45 Bob's batch for the 08:00 slot is cancelled.
\<close>

theorem cancel_booking_window_counterexample:
  "get_slot_start_time cfg_far 20000 1 = Some (combine 20000 8 0)
   \<and> combine 20000 7 45
       \<ge> combine 20000 8 0 - getattr (RESERVATION_BOOKING_WINDOW_MINUTES cfg_far) 30 * 60
   \<and> map status (reservations (snd (cancel_booking cfg_far (combine 20000 7 45)
                                   (db0\<lparr>reservations := batch_rows\<rparr>) (Some 2) True 60)))
       = [Cancelled, Cancelled, Pending]"
  by (simp add: cfg_far_def cfg0_def db0_def alice_def bob_def batch_rows_def cancel_booking_def
        get_student_def first_by_def Let_def new_reservation_def save_def time_defs)

text \<open>Bob cancels batch 60 at 07:29; at 07:30 the same request is refused.\<close>

theorem cancel_booking_window_witness:
  "representable_deadline (combine 20000 8 0) 30
   \<and> map status (reservations (snd (cancel_booking cfg0 (combine 20000 7 29)
                                   (db0\<lparr>reservations := batch_rows\<rparr>) (Some 2) True 60)))
     = [Cancelled, Cancelled, Pending]
   \<and> map is_admin_action (reservations (snd (cancel_booking cfg0 (combine 20000 7 29)
                                   (db0\<lparr>reservations := batch_rows\<rparr>) (Some 2) True 60)))
     = [False, False, False]
   \<and> cancel_booking cfg0 (combine 20000 7 30) (db0\<lparr>reservations := batch_rows\<rparr>) (Some 2) True 60
     = (ToMyBookings (Some CancelClosed), db0\<lparr>reservations := batch_rows\<rparr>)"
proof -
  let ?d = "db0\<lparr>reservations := batch_rows\<rparr>"
  let ?first = "new_reservation 1 60 2 (1, 0, 0, 20000, 1) Pending (combine 19999 12 0) False"
  have h1: "distinct (map rid (reservations ?d))" by (simp add: batch_rows_def)
  have h2: "(2::int) \<noteq> 0" by simp
  have h3: "get_student (students ?d) (Some 2) = Some bob"
    by (simp add: ex_defs get_student_def)
  have h4: "first_by rid (filter (\<lambda>r. batch_id r = 60 \<and> student r = stu_pk bob
                                   \<and> status r \<in> {Pending, Approved}) (reservations ?d))
              = Some ?first"
    by (simp add: batch_rows_def first_by_def bob_def)
  have h5: "get_slot_start_time cfg0 (date ?first) (time_slot ?first) = Some (combine 20000 8 0)"
    by (simp add: new_reservation_def cfg0_def time_defs)
  have rep: "representable_deadline (combine 20000 8 0) 30"
    by (simp add: representable_deadline_def combine_def)
  note w = cancel_booking_window[OF h1 refl h2 h3 h4 h5]
  have a: "snd (cancel_booking cfg0 (combine 20000 7 29) ?d (Some 2) True 60)
            = ?d\<lparr>reservations :=
                   map (\<lambda>r. if batch_id r = 60 \<and> student r = stu_pk bob
                                \<and> status r \<in> {Pending, Approved}
                             then r\<lparr>status := Cancelled, is_admin_action := False\<rparr> else r)
                     (reservations ?d)\<rparr>"
    using w[of "combine 20000 7 29"] by (simp add: cfg0_def getattr_def combine_def)
  have b: "cancel_booking cfg0 (combine 20000 7 30) ?d (Some 2) True 60
             = (ToMyBookings (Some CancelClosed), ?d)"
    using w[of "combine 20000 7 30"] rep by (simp add: cfg0_def getattr_def combine_def)
  show ?thesis
    unfolding a b using rep by (simp add: batch_rows_def new_reservation_def bob_def)
qed

section \<open>Properties of admin_action\<close>

lemma decide_loop_fold:
  "fst (decide_loop action mem (rows, a, b)) = fold (decide_rows action) mem rows"
  by (induction mem arbitrary: rows a b) (auto simp: decide_rows_def Let_def)

lemma set_save: "set (save rows obj) = (\<lambda>r. if rid r = rid obj then obj else r) ` set rows"
  by (simp add: save_def)

lemma set_update_status:
  "set (update_status P s rows) = (\<lambda>r. if P r then r\<lparr>status := s\<rparr> else r) ` set rows"
  by (simp add: update_status_def)

lemma key_of_status [simp]: "key_of (r\<lparr>status := s\<rparr>) = key_of r"
  by (simp add: key_of_def)

lemma map_rid_update_status [simp]: "map rid (update_status P s rows) = map rid rows"
  by (induction rows) (auto simp: update_status_def)

lemma map_rid_decide_rows [simp]: "map rid (decide_rows action m rows) = map rid rows"
  by (simp add: decide_rows_def)

lemma map_rid_fold_decide [simp]: "map rid (fold (decide_rows action) mem rows) = map rid rows"
  by (induction mem arbitrary: rows) auto

lemma row_unique:
  "distinct (map rid rows) \<Longrightarrow> m\<lparr>status := s\<rparr> \<in> set rows \<Longrightarrow> r \<in> set rows \<Longrightarrow> rid r = rid m
   \<Longrightarrow> r = m\<lparr>status := s\<rparr>"
  using rid_inj_rows[of rows r "m\<lparr>status := s\<rparr>"] by simp

text \<open>One iteration: what happens to an arbitrary row.\<close>

lemma step_trans:
  assumes "loaded rows (m # rest)" "y \<in> set rows"
  shows "\<exists>s'. y\<lparr>status := s'\<rparr> \<in> set (decide_rows action m rows)
            \<and> (s' = status y \<or> (s' = Rejected \<and> status y = Pending)
                \<or> ((s' = Approved \<or> s' = Rejected) \<and> rid y = rid m))"
proof -
  from assms(1) obtain s0 where s0: "s0 \<noteq> Approved" "m\<lparr>status := s0\<rparr> \<in> set rows"
    and d: "distinct (map rid rows)" by (auto simp: loaded_def)
  show ?thesis
  proof (cases "rid y = rid m")
    case True
    then have y: "y = m\<lparr>status := s0\<rparr>" using row_unique[OF d s0(2) assms(2)] by simp
    have a: "\<And>s. y\<lparr>status := s\<rparr> = m\<lparr>status := s\<rparr>" using y by simp
    have in_save: "\<And>s. m\<lparr>status := s\<rparr> \<in> set (save rows (m\<lparr>status := s\<rparr>))"
      using assms(2) True by (force simp: set_save)
    show ?thesis
    proof (cases "action = ''approve''")
      case ap: True
      show ?thesis
      proof (cases "is_hard_locked rows (key_of m)")
        case True
        then have "y\<lparr>status := Rejected\<rparr> \<in> set (decide_rows action m rows)"
          using ap in_save[of Rejected] a by (simp add: decide_rows_def)
        then show ?thesis using \<open>rid y = rid m\<close> by blast
      next
        case False
        have "m\<lparr>status := Approved\<rparr> \<in> set (update_status
                 (\<lambda>r. key_of r = key_of m \<and> status r = Pending \<and> rid r \<noteq> rid m) Rejected
                 (save rows (m\<lparr>status := Approved\<rparr>)))"
          using in_save[of Approved] by (force simp: set_update_status)
        then have "y\<lparr>status := Approved\<rparr> \<in> set (decide_rows action m rows)"
          using ap False a by (simp add: decide_rows_def)
        then show ?thesis using \<open>rid y = rid m\<close> by blast
      qed
    next
      case nap: False
      show ?thesis
      proof (cases "action = ''reject''")
        case True
        then have "y\<lparr>status := Rejected\<rparr> \<in> set (decide_rows action m rows)"
          using nap in_save[of Rejected] a by (simp add: decide_rows_def)
        then show ?thesis using \<open>rid y = rid m\<close> by blast
      next
        case False
        then have "y\<lparr>status := status y\<rparr> \<in> set (decide_rows action m rows)"
          using nap assms(2) by (simp add: decide_rows_def)
        then show ?thesis by blast
      qed
    qed
  next
    case False
    have keep: "\<And>obj. rid obj = rid m \<Longrightarrow> y \<in> set (save rows obj)"
      using assms(2) False by (simp add: in_set_save)
    have upd: "\<And>P rows'. y \<in> set rows' \<Longrightarrow>
                 y \<in> set (update_status P Rejected rows')
                 \<or> (y\<lparr>status := Rejected\<rparr> \<in> set (update_status P Rejected rows') \<and> P y)"
      by (force simp: set_update_status)
    show ?thesis
    proof (cases "action = ''approve'' \<and> \<not> is_hard_locked rows (key_of m)")
      case True
      let ?P = "\<lambda>r. key_of r = key_of m \<and> status r = Pending \<and> rid r \<noteq> rid m"
      have dr: "decide_rows action m rows
                  = update_status ?P Rejected (save rows (m\<lparr>status := Approved\<rparr>))"
        using True by (simp add: decide_rows_def)
      have "y \<in> set (save rows (m\<lparr>status := Approved\<rparr>))" by (rule keep) simp
      from upd[OF this, of ?P]
      show ?thesis
      proof
        assume "y \<in> set (update_status ?P Rejected (save rows (m\<lparr>status := Approved\<rparr>)))"
        then have "y\<lparr>status := status y\<rparr> \<in> set (decide_rows action m rows)" using dr by simp
        then show ?thesis by blast
      next
        assume "y\<lparr>status := Rejected\<rparr> \<in> set (update_status ?P Rejected (save rows (m\<lparr>status := Approved\<rparr>)))
                \<and> ?P y"
        then have "y\<lparr>status := Rejected\<rparr> \<in> set (decide_rows action m rows)" "status y = Pending"
          using dr by simp_all
        then show ?thesis by blast
      qed
    next
      case False
      then have "y \<in> set (decide_rows action m rows)"
        using keep[of "m\<lparr>status := Rejected\<rparr>"] assms(2) by (auto simp: decide_rows_def)
      then have "y\<lparr>status := status y\<rparr> \<in> set (decide_rows action m rows)" by simp
      then show ?thesis by blast
    qed
  qed
qed

lemma step_loaded:
  assumes "loaded rows (m # rest)"
  shows "loaded (decide_rows action m rows) rest"
proof -
  have d: "distinct (map rid rows)" "distinct (map rid rest)" "rid m \<notin> rid ` set rest"
    using assms by (auto simp: loaded_def)
  { fix x assume x: "x \<in> set rest"
    then obtain s where s: "s \<noteq> Approved" "x\<lparr>status := s\<rparr> \<in> set rows"
      using assms by (auto simp: loaded_def)
    from step_trans[OF assms s(2), of action] obtain s' where
      s': "x\<lparr>status := s, status := s'\<rparr> \<in> set (decide_rows action m rows)"
          "s' = s \<or> (s' = Rejected \<and> s = Pending) \<or> ((s' = Approved \<or> s' = Rejected) \<and> rid x = rid m)"
      by auto
    have "rid x \<noteq> rid m" using x d(3) by (metis imageI)
    with s' s(1) have "s' \<noteq> Approved" "x\<lparr>status := s'\<rparr> \<in> set (decide_rows action m rows)"
      by auto
    then have "\<exists>s. s \<noteq> Approved \<and> x\<lparr>status := s\<rparr> \<in> set (decide_rows action m rows)" by blast }
  then show ?thesis using d by (simp add: loaded_def)
qed

lemma fold_trans:
  "loaded rows mem \<Longrightarrow> y \<in> set rows \<Longrightarrow>
   \<exists>s'. y\<lparr>status := s'\<rparr> \<in> set (fold (decide_rows action) mem rows)
        \<and> (s' = status y \<or> (s' = Rejected \<and> status y = Pending)
            \<or> ((s' = Approved \<or> s' = Rejected) \<and> rid y \<in> rid ` set mem))"
proof (induction mem arbitrary: rows y)
  case Nil
  then have "y\<lparr>status := status y\<rparr> \<in> set (fold (decide_rows action) [] rows)" by simp
  then show ?case by blast
next
  case (Cons m rest)
  from step_trans[OF Cons.prems, of action] obtain s1 where
    s1: "y\<lparr>status := s1\<rparr> \<in> set (decide_rows action m rows)"
        "s1 = status y \<or> (s1 = Rejected \<and> status y = Pending)
           \<or> ((s1 = Approved \<or> s1 = Rejected) \<and> rid y = rid m)" by blast
  from Cons.IH[OF step_loaded[OF Cons.prems(1)] s1(1)] obtain s' where
    s': "y\<lparr>status := s1, status := s'\<rparr> \<in> set (fold (decide_rows action) rest (decide_rows action m rows))"
        "s' = s1 \<or> (s' = Rejected \<and> s1 = Pending)
           \<or> ((s' = Approved \<or> s' = Rejected) \<and> rid y \<in> rid ` set rest)" by auto
  have "y\<lparr>status := s'\<rparr> \<in> set (fold (decide_rows action) (m # rest) rows)" using s'(1) by simp
  moreover have "s' = status y \<or> (s' = Rejected \<and> status y = Pending)
            \<or> ((s' = Approved \<or> s' = Rejected) \<and> rid y \<in> rid ` set (m # rest))"
    using s1(2) s'(2) by auto
  ultimately show ?case by blast
qed

lemma loaded_row:
  assumes "loaded rows (m # rest)"
  shows "\<exists>s0. s0 \<noteq> Approved \<and> m\<lparr>status := s0\<rparr> \<in> set rows
              \<and> (\<forall>r \<in> set rows. rid r = rid m \<longrightarrow> r = m\<lparr>status := s0\<rparr>)"
proof -
  from assms obtain s0 where s0: "s0 \<noteq> Approved" "m\<lparr>status := s0\<rparr> \<in> set rows"
    and d: "distinct (map rid rows)" by (auto simp: loaded_def)
  show ?thesis using s0 row_unique[OF d s0(2)] by blast
qed

lemma step_settled:
  assumes "loaded rows (m # rest)" "settled k a rows"
  shows "settled k a (decide_rows ''approve'' m rows)"
proof -
  from loaded_row[OF assms(1)] obtain s0 where s0: "s0 \<noteq> Approved" "m\<lparr>status := s0\<rparr> \<in> set rows"
    and uniq: "\<And>r. r \<in> set rows \<Longrightarrow> rid r = rid m \<Longrightarrow> r = m\<lparr>status := s0\<rparr>"
    by blast
  have a: "a \<in> set rows" "status a = Approved" "key_of a = k"
    and rest: "\<And>r. r \<in> set rows \<Longrightarrow> key_of r = k \<Longrightarrow> status r \<noteq> Pending \<and> (status r = Approved \<longrightarrow> r = a)"
    using assms(2) by (auto simp: settled_def)
  have ra: "rid a \<noteq> rid m" using uniq[OF a(1)] a(2) s0(1) by auto
  show ?thesis
  proof (cases "is_hard_locked rows (key_of m)")
    case True
    then have dr: "decide_rows ''approve'' m rows = save rows (m\<lparr>status := Rejected\<rparr>)"
      by (simp add: decide_rows_def)
    have "a \<in> set (save rows (m\<lparr>status := Rejected\<rparr>))" using a(1) ra by (simp add: in_set_save)
    moreover have "\<And>r. r \<in> set (save rows (m\<lparr>status := Rejected\<rparr>)) \<Longrightarrow> key_of r = k \<Longrightarrow>
                     status r \<noteq> Pending \<and> (status r = Approved \<longrightarrow> r = a)"
      using rest by (auto simp: set_save split: if_splits)
    ultimately show ?thesis using a(2,3) unfolding dr settled_def by blast
  next
    case False
    then have km: "key_of m \<noteq> k" using a by (auto simp: is_hard_locked_def)
    let ?P = "\<lambda>r. key_of r = key_of m \<and> status r = Pending \<and> rid r \<noteq> rid m"
    have dr: "decide_rows ''approve'' m rows
                = update_status ?P Rejected (save rows (m\<lparr>status := Approved\<rparr>))"
      using False by (simp add: decide_rows_def)
    have "a \<in> set (save rows (m\<lparr>status := Approved\<rparr>))" using a(1) ra by (simp add: in_set_save)
    then have "a \<in> set (update_status ?P Rejected (save rows (m\<lparr>status := Approved\<rparr>)))"
      using a(2) by (force simp: set_update_status)
    moreover have "\<And>r. r \<in> set (update_status ?P Rejected (save rows (m\<lparr>status := Approved\<rparr>))) \<Longrightarrow>
                     key_of r = k \<Longrightarrow> status r \<noteq> Pending \<and> (status r = Approved \<longrightarrow> r = a)"
      using rest km by (auto simp: set_update_status set_save split: if_splits)
    ultimately show ?thesis using a(2,3) unfolding dr settled_def by blast
  qed
qed

lemma fold_settled:
  "loaded rows mem \<Longrightarrow> settled k a rows \<Longrightarrow> settled k a (fold (decide_rows ''approve'') mem rows)"
proof (induction mem arbitrary: rows)
  case Nil
  then show ?case by simp
next
  case (Cons m rest)
  from Cons.IH[OF step_loaded[OF Cons.prems(1)] step_settled[OF Cons.prems]]
  show ?case by simp
qed

lemma step_approves:
  assumes "loaded rows (m # rest)" "\<not> is_hard_locked rows (key_of m)"
  shows "settled (key_of m) (m\<lparr>status := Approved\<rparr>) (decide_rows ''approve'' m rows)"
proof -
  from loaded_row[OF assms(1)] obtain s0 where s0: "s0 \<noteq> Approved" "m\<lparr>status := s0\<rparr> \<in> set rows"
    and uniq: "\<And>r. r \<in> set rows \<Longrightarrow> rid r = rid m \<Longrightarrow> r = m\<lparr>status := s0\<rparr>"
    by blast
  let ?P = "\<lambda>r. key_of r = key_of m \<and> status r = Pending \<and> rid r \<noteq> rid m"
  have dr: "decide_rows ''approve'' m rows
              = update_status ?P Rejected (save rows (m\<lparr>status := Approved\<rparr>))"
    using assms(2) by (simp add: decide_rows_def)
  have na: "\<And>r. r \<in> set rows \<Longrightarrow> key_of r = key_of m \<Longrightarrow> status r \<noteq> Approved"
    using assms(2) by (auto simp: is_hard_locked_def)
  have "m\<lparr>status := Approved\<rparr> \<in> set (save rows (m\<lparr>status := Approved\<rparr>))"
    using s0(2) by (force simp: set_save)
  then have "m\<lparr>status := Approved\<rparr> \<in> set (update_status ?P Rejected (save rows (m\<lparr>status := Approved\<rparr>)))"
    by (force simp: set_update_status)
  moreover have "\<And>r. r \<in> set (update_status ?P Rejected (save rows (m\<lparr>status := Approved\<rparr>))) \<Longrightarrow>
                   key_of r = key_of m \<Longrightarrow>
                   status r \<noteq> Pending \<and> (status r = Approved \<longrightarrow> r = m\<lparr>status := Approved\<rparr>)"
    using na by (auto simp: set_update_status set_save split: if_splits)
  ultimately show ?thesis unfolding dr settled_def by simp
qed

lemma fold_keeps:
  assumes "loaded rows mem" "y \<in> set rows" "status y \<noteq> Pending" "rid y \<notin> rid ` set mem"
  shows "y \<in> set (fold (decide_rows action) mem rows)"
proof -
  from fold_trans[OF assms(1,2), of action] obtain s' where
    "y\<lparr>status := s'\<rparr> \<in> set (fold (decide_rows action) mem rows)" "s' = status y"
    using assms(3,4) by auto
  then show ?thesis by simp
qed

lemma distinct_rid_fold:
  "loaded rows mem \<Longrightarrow> distinct (map rid (fold (decide_rows action) mem rows))"
  by (simp add: loaded_def)

text \<open>A request that ends approved leaves its seat with that one approval and nothing pending.\<close>

lemma fold_approved_settled:
  "loaded rows mem \<Longrightarrow> m \<in> set mem \<Longrightarrow>
   m\<lparr>status := Approved\<rparr> \<in> set (fold (decide_rows ''approve'') mem rows) \<Longrightarrow>
   settled (key_of m) (m\<lparr>status := Approved\<rparr>) (fold (decide_rows ''approve'') mem rows)"
proof (induction mem arbitrary: rows)
  case Nil
  then show ?case by simp
next
  case (Cons m0 rest)
  let ?rows1 = "decide_rows ''approve'' m0 rows"
  have l1: "loaded ?rows1 rest" by (rule step_loaded[OF Cons.prems(1)])
  have fin: "fold (decide_rows ''approve'') (m0 # rest) rows = fold (decide_rows ''approve'') rest ?rows1"
    by simp
  show ?case
  proof (cases "m = m0")
    case True
    have nr: "rid m0 \<notin> rid ` set rest" using Cons.prems(1) by (auto simp: loaded_def)
    show ?thesis
    proof (cases "is_hard_locked rows (key_of m0)")
      case locked: True
      from Cons.prems(1) obtain s0 where s0: "m0\<lparr>status := s0\<rparr> \<in> set rows"
        by (auto simp: loaded_def)
      have "?rows1 = save rows (m0\<lparr>status := Rejected\<rparr>)" using locked by (simp add: decide_rows_def)
      moreover have "m0\<lparr>status := Rejected\<rparr> \<in> set (save rows (m0\<lparr>status := Rejected\<rparr>))"
        using s0 by (force simp: set_save)
      ultimately have "m0\<lparr>status := Rejected\<rparr> \<in> set ?rows1" by simp
      from fold_keeps[OF l1 this, of "''approve''"] nr
      have r: "m0\<lparr>status := Rejected\<rparr> \<in> set (fold (decide_rows ''approve'') rest ?rows1)" by simp
      have d: "distinct (map rid (fold (decide_rows ''approve'') rest ?rows1))"
        by (rule distinct_rid_fold[OF l1])
      from rid_inj_rows[OF d r] Cons.prems(3) True
      have "m0\<lparr>status := Rejected\<rparr> = m0\<lparr>status := Approved\<rparr>" by simp
      then have "status (m0\<lparr>status := Rejected\<rparr>) = status (m0\<lparr>status := Approved\<rparr>)" by simp
      then show ?thesis by simp
    next
      case False
      from fold_settled[OF l1 step_approves[OF Cons.prems(1) False]] True
      show ?thesis by simp
    qed
  next
    case False
    then have "m \<in> set rest" using Cons.prems(2) by simp
    from Cons.IH[OF l1 this] Cons.prems(3) show ?thesis by simp
  qed
qed

text \<open>A request for a seat that is already approved for someone is rejected.\<close>

lemma fold_locked_rejected:
  "loaded rows mem \<Longrightarrow> a \<in> set rows \<Longrightarrow> status a = Approved \<Longrightarrow> m \<in> set mem \<Longrightarrow>
   key_of m = key_of a \<Longrightarrow>
   m\<lparr>status := Rejected\<rparr> \<in> set (fold (decide_rows ''approve'') mem rows)"
proof (induction mem arbitrary: rows)
  case Nil
  then show ?case by simp
next
  case (Cons m0 rest)
  let ?rows1 = "decide_rows ''approve'' m0 rows"
  have l1: "loaded ?rows1 rest" by (rule step_loaded[OF Cons.prems(1)])
  from loaded_row[OF Cons.prems(1)] obtain s0 where s0: "s0 \<noteq> Approved" "m0\<lparr>status := s0\<rparr> \<in> set rows"
    and uniq: "\<And>r. r \<in> set rows \<Longrightarrow> rid r = rid m0 \<Longrightarrow> r = m0\<lparr>status := s0\<rparr>"
    by blast
  have ra: "rid a \<noteq> rid m0" using uniq[OF Cons.prems(2)] Cons.prems(3) s0(1) by auto
  from step_trans[OF Cons.prems(1,2), of "''approve''"] ra Cons.prems(3)
  obtain s' where "a\<lparr>status := s'\<rparr> \<in> set ?rows1" "s' = status a" by auto
  then have a1: "a \<in> set ?rows1" by simp
  show ?case
  proof (cases "m = m0")
    case True
    have nr: "rid m0 \<notin> rid ` set rest" using Cons.prems(1) by (auto simp: loaded_def)
    have "is_hard_locked rows (key_of m0)"
      using Cons.prems(2,3,5) True by (auto simp: is_hard_locked_def)
    then have "?rows1 = save rows (m0\<lparr>status := Rejected\<rparr>)" by (simp add: decide_rows_def)
    moreover have "m0\<lparr>status := Rejected\<rparr> \<in> set (save rows (m0\<lparr>status := Rejected\<rparr>))"
      using s0(2) by (force simp: set_save)
    ultimately have "m0\<lparr>status := Rejected\<rparr> \<in> set ?rows1" by simp
    from fold_keeps[OF l1 this, of "''approve''"] nr True show ?thesis by simp
  next
    case False
    then have "m \<in> set rest" using Cons.prems(4) by simp
    from Cons.IH[OF l1 a1 Cons.prems(3) this Cons.prems(5)] show ?thesis by simp
  qed
qed

lemma deadline_loop_fold:
  "deadline_loop cfg now mem (rows, n, v)
     = (fold (\<lambda>m rows'. save rows' (m\<lparr>status := Expired\<rparr>))
          (filter (\<lambda>m. deadline_passed cfg now (date m) (time_slot m)) mem) rows,
        n + length (filter (\<lambda>m. deadline_passed cfg now (date m) (time_slot m)) mem),
        v @ filter (\<lambda>m. \<not> deadline_passed cfg now (date m) (time_slot m)) mem)"
  by (induction mem arbitrary: rows n v) auto

lemma admin_action_rows:
  assumes "distinct (map rid (reservations d))"
  shows "reservations (snd (admin_action cfg now d ids action))
           = fold (decide_rows action) (valid_requests cfg now ids (reservations d))
               (after_deadline cfg now ids (reservations d))"
proof -
  let ?rows = "reservations d"
  let ?dp = "\<lambda>m. deadline_passed cfg now (date m) (time_slot m)"
  let ?target = "filter (\<lambda>r. status r = Pending) (filter (\<lambda>r. rid r \<in> set ids) ?rows)"
  have t: "filter ?dp ?target = filter (\<lambda>r. rid r \<in> set ids \<and> status r = Pending \<and> ?dp r) ?rows"
    by (auto simp: filter_filter intro: filter_cong)
  have v: "filter (\<lambda>m. \<not> ?dp m) ?target = valid_requests cfg now ids ?rows"
    by (auto simp: filter_filter valid_requests_def intro: filter_cong)
  have r0: "fold (\<lambda>m rows'. save rows' (m\<lparr>status := Expired\<rparr>)) (filter ?dp ?target) ?rows
              = after_deadline cfg now ids ?rows"
    unfolding t after_deadline_def
    by (rule fold_save_filter) (use assms in auto)
  have dl: "deadline_loop cfg now ?target (?rows, 0, [])
              = (after_deadline cfg now ids ?rows, length (filter ?dp ?target),
                 valid_requests cfg now ids ?rows)"
    unfolding deadline_loop_fold r0 v by simp
  have e: "?target = [] \<Longrightarrow> after_deadline cfg now ids ?rows = ?rows \<and> valid_requests cfg now ids ?rows = []"
    using r0 v by simp
  have fd: "\<And>rows. fst (decide_loop action (valid_requests cfg now ids ?rows) (rows, 0, 0))
              = fold (decide_rows action) (valid_requests cfg now ids ?rows) rows"
    by (rule decide_loop_fold)
  show ?thesis
  proof (cases "?target = []")
    case True
    then show ?thesis unfolding admin_action_def Let_def using e by simp
  next
    case False
    show ?thesis
    proof (cases "valid_requests cfg now ids ?rows = []")
      case True
      then show ?thesis unfolding admin_action_def Let_def dl using False by simp
    next
      case nv: False
      then show ?thesis unfolding admin_action_def Let_def dl using False fd[symmetric]
        by (simp split: prod.splits)
    qed
  qed
qed

lemma loaded_after_deadline:
  assumes "distinct (map rid rows)"
  shows "loaded (after_deadline cfg now ids rows) (valid_requests cfg now ids rows)"
proof -
  have "distinct (map rid (after_deadline cfg now ids rows))"
    using assms by (simp add: after_deadline_def o_def if_distrib cong: if_cong)
  moreover have "distinct (map rid (valid_requests cfg now ids rows))"
    using assms by (simp add: valid_requests_def distinct_map_filter)
  moreover have "\<exists>s. s \<noteq> Approved \<and> m\<lparr>status := s\<rparr> \<in> set (after_deadline cfg now ids rows)"
    if "m \<in> set (valid_requests cfg now ids rows)" for m
  proof -
    from that have "m \<in> set rows" "status m = Pending"
      "\<not> deadline_passed cfg now (date m) (time_slot m)"
      by (auto simp: valid_requests_def)
    then have "m \<in> set (after_deadline cfg now ids rows)" by (force simp: after_deadline_def)
    then have "m\<lparr>status := Pending\<rparr> \<in> set (after_deadline cfg now ids rows)"
      using \<open>status m = Pending\<close> by (metis reservation.surjective reservation.update_convs(9))
    then show ?thesis by blast
  qed
  ultimately show ?thesis by (simp add: loaded_def)
qed

lemma same_slot_deadline:
  "key_of y = key_of x \<Longrightarrow>
   deadline_passed cfg now (date y) (time_slot y) = deadline_passed cfg now (date x) (time_slot x)"
  by (simp add: key_of_def)

lemma settled_count:
  assumes "settled k a rows" "distinct (map rid rows)"
  shows "length (filter (\<lambda>r. key_of r = k \<and> status r = Approved) rows) = 1"
proof -
  have d: "distinct rows" using assms(2) by (simp add: distinct_map)
  have "{r \<in> set rows. key_of r = k \<and> status r = Approved} = {a}"
    using assms(1) by (auto simp: settled_def)
  then have "set (filter (\<lambda>r. key_of r = k \<and> status r = Approved) rows) = {a}" by simp
  moreover have "distinct (filter (\<lambda>r. key_of r = k \<and> status r = Approved) rows)"
    using d by simp
  ultimately show ?thesis
    by (metis One_nat_def card.empty card_insert_if distinct_card empty_iff finite.emptyI)
qed

text \<open>
  Claim C2 (approval preempts competitors). Primary keys are unique and \<open>x\<close> is a
  pending reservation that the call with action \<^verbatim>\<open>approve\<close> turns into an approved
  one. Then, when the call returns, the seat, date and slot of \<open>x\<close> have exactly one
  approved reservation and no pending one, and every other reservation that was pending
  for them is rejected. The rejections are made by the loop that runs inside the
  transaction.
\<close>

theorem admin_action_approve_preempts:
  assumes "distinct (map rid (reservations d))"
    and "x \<in> set (reservations d)" "status x = Pending"
    and "x\<lparr>status := Approved\<rparr> \<in> set (reservations (snd (admin_action cfg now d ids ''approve'')))"
  shows "length (filter (\<lambda>r. key_of r = key_of x \<and> status r = Approved)
                   (reservations (snd (admin_action cfg now d ids ''approve'')))) = 1
       \<and> filter (\<lambda>r. key_of r = key_of x \<and> status r = Pending)
                   (reservations (snd (admin_action cfg now d ids ''approve''))) = []
       \<and> (\<forall>y \<in> set (reservations d).
             key_of y = key_of x \<and> status y = Pending \<and> rid y \<noteq> rid x \<longrightarrow>
             y\<lparr>status := Rejected\<rparr> \<in> set (reservations (snd (admin_action cfg now d ids ''approve''))))"
proof -
  let ?rows = "reservations d"
  let ?after = "after_deadline cfg now ids ?rows"
  let ?valid = "valid_requests cfg now ids ?rows"
  let ?final = "fold (decide_rows ''approve'') ?valid ?after"
  have eq: "reservations (snd (admin_action cfg now d ids ''approve'')) = ?final"
    by (rule admin_action_rows[OF assms(1)])
  have ld: "loaded ?after ?valid" by (rule loaded_after_deadline[OF assms(1)])
  have d': "distinct (map rid ?final)" by (rule distinct_rid_fold[OF ld])
  have xa: "x\<lparr>status := Approved\<rparr> \<in> set ?final" using assms(4) eq by simp
  have xv: "x \<in> set ?valid"
  proof (rule ccontr)
    assume nv: "x \<notin> set ?valid"
    have nr: "rid x \<notin> rid ` set ?valid"
    proof
      assume "rid x \<in> rid ` set ?valid"
      then obtain v where v: "v \<in> set ?valid" "rid v = rid x" by auto
      then have "v \<in> set ?rows" by (simp add: valid_requests_def)
      from rid_inj_rows[OF assms(1) this assms(2) v(2)] v(1) nv show False by simp
    qed
    define x0 where "x0 = (if rid x \<in> set ids \<and> deadline_passed cfg now (date x) (time_slot x)
                           then x\<lparr>status := Expired\<rparr> else x)"
    have x0: "x0 \<in> set ?after" "rid x0 = rid x" "status x0 \<noteq> Approved"
      "\<And>s. x0\<lparr>status := s\<rparr> = x\<lparr>status := s\<rparr>"
      using assms(2,3) by (auto simp: x0_def after_deadline_def intro!: image_eqI[where x = x])
    from fold_trans[OF ld x0(1), of "''approve''"] nr x0(2,3,4)
    obtain s' where s': "x\<lparr>status := s'\<rparr> \<in> set ?final" "s' \<noteq> Approved" by auto
    from rid_inj_rows[OF d' s'(1) xa] have "x\<lparr>status := s'\<rparr> = x\<lparr>status := Approved\<rparr>" by simp
    then have "status (x\<lparr>status := s'\<rparr>) = status (x\<lparr>status := Approved\<rparr>)" by simp
    with s'(2) show False by simp
  qed
  have st: "settled (key_of x) (x\<lparr>status := Approved\<rparr>) ?final"
    using fold_approved_settled[OF ld xv xa] by simp
  have c1: "length (filter (\<lambda>r. key_of r = key_of x \<and> status r = Approved) ?final) = 1"
    by (rule settled_count[OF st d'])
  have c2: "filter (\<lambda>r. key_of r = key_of x \<and> status r = Pending) ?final = []"
    using st by (auto simp: settled_def filter_empty_conv)
  have c3: "y\<lparr>status := Rejected\<rparr> \<in> set ?final"
    if y: "y \<in> set ?rows" "key_of y = key_of x" "status y = Pending" "rid y \<noteq> rid x" for y
  proof -
    have "\<not> deadline_passed cfg now (date x) (time_slot x)" using xv by (simp add: valid_requests_def)
    then have "\<not> deadline_passed cfg now (date y) (time_slot y)"
      using same_slot_deadline[OF y(2)] by simp
    then have "y \<in> set ?after" using y(1) by (force simp: after_deadline_def)
    from fold_trans[OF ld this, of "''approve''"] y(3)
    obtain s' where s': "y\<lparr>status := s'\<rparr> \<in> set ?final"
      "s' = Pending \<or> s' = Rejected \<or> s' = Approved" by auto
    have kst: "key_of (y\<lparr>status := s'\<rparr>) = key_of x" using y(2) by simp
    from st s'(1) kst
    have both: "status (y\<lparr>status := s'\<rparr>) \<noteq> Pending
          \<and> (status (y\<lparr>status := s'\<rparr>) = Approved
                \<longrightarrow> y\<lparr>status := s'\<rparr> = x\<lparr>status := Approved\<rparr>)"
      unfolding settled_def by blast
    then have "s' \<noteq> Pending" by simp
    moreover have "s' \<noteq> Approved"
    proof
      assume "s' = Approved"
      then have "y\<lparr>status := s'\<rparr> = x\<lparr>status := Approved\<rparr>" using both by simp
      then have "rid (y\<lparr>status := s'\<rparr>) = rid (x\<lparr>status := Approved\<rparr>)" by simp
      then show False using y(4) by simp
    qed
    ultimately show ?thesis using s' by auto
  qed
  show ?thesis unfolding eq using c1 c2 c3 by blast
qed

text \<open>
  The administrator approves Alice's request (key 1) at 07:00: it is approved, Bob's
  request for the same seat is rejected and his other request stays pending.
\<close>

theorem admin_action_approve_preempts_witness:
  "map status (reservations (snd (admin_action cfg0 (combine 20000 7 0)
                                   (db0\<lparr>reservations := rival_rows\<rparr>) [1] ''approve'')))
     = [Approved, Rejected, Pending]
   \<and> length (filter (\<lambda>r. key_of r = (1, 0, 0, 20000, 1) \<and> status r = Approved)
               (reservations (snd (admin_action cfg0 (combine 20000 7 0)
                                    (db0\<lparr>reservations := rival_rows\<rparr>) [1] ''approve'')))) = 1"
proof -
  let ?d = "db0\<lparr>reservations := rival_rows\<rparr>"
  let ?x = "new_reservation 1 70 1 (1, 0, 0, 20000, 1) Pending (combine 19999 12 0) False"
  have ev: "reservations (snd (admin_action cfg0 (combine 20000 7 0) ?d [1] ''approve''))
              = [?x\<lparr>status := Approved\<rparr>,
                 (new_reservation 2 71 2 (1, 0, 0, 20000, 1) Pending (combine 19999 12 0) False)
                   \<lparr>status := Rejected\<rparr>,
                 new_reservation 3 71 2 (1, 0, 1, 20000, 1) Pending (combine 19999 12 0) False]"
    by (simp add: admin_action_def Let_def rival_rows_def new_reservation_def save_def
          update_status_def is_hard_locked_def key_of_def cfg0_def time_defs db0_def)
  have h1: "distinct (map rid (reservations ?d))" by (simp add: rival_rows_def)
  have h2: "?x \<in> set (reservations ?d)" by (simp add: rival_rows_def)
  have h3: "status ?x = Pending" by simp
  have h4: "?x\<lparr>status := Approved\<rparr>
              \<in> set (reservations (snd (admin_action cfg0 (combine 20000 7 0) ?d [1] ''approve'')))"
    unfolding ev by simp
  from admin_action_approve_preempts[OF h1 h2 h3 h4]
  have "length (filter (\<lambda>r. key_of r = key_of ?x \<and> status r = Approved)
               (reservations (snd (admin_action cfg0 (combine 20000 7 0) ?d [1] ''approve'')))) = 1"
    by blast
  then show ?thesis unfolding ev by simp
qed

section \<open>The seat invariant under the elementary updates\<close>

lemma approved_keys_Cons:
  "approved_keys (x # xs) = (if status x = Approved then key_of x # approved_keys xs else approved_keys xs)"
  by (simp add: approved_keys_def)

lemma approved_keys_append [simp]:
  "approved_keys (xs @ ys) = approved_keys xs @ approved_keys ys"
  by (simp add: approved_keys_def)

lemma approved_keys_Nil [simp]: "approved_keys [] = []"
  by (simp add: approved_keys_def)

lemma is_hard_locked_keys: "is_hard_locked rows k \<longleftrightarrow> k \<in> set (approved_keys rows)"
  by (auto simp: is_hard_locked_def approved_keys_def)

text \<open>A rewriting of the rows that neither creates nor alters approved rows.\<close>

lemma approved_keys_map_subset:
  "(\<And>r. r \<in> set rows \<Longrightarrow> status (f r) = Approved \<Longrightarrow> f r = r) \<Longrightarrow>
   set (approved_keys (map f rows)) \<subseteq> set (approved_keys rows)"
proof (induction rows)
  case Nil
  then show ?case by simp
next
  case (Cons x xs)
  have fx: "status (f x) = Approved \<Longrightarrow> f x = x" using Cons.prems by simp
  have ih: "set (approved_keys (map f xs)) \<subseteq> set (approved_keys xs)"
    using Cons by simp
  show ?case using fx ih by (auto simp: approved_keys_Cons)
qed

lemma one_approved_map:
  "(\<And>r. r \<in> set rows \<Longrightarrow> status (f r) = Approved \<Longrightarrow> f r = r) \<Longrightarrow>
   one_approved rows \<Longrightarrow> one_approved (map f rows)"
proof (induction rows)
  case Nil
  then show ?case by (simp add: one_approved_def)
next
  case (Cons x xs)
  have fx: "status (f x) = Approved \<Longrightarrow> f x = x" using Cons.prems(1) by simp
  have sub: "set (approved_keys (map f xs)) \<subseteq> set (approved_keys xs)"
    by (rule approved_keys_map_subset) (use Cons.prems(1) in simp)
  have tl: "one_approved xs" using Cons.prems(2)
    by (auto simp: one_approved_def approved_keys_Cons split: if_splits)
  have ih: "one_approved (map f xs)" using Cons.IH Cons.prems(1) tl by simp
  show ?case
  proof (cases "status (f x) = Approved")
    case True
    then have "f x = x" by (rule fx)
    then have "key_of (f x) \<notin> set (approved_keys xs)"
      using Cons.prems(2) True by (auto simp: one_approved_def approved_keys_Cons)
    then show ?thesis using True ih sub
      by (auto simp: one_approved_def approved_keys_Cons)
  next
    case False
    then show ?thesis using ih by (simp add: one_approved_def approved_keys_Cons)
  qed
qed

lemma one_approved_save:
  "status obj \<noteq> Approved \<Longrightarrow> one_approved rows \<Longrightarrow> one_approved (save rows obj)"
  unfolding save_def by (rule one_approved_map) (auto split: if_splits)

lemma one_approved_update_status:
  "s \<noteq> Approved \<Longrightarrow> one_approved rows \<Longrightarrow> one_approved (update_status P s rows)"
  unfolding update_status_def by (rule one_approved_map) (auto split: if_splits)

lemma approved_keys_update_status:
  "s \<noteq> Approved \<Longrightarrow> set (approved_keys (update_status P s rows)) \<subseteq> set (approved_keys rows)"
  unfolding update_status_def by (rule approved_keys_map_subset) (auto split: if_splits)

lemma approved_keys_save_subset:
  "set (approved_keys (save rows obj)) \<subseteq> insert (key_of obj) (set (approved_keys rows))"
  by (induction rows) (auto simp: save_def approved_keys_Cons)

lemma save_no_row: "rid obj \<notin> rid ` set rows \<Longrightarrow> save rows obj = rows"
  by (induction rows) (auto simp: save_def)

text \<open>Saving a row as approved when its seat has no approved row.\<close>

lemma one_approved_save_approved:
  "distinct (map rid rows) \<Longrightarrow> one_approved rows \<Longrightarrow> \<not> is_hard_locked rows (key_of obj) \<Longrightarrow>
   one_approved (save rows obj)"
proof (induction rows)
  case Nil
  then show ?case by (simp add: save_def)
next
  case (Cons x xs)
  have tl: "one_approved xs" using Cons.prems(2)
    by (auto simp: one_approved_def approved_keys_Cons split: if_splits)
  have nl: "\<not> is_hard_locked xs (key_of obj)" using Cons.prems(3)
    by (auto simp: is_hard_locked_def)
  show ?case
  proof (cases "rid x = rid obj")
    case True
    then have "rid obj \<notin> rid ` set xs" using Cons.prems(1) by auto
    then have "save (x # xs) obj = obj # xs" using True save_no_row[of obj xs] by (simp add: save_def)
    then show ?thesis using tl nl
      by (auto simp: one_approved_def approved_keys_Cons is_hard_locked_keys)
  next
    case False
    have ih: "one_approved (save xs obj)" using Cons.IH Cons.prems(1) tl nl by simp
    have sv: "save (x # xs) obj = x # save xs obj" using False by (simp add: save_def)
    show ?thesis
    proof (cases "status x = Approved")
      case True
      have "key_of x \<noteq> key_of obj" using Cons.prems(3) True by (auto simp: is_hard_locked_def)
      moreover have "key_of x \<notin> set (approved_keys xs)"
        using Cons.prems(2) True by (simp add: one_approved_def approved_keys_Cons)
      ultimately have "key_of x \<notin> set (approved_keys (save xs obj))"
        using approved_keys_save_subset[of xs obj] by auto
      then show ?thesis using ih True unfolding sv by (simp add: one_approved_def approved_keys_Cons)
    next
      case False
      then show ?thesis using ih unfolding sv by (simp add: one_approved_def approved_keys_Cons)
    qed
  qed
qed

lemma one_approved_decide_rows:
  assumes "distinct (map rid rows)" "one_approved rows"
  shows "one_approved (decide_rows action m rows)"
proof (cases "action = ''approve''")
  case True
  show ?thesis
  proof (cases "is_hard_locked rows (key_of m)")
    case locked: True
    then show ?thesis using True assms(2) by (simp add: decide_rows_def one_approved_save)
  next
    case False
    have "one_approved (save rows (m\<lparr>status := Approved\<rparr>))"
      by (rule one_approved_save_approved) (use assms False in simp_all)
    then have "one_approved (update_status
                 (\<lambda>r. key_of r = key_of m \<and> status r = Pending \<and> rid r \<noteq> rid m) Rejected
                 (save rows (m\<lparr>status := Approved\<rparr>)))"
      by (rule one_approved_update_status[rotated]) simp
    then show ?thesis using True False by (simp add: decide_rows_def)
  qed
next
  case False
  then show ?thesis using assms(2) by (simp add: decide_rows_def one_approved_save)
qed

lemma one_approved_fold_decide:
  "distinct (map rid rows) \<Longrightarrow> one_approved rows \<Longrightarrow>
   one_approved (fold (decide_rows action) mem rows)"
proof (induction mem arbitrary: rows)
  case Nil
  then show ?case by simp
next
  case (Cons m rest)
  have "distinct (map rid (decide_rows action m rows))" using Cons.prems(1) by simp
  moreover have "one_approved (decide_rows action m rows)"
    by (rule one_approved_decide_rows[OF Cons.prems])
  ultimately show ?case using Cons.IH by simp
qed

lemma fold_save_inv:
  assumes "\<And>m. status (f m) \<noteq> Approved" "\<And>m. rid (f m) = rid m"
  shows "one_approved rows \<Longrightarrow> one_approved (fold (\<lambda>m rows'. save rows' (f m)) mem rows)"
    and "map rid (fold (\<lambda>m rows'. save rows' (f m)) mem rows) = map rid rows"
proof -
  show "one_approved rows \<Longrightarrow> one_approved (fold (\<lambda>m rows'. save rows' (f m)) mem rows)"
    by (induction mem arbitrary: rows) (auto simp: one_approved_save assms)
  show "map rid (fold (\<lambda>m rows'. save rows' (f m)) mem rows) = map rid rows"
    by (induction mem arbitrary: rows) (auto simp: assms)
qed

lemma wf_rows_append:
  "wf_rows rows seq \<Longrightarrow> rid r = seq \<Longrightarrow> wf_rows (rows @ [r]) (seq + 1)"
  unfolding wf_rows_def by fastforce

lemma one_approved_append:
  "one_approved rows \<Longrightarrow> status r = Approved \<longrightarrow> \<not> is_hard_locked rows (key_of r) \<Longrightarrow>
   one_approved (rows @ [r])"
  by (auto simp: one_approved_def approved_keys_Cons is_hard_locked_keys)

section \<open>The seat invariant under the operations\<close>

lemma submit_loop_inv:
  "submit_loop cid stu d slot bid now ss (rows, seq) new = Inr ((rows', seq'), new') \<Longrightarrow>
   wf_rows rows seq \<Longrightarrow> one_approved rows \<Longrightarrow> wf_rows rows' seq' \<and> one_approved rows'"
proof (induction ss arbitrary: rows seq new)
  case Nil
  then show ?case by simp
next
  case (Cons s ss)
  from Cons.prems(1) obtain r c k dt where
    rec: "submit_loop cid stu d slot bid now ss
                (rows @ [new_reservation seq bid stu (k, r, c, dt, slot) Pending now False], seq + 1)
                (new @ [new_reservation seq bid stu (k, r, c, dt, slot) Pending now False])
            = Inr ((rows', seq'), new')"
    by (auto simp: Let_def split: option.splits sum.splits if_splits)
  let ?res = "new_reservation seq bid stu (k, r, c, dt, slot) Pending now False"
  have "wf_rows (rows @ [?res]) (seq + 1)" by (rule wf_rows_append[OF Cons.prems(2)]) simp
  moreover have "one_approved (rows @ [?res])" by (rule one_approved_append[OF Cons.prems(3)]) simp
  ultimately show ?case using Cons.IH[OF rec] by simp
qed

lemma seat_invariant_submit:
  assumes "seat_invariant d"
  shows "seat_invariant (snd (submit cfg now bid mail_ok d rq))"
proof (cases "rq_post rq")
  case False
  then show ?thesis using assms by (simp add: submit_def)
next
  case True
  show ?thesis
  proof (cases "submit_prechecks cfg now d rq")
    case (Inl resp)
    then show ?thesis using assms True by (simp add: submit_def)
  next
    case (Inr ok)
    obtain stu slot req_date seats_list where ok: "ok = (stu, slot, req_date, seats_list)"
      by (cases ok) auto
    let ?loop = "submit_loop (rq_cid rq) (stu_pk stu) (parse_date req_date) slot bid now seats_list
                   (reservations d, reservation_seq d) []"
    show ?thesis
    proof (cases ?loop)
      case (Inl e)
      then show ?thesis using assms True Inr ok by (simp add: submit_def)
    next
      case loop: (Inr res)
      obtain rows' seq' new' where res: "res = ((rows', seq'), new')" by (cases res) auto
      from submit_loop_inv[OF loop[unfolded res]] assms
      have "wf_rows rows' seq' \<and> one_approved rows'" by (simp add: seat_invariant_def wf_def)
      then show ?thesis using assms True Inr ok loop res
        by (simp add: submit_def seat_invariant_def wf_def)
    qed
  qed
qed

lemma map_rid_after_deadline [simp]: "map rid (after_deadline cfg now ids rows) = map rid rows"
  by (induction rows) (auto simp: after_deadline_def)

lemma one_approved_after_deadline:
  "one_approved rows \<Longrightarrow> one_approved (after_deadline cfg now ids rows)"
  unfolding after_deadline_def by (rule one_approved_map) (auto split: if_splits)

lemma seat_invariant_admin_action:
  assumes "seat_invariant d"
  shows "seat_invariant (snd (admin_action cfg now d ids action))"
proof -
  have d: "distinct (map rid (reservations d))" and w: "wf_rows (reservations d) (reservation_seq d)"
    and o: "one_approved (reservations d)"
    using assms by (auto simp: seat_invariant_def wf_def wf_rows_def)
  let ?final = "fold (decide_rows action) (valid_requests cfg now ids (reservations d))
                  (after_deadline cfg now ids (reservations d))"
  have eq: "reservations (snd (admin_action cfg now d ids action)) = ?final"
    by (rule admin_action_rows[OF d])
  have sq: "reservation_seq (snd (admin_action cfg now d ids action)) = reservation_seq d"
  proof -
    obtain rows0 n v where dl: "deadline_loop cfg now
        (filter (\<lambda>r. status r = Pending) (filter (\<lambda>r. rid r \<in> set ids) (reservations d)))
        (reservations d, 0, []) = (rows0, n, v)" by (rule prod_cases3)
    obtain rows1 a b where dc: "decide_loop action v (rows0, 0, 0) = (rows1, a, b)"
      by (rule prod_cases3)
    show ?thesis unfolding admin_action_def Let_def dl using dc by simp
  qed
  have "map rid ?final = map rid (reservations d)" by simp
  then have "wf_rows ?final (reservation_seq d)" using w by (simp add: wf_rows_def)
  moreover have "one_approved ?final"
    by (rule one_approved_fold_decide) (use d o in \<open>simp_all add: one_approved_after_deadline\<close>)
  ultimately show ?thesis by (simp add: seat_invariant_def wf_def eq sq)
qed

lemma booking_loop_inv:
  "booking_loop cls d slot stu bid now ss ((rows, seq), n) = Inr ((rows', seq'), n') \<Longrightarrow>
   wf_rows rows seq \<Longrightarrow> one_approved rows \<Longrightarrow> wf_rows rows' seq' \<and> one_approved rows'"
proof (induction ss arbitrary: rows seq n)
  case Nil
  then show ?case by simp
next
  case (Cons s ss)
  from Cons.prems(1) obtain r c dt where s: "parse_seat s = Some (r, c)" and dt: "d = Some dt"
    by (auto split: option.splits)
  let ?k = "(cls, r, c, dt, slot)"
  show ?case
  proof (cases "is_hard_locked rows ?k")
    case True
    then have "booking_loop cls d slot stu bid now ss ((rows, seq), n) = Inr ((rows', seq'), n')"
      using Cons.prems(1) s dt by simp
    from Cons.IH[OF this Cons.prems(2,3)] show ?thesis .
  next
    case False
    let ?rows1 = "update_status (\<lambda>x. key_of x = ?k \<and> status x = Pending) Rejected rows"
    let ?res = "new_reservation seq bid stu ?k Approved now True"
    have rec: "booking_loop cls d slot stu bid now ss ((?rows1 @ [?res], seq + 1), n + 1)
                 = Inr ((rows', seq'), n')"
      using Cons.prems(1) s dt False by (simp add: Let_def split: if_splits)
    have w1: "wf_rows ?rows1 seq" using Cons.prems(2) by (simp add: wf_rows_def)
    have o1: "one_approved ?rows1" by (rule one_approved_update_status[OF _ Cons.prems(3)]) simp
    have nl: "\<not> is_hard_locked ?rows1 ?k"
      using False approved_keys_update_status[of Rejected "\<lambda>x. key_of x = ?k \<and> status x = Pending" rows]
      by (auto simp: is_hard_locked_keys)
    have "wf_rows (?rows1 @ [?res]) (seq + 1)" by (rule wf_rows_append[OF w1]) simp
    moreover have "one_approved (?rows1 @ [?res])"
      by (rule one_approved_append[OF o1]) (use nl in simp)
    ultimately show ?thesis using Cons.IH[OF rec] by simp
  qed
qed

lemma get_or_create_student_reservations:
  "get_or_create_student d sid = (res, d1) \<Longrightarrow>
   reservations d1 = reservations d \<and> reservation_seq d1 = reservation_seq d"
  by (auto simp: get_or_create_student_def Let_def split: option.splits)

lemma seat_invariant_get_or_create:
  "get_or_create_student d sid = (res, d1) \<Longrightarrow> seat_invariant d \<Longrightarrow> seat_invariant d1"
  using get_or_create_student_reservations[of d sid res d1]
  by (simp add: seat_invariant_def wf_def)

lemma seat_invariant_book_seats:
  assumes "seat_invariant d1"
  shows "seat_invariant (snd (book_seats now buid d1 cls dt slot stu seats_str msgs))"
proof (cases "booking_loop cls (parse_date dt) slot stu buid now (split_on (CHR '','') seats_str)
                ((reservations d1, reservation_seq d1), 0)")
  case (Inl e)
  then show ?thesis using assms by (simp add: book_seats_def)
next
  case (Inr res)
  obtain rows' seq' n' where res: "res = ((rows', seq'), n')" by (cases res) auto
  from booking_loop_inv[OF Inr[unfolded res]] assms
  have "wf_rows rows' seq' \<and> one_approved rows'" by (simp add: seat_invariant_def wf_def)
  then show ?thesis using Inr res by (simp add: book_seats_def seat_invariant_def wf_def)
qed

lemma seat_invariant_admin_booking_post:
  assumes "seat_invariant d"
  shows "seat_invariant (snd (admin_booking_post now buid d rq slot_id curr_cls))"
proof (cases "ar_target_student_id rq")
  case None
  then show ?thesis using assms by (simp add: admin_booking_post_def)
next
  case (Some target_sid)
  show ?thesis
  proof (cases "target_sid = []")
    case True
    then show ?thesis using assms Some by (simp add: admin_booking_post_def)
  next
    case False
    obtain target_student created d1 where
      g: "get_or_create_student d target_sid = ((target_student, created), d1)"
      by (cases "get_or_create_student d target_sid") auto
    have i1: "seat_invariant d1" by (rule seat_invariant_get_or_create[OF g assms])
    show ?thesis
      using Some False g i1 seat_invariant_book_seats[OF i1]
      by (simp add: admin_booking_post_def Let_def split: option.splits)
  qed
qed

lemma seat_invariant_admin_booking_view:
  assumes "seat_invariant d"
  shows "seat_invariant (snd (admin_booking_view cfg now buid d rq))"
  using assms seat_invariant_admin_booking_post[OF assms]
  by (simp add: admin_booking_view_def split: sum.splits prod.splits)

lemma pair_pair_exhaust: "(\<And>a b c. y = ((a, b), c) \<Longrightarrow> P) \<Longrightarrow> P"
  by (cases y) auto

lemma cancel_pending_seat_inv:
  "cancel_pending_seat k (rows, n) = (rows', n') \<Longrightarrow>
   map rid rows' = map rid rows \<and> (one_approved rows \<longrightarrow> one_approved rows')"
  by (auto simp: cancel_pending_seat_def Let_def fold_save_inv)

lemma fold_cancel_pending_inv:
  "fold cancel_pending_seat ks (rows, n) = (rows', n') \<Longrightarrow>
   map rid rows' = map rid rows \<and> (one_approved rows \<longrightarrow> one_approved rows')"
proof (induction ks arbitrary: rows n)
  case Nil
  then show ?case by simp
next
  case (Cons k ks)
  obtain rows1 n1 where s: "cancel_pending_seat k (rows, n) = (rows1, n1)" by (rule prod.exhaust)
  from Cons.prems s have "fold cancel_pending_seat ks (rows1, n1) = (rows', n')" by simp
  from Cons.IH[OF this] cancel_pending_seat_inv[OF s] show ?case by simp
qed

lemma cancel_student_group_inv:
  assumes "cancel_student_group new_uuid mail_ok now grp ((rows, seq), rest) = ((rows', seq'), rest')"
    and "wf_rows rows seq" "one_approved rows"
  shows "wf_rows rows' seq' \<and> one_approved rows'"
proof (cases grp)
  case (Pair stu rs)
  show ?thesis
  proof (cases rs)
    case Nil
    then show ?thesis using assms Pair by (simp add: cancel_student_group_def)
  next
    case (Cons first_res others)
    obtain ac es msgs lg where rest: "rest = (ac, es, msgs, lg)" by (rule prod_cases4)
    let ?rows1 = "fold (\<lambda>res rows'. save rows' (res\<lparr>status := Cancelled\<rparr>)) rs rows"
    let ?rec = "(new_reservation seq (new_uuid stu) stu (key_of first_res) Cancelled now True)
                  \<lparr>cancelled_seats_info := map key_of rs\<rparr>"
    have r: "rows' = ?rows1 @ [?rec]" "seq' = seq + 1"
      using assms(1) Pair Cons rest by (simp_all add: cancel_student_group_def Let_def)
    have "map rid ?rows1 = map rid rows" by (rule fold_save_inv(2)) simp_all
    then have w1: "wf_rows ?rows1 seq" using assms(2) by (simp add: wf_rows_def)
    have o1: "one_approved ?rows1" by (rule fold_save_inv(1)[OF _ _ assms(3)]) simp_all
    have "wf_rows (?rows1 @ [?rec]) (seq + 1)" by (rule wf_rows_append[OF w1]) simp
    moreover have "one_approved (?rows1 @ [?rec])" by (rule one_approved_append[OF o1]) simp
    ultimately show ?thesis using r by simp
  qed
qed

lemma fold_cancel_groups_inv:
  "fold (cancel_student_group new_uuid mail_ok now) grps ((rows, seq), rest) = ((rows', seq'), rest')
   \<Longrightarrow> wf_rows rows seq \<Longrightarrow> one_approved rows \<Longrightarrow> wf_rows rows' seq' \<and> one_approved rows'"
proof (induction grps arbitrary: rows seq rest)
  case Nil
  then show ?case by simp
next
  case (Cons g grps)
  obtain rows1 seq1 rest1 where
    s: "cancel_student_group new_uuid mail_ok now g ((rows, seq), rest) = ((rows1, seq1), rest1)"
    by (rule pair_pair_exhaust)
  from cancel_student_group_inv[OF s Cons.prems(2,3)]
  have i1: "wf_rows rows1 seq1" "one_approved rows1" by simp_all
  from Cons.prems(1) s
  have "fold (cancel_student_group new_uuid mail_ok now) grps ((rows1, seq1), rest1)
          = ((rows', seq'), rest')" by simp
  from Cons.IH[OF this i1] show ?case .
qed

lemma seat_invariant_cancel_selected:
  assumes "seat_invariant d"
  shows "seat_invariant (snd (cancel_selected now new_uuid mail_ok d can_cancel sel))"
proof -
  let ?ks = "remdups (map key_of (filter (\<lambda>r. status r = Pending) sel))"
  obtain rows0 pc where p: "fold cancel_pending_seat ?ks (reservations d, 0) = (rows0, pc)"
    by (rule prod.exhaust)
  have w: "wf_rows (reservations d) (reservation_seq d)" and o: "one_approved (reservations d)"
    using assms by (simp_all add: seat_invariant_def wf_def)
  from fold_cancel_pending_inv[OF p] w o
  have i0: "wf_rows rows0 (reservation_seq d)" "one_approved rows0" by (simp_all add: wf_rows_def)
  have grp: "seat_invariant (d\<lparr>reservations := rows1, reservation_seq := seq1\<rparr>)"
    if "fold (cancel_student_group new_uuid mail_ok now) grps ((rows0, reservation_seq d), rest)
          = ((rows1, seq1), rest1)" for grps rest rows1 seq1 rest1
    using fold_cancel_groups_inv[OF that i0] by (simp add: seat_invariant_def wf_def)
  show ?thesis
    unfolding cancel_selected_def Let_def p
    by (auto split: prod.splits intro: grp)
qed

lemma seat_invariant_admin_cancel_view:
  assumes "seat_invariant d"
  shows "seat_invariant (snd (admin_cancel_view cfg now new_uuid mail_ok d rq))"
  using assms seat_invariant_cancel_selected[OF assms]
  by (simp add: admin_cancel_view_def Let_def split: sum.splits prod.splits option.splits)

lemma seat_invariant_cancel_booking:
  assumes "seat_invariant d"
  shows "seat_invariant (snd (cancel_booking cfg now d sid post bid))"
proof -
  have w: "wf_rows (reservations d) (reservation_seq d)" and o: "one_approved (reservations d)"
    using assms by (simp_all add: seat_invariant_def wf_def)
  { fix qs
    let ?rows = "fold (\<lambda>res rows. save rows (res\<lparr>status := Cancelled, is_admin_action := False\<rparr>))
                   qs (reservations d)"
    have "map rid ?rows = map rid (reservations d)" by (rule fold_save_inv(2)) simp_all
    then have "wf_rows ?rows (reservation_seq d)" using w by (simp add: wf_rows_def)
    moreover have "one_approved ?rows" by (rule fold_save_inv(1)[OF _ _ o]) simp_all
    ultimately have "seat_invariant (d\<lparr>reservations := ?rows\<rparr>)"
      by (simp add: seat_invariant_def wf_def) }
  note upd = this
  show ?thesis
    using assms upd
    by (simp add: cancel_booking_def Let_def split: option.splits)
qed

lemma seat_invariant_cleanup:
  assumes "seat_invariant d"
  shows "seat_invariant (fst (cleanup cfg now d))"
proof -
  have w: "wf_rows (reservations d) (reservation_seq d)" and o: "one_approved (reservations d)"
    using assms by (simp_all add: seat_invariant_def wf_def)
  let ?mem = "filter (\<lambda>m. deadline_passed cfg now (date m) (time_slot m))
                (filter (\<lambda>r. status r = Pending \<and> date r \<ge> date_of now) (reservations d))"
  let ?rowsa = "fold (\<lambda>m rows'. save rows' (m\<lparr>status := Expired\<rparr>)) ?mem (reservations d)"
  have ra: "map rid ?rowsa = map rid (reservations d)" by (rule fold_save_inv(2)) simp_all
  have oa: "one_approved ?rowsa" by (rule fold_save_inv(1)[OF _ _ o]) simp_all
  have keep: "seat_invariant (d\<lparr>reservations := rows\<rparr>)"
    if "map rid rows = map rid (reservations d)" "one_approved rows" for rows
    using that w by (simp add: seat_invariant_def wf_def wf_rows_def)
  have f0: "seat_invariant (d\<lparr>reservations := ?rowsa\<rparr>)" by (rule keep[OF ra oa])
  have r1: "map rid (update_status P Expired ?rowsa) = map rid (reservations d)" for P
    using ra by (simp only: map_rid_update_status)
  have o1: "one_approved (update_status P Expired ?rowsa)" for P
    by (rule one_approved_update_status[OF _ oa]) simp
  have r2: "map rid (update_status Q Expired (update_status P Expired ?rowsa))
              = map rid (reservations d)" for P Q
    using r1 by (simp only: map_rid_update_status)
  have o2: "one_approved (update_status Q Expired (update_status P Expired ?rowsa))" for P Q
    by (rule one_approved_update_status[OF _ o1]) simp
  have f1: "seat_invariant (d\<lparr>reservations := update_status P Expired ?rowsa\<rparr>)" for P
    by (rule keep[OF r1 o1])
  have f2: "seat_invariant (d\<lparr>reservations :=
              update_status Q Expired (update_status P Expired ?rowsa)\<rparr>)" for P Q
    by (rule keep[OF r2 o2])
  show ?thesis
    unfolding cleanup_def Let_def expire_loop_fold
    using f0 f1 f2 by (simp split: option.splits)
qed

text \<open>The action of the administration site.\<close>

lemma seat_invariant_cancel_reservations:
  assumes "seat_invariant d"
  shows "seat_invariant (snd (cancel_reservations cfg now new_uuid mail_ok d selected))"
proof -
  have w: "wf_rows (reservations d) (reservation_seq d)" and o: "one_approved (reservations d)"
    using assms by (simp_all add: seat_invariant_def wf_def)
  have pend: "seat_invariant (d\<lparr>reservations := rows0\<rparr>)
              \<and> wf_rows rows0 (reservation_seq d) \<and> one_approved rows0"
    if "fold cancel_pending_seat ks (reservations d, 0) = (rows0, pc)" for ks rows0 pc
    using fold_cancel_pending_inv[OF that] w o by (simp add: seat_invariant_def wf_def wf_rows_def)
  have grp: "seat_invariant (d\<lparr>reservations := rows1, reservation_seq := seq1\<rparr>)"
    if "fold cancel_pending_seat ks (reservations d, 0) = (rows0, pc)"
      "fold (cancel_student_group new_uuid mail_ok now) grps ((rows0, reservation_seq d), rest)
          = ((rows1, seq1), rest1)" for ks rows0 pc grps rest rows1 seq1 rest1
    using fold_cancel_groups_inv[OF that(2)] pend[OF that(1)] by (simp add: seat_invariant_def wf_def)
  show ?thesis
    unfolding cancel_reservations_def Let_def
    using assms by (auto split: prod.splits dest: pend intro: grp)
qed

text \<open>The change form of the administration site.\<close>

lemma clean_no_other_approved:
  assumes "clean d instance cd = Inr seat"
  shows "\<forall>x \<in> set (reservations d).
           key_of x = (cf_classroom cd, fst seat, snd seat, cf_date cd, cf_time_slot cd)
           \<and> status x = Approved \<longrightarrow> rid x = rid instance"
proof -
  from assms obtain cls where c: "find (\<lambda>c. cls_pk c = cf_classroom cd) (classrooms d) = Some cls"
    by (auto simp: clean_def split: option.splits)
  then have pk: "cls_pk cls = cf_classroom cd" by (auto dest: find_Some_iff[THEN iffD1])
  from assms c have seat: "seat = (row_input cd - 1, col_input cd - 1)"
    and fb: "first_by rid
               (filter (\<lambda>x. key_of x = (cls_pk cls, row_input cd - 1, col_input cd - 1, cf_date cd,
                                        cf_time_slot cd)
                          \<and> status x = Approved \<and> rid x \<noteq> rid instance) (reservations d)) = None"
    by (auto simp: clean_def Let_def split: if_splits option.splits)
  from fb have none: "filter (\<lambda>x. key_of x = (cls_pk cls, row_input cd - 1, col_input cd - 1, cf_date cd,
                                        cf_time_slot cd)
                          \<and> status x = Approved \<and> rid x \<noteq> rid instance) (reservations d) = []"
    by (simp only: first_by_Some_iff)
  show ?thesis using none pk seat by (auto simp: filter_empty_conv)
qed

lemma one_approved_save_form:
  assumes "distinct (map rid rows)" "one_approved rows"
    and "\<forall>x \<in> set rows. key_of x = key_of obj \<and> status x = Approved \<longrightarrow> rid x = rid obj"
  shows "one_approved (save rows obj)"
  using assms
proof (induction rows)
  case Nil
  then show ?case by (simp add: save_def)
next
  case (Cons x xs)
  have tl: "one_approved xs" using Cons.prems(2)
    by (auto simp: one_approved_def approved_keys_Cons split: if_splits)
  have ih: "one_approved (save xs obj)" using Cons.IH Cons.prems tl by simp
  show ?case
  proof (cases "rid x = rid obj")
    case True
    then have "rid obj \<notin> rid ` set xs" using Cons.prems(1) by auto
    then have sv: "save (x # xs) obj = obj # xs" using True save_no_row[of obj xs] by (simp add: save_def)
    have "key_of obj \<notin> set (approved_keys xs)"
    proof
      assume "key_of obj \<in> set (approved_keys xs)"
      then obtain y where y: "y \<in> set xs" "status y = Approved" "key_of y = key_of obj"
        by (auto simp: approved_keys_def)
      then have "rid y = rid obj" using Cons.prems(3) by simp
      then show False using \<open>rid obj \<notin> rid ` set xs\<close> y(1) by (metis imageI)
    qed
    then show ?thesis unfolding sv using tl by (simp add: one_approved_def approved_keys_Cons)
  next
    case False
    have sv: "save (x # xs) obj = x # save xs obj" using False by (simp add: save_def)
    show ?thesis
    proof (cases "status x = Approved")
      case True
      have "key_of x \<noteq> key_of obj" using Cons.prems(3) True False by auto
      moreover have "key_of x \<notin> set (approved_keys xs)"
        using Cons.prems(2) True by (simp add: one_approved_def approved_keys_Cons)
      ultimately have "key_of x \<notin> set (approved_keys (save xs obj))"
        using approved_keys_save_subset[of xs obj] by auto
      then show ?thesis using ih True unfolding sv by (simp add: one_approved_def approved_keys_Cons)
    next
      case False
      then show ?thesis using ih unfolding sv by (simp add: one_approved_def approved_keys_Cons)
    qed
  qed
qed

lemma form_save_obj:
  "fst (form_save commit rows instance cd seat)
     = instance\<lparr>student := cf_student cd, classroom := cf_classroom cd,
                 date := cf_date cd, time_slot := cf_time_slot cd,
                 status := cf_status cd,
                 cancelled_seats_info := cf_cancelled_seats_info cd,
                 seat_row := fst seat, seat_col := snd seat,
                 is_admin_action := True\<rparr>"
  by (simp add: form_save_def Let_def)

lemma form_save_rid [simp]: "rid (fst (form_save commit rows instance cd seat)) = rid instance"
  by (simp add: form_save_obj)

lemma form_save_key [simp]:
  "key_of (fst (form_save commit rows instance cd seat))
     = (cf_classroom cd, fst seat, snd seat, cf_date cd, cf_time_slot cd)"
  by (simp add: form_save_obj key_of_def)

lemma seat_invariant_reservation_change_view:
  assumes "seat_invariant d"
  shows "seat_invariant (snd (reservation_change_view d object_id cd))"
proof (cases "find (\<lambda>r. rid r = object_id) (reservations d)")
  case None
  then show ?thesis using assms by (simp add: reservation_change_view_def)
next
  case (Some inst)
  show ?thesis
  proof (cases "clean d inst cd")
    case (Inl e)
    then show ?thesis using assms Some by (simp add: reservation_change_view_def)
  next
    case (Inr seat)
    let ?obj = "fst (form_save False (reservations d) inst cd seat)"
    have w: "wf_rows (reservations d) (reservation_seq d)" and o: "one_approved (reservations d)"
      using assms by (simp_all add: seat_invariant_def wf_def)
    have dd: "distinct (map rid (reservations d))" using w by (simp add: wf_rows_def)
    have "one_approved (save (reservations d) ?obj)"
      by (rule one_approved_save_form[OF dd o]) (use clean_no_other_approved[OF Inr] in simp)
    moreover have "wf_rows (save (reservations d) ?obj) (reservation_seq d)"
      using w by (simp add: wf_rows_def)
    moreover have "snd (reservation_change_view d object_id cd)
                     = d\<lparr>reservations := save (reservations d) ?obj\<rparr>"
      using Some Inr by (simp add: reservation_change_view_def form_save_def Let_def)
    ultimately show ?thesis by (simp add: seat_invariant_def wf_def)
  qed
qed

lemma seat_invariant_form_save:
  assumes "seat_invariant d" "inst \<in> set (reservations d)" "clean d inst cd = Inr seat"
  shows "seat_invariant (d\<lparr>reservations := snd (form_save True (reservations d) inst cd seat)\<rparr>)"
proof -
  let ?obj = "fst (form_save True (reservations d) inst cd seat)"
  have w: "wf_rows (reservations d) (reservation_seq d)" and o: "one_approved (reservations d)"
    using assms(1) by (simp_all add: seat_invariant_def wf_def)
  have dd: "distinct (map rid (reservations d))" using w by (simp add: wf_rows_def)
  have o1: "one_approved (save (reservations d) ?obj)"
    by (rule one_approved_save_form[OF dd o]) (use clean_no_other_approved[OF assms(3)] in simp)
  have eq: "snd (form_save True (reservations d) inst cd seat)
              = update_status (\<lambda>x. key_of x = key_of ?obj \<and> status x = Pending \<and> rid x \<noteq> rid ?obj)
                  Rejected (save (reservations d) ?obj)"
    by (simp add: form_save_def Let_def)
  have "one_approved (snd (form_save True (reservations d) inst cd seat))"
    unfolding eq by (rule one_approved_update_status[OF _ o1]) simp
  moreover have "wf_rows (snd (form_save True (reservations d) inst cd seat)) (reservation_seq d)"
    unfolding eq using w by (simp add: wf_rows_def)
  ultimately show ?thesis by (simp add: seat_invariant_def wf_def)
qed

text \<open>The operations that do not write reservations.\<close>

lemma send_access_codes_reservations:
  "reservations (fst (send_access_codes cfg dry_run now rnd mail_ok d)) = reservations d
   \<and> reservation_seq (fst (send_access_codes cfg dry_run now rnd mail_ok d)) = reservation_seq d"
  by (simp add: send_access_codes_def split: prod.splits)

lemma seat_invariant_send_access_codes:
  "seat_invariant d \<Longrightarrow> seat_invariant (fst (send_access_codes cfg dry_run now rnd mail_ok d))"
  using send_access_codes_reservations[of cfg dry_run now rnd mail_ok d]
  by (simp add: seat_invariant_def wf_def)

lemma seat_invariant_apply_promotion:
  "seat_invariant d \<Longrightarrow> seat_invariant (snd (apply_promotion d sid mail_ok))"
  by (simp add: apply_promotion_def Let_def seat_invariant_def wf_def split: option.splits)

lemma seat_invariant_admin_action_stu:
  "seat_invariant d \<Longrightarrow> seat_invariant (snd (admin_action_stu now remote_user mail_ok d stu_id action))"
  by (simp add: admin_action_stu_def seat_invariant_def wf_def split: option.splits)

section \<open>What a hard lock blocks\<close>

lemma distinct_map_count:
  "distinct (map f xs) \<longleftrightarrow> (\<forall>k. length (filter (\<lambda>x. f x = k) xs) \<le> 1)"
proof (induction xs)
  case Nil
  then show ?case by simp
next
  case (Cons x xs)
  show ?case
  proof
    assume d: "distinct (map f (x # xs))"
    then have "f x \<notin> f ` set xs" by simp
    then have nx: "\<And>y. y \<in> set xs \<Longrightarrow> f y \<noteq> f x" by (metis imageI)
    have tl: "\<And>k. length (filter (\<lambda>x. f x = k) xs) \<le> 1" using d Cons.IH by simp
    have "filter (\<lambda>y. f y = f x) xs = []" using nx by (auto simp: filter_empty_conv)
    then show "\<forall>k. length (filter (\<lambda>y. f y = k) (x # xs)) \<le> 1" using tl by auto
  next
    assume c: "\<forall>k. length (filter (\<lambda>y. f y = k) (x # xs)) \<le> 1"
    have "\<And>k. length (filter (\<lambda>y. f y = k) xs) \<le> length (filter (\<lambda>y. f y = k) (x # xs))"
      by simp
    then have "\<forall>k. length (filter (\<lambda>y. f y = k) xs) \<le> 1" using c by (meson le_trans)
    then have dx: "distinct (map f xs)" using Cons.IH by simp
    have "length (filter (\<lambda>y. f y = f x) (x # xs)) \<le> 1" using c by blast
    then have "filter (\<lambda>y. f y = f x) xs = []" by simp
    then have "f x \<notin> f ` set xs" by (auto simp: filter_empty_conv)
    then show "distinct (map f (x # xs))" using dx by simp
  qed
qed

lemma one_approved_count:
  "one_approved rows
     \<longleftrightarrow> (\<forall>k. length (filter (\<lambda>r. key_of r = k \<and> status r = Approved) rows) \<le> 1)"
proof -
  have "\<And>k. filter (\<lambda>r. key_of r = k \<and> status r = Approved) rows
              = filter (\<lambda>r. key_of r = k) (filter (\<lambda>r. status r = Approved) rows)"
    by (auto intro: filter_cong)
  then show ?thesis
    by (simp add: one_approved_def approved_keys_def distinct_map_count[of key_of])
qed

lemma prechecks_Inr_D:
  "submit_prechecks cfg now d rq = Inr (stu, slot, req_date, seats_list) \<Longrightarrow>
   rq_date rq = Some req_date
   \<and> (\<exists>slot_str seats_str. rq_slot rq = Some slot_str \<and> py_int slot_str = Some slot
         \<and> rq_seats_list rq = Some seats_str \<and> seats_list = split_on (CHR '','') seats_str)"
  by (auto simp: submit_prechecks_def Let_def split: option.splits if_splits)

text \<open>A request that names a hard-locked seat is refused and nothing is created.\<close>

lemma submit_locked_refused:
  assumes "rq_post rq" "pk_of_field (rq_cid rq) = Inr (Some cls)"
    "rq_date rq = Some date_str \<and> parse_date date_str = Some dt"
    "rq_slot rq = Some slot_str" "py_int slot_str = Some slot"
    "rq_seats_list rq = Some seats_str" "s \<in> set (split_on (CHR '','') seats_str)"
    "parse_seat s = Some (r, c)" "is_hard_locked (reservations d) (cls, r, c, dt, slot)"
  shows "snd (submit cfg now bid mail_ok d rq) = d
         \<and> (\<exists>m. fst (fst (submit cfg now bid mail_ok d rq)) = InfoError m)"
proof (cases "submit_prechecks cfg now d rq")
  case (Inl resp)
  from prechecks_Inl_unchanged[OF assms(1) Inl] prechecks_Inl_error[OF Inl]
  show ?thesis by simp
next
  case (Inr ok)
  obtain stu slot' req_date seats_list where ok: "ok = (stu, slot', req_date, seats_list)"
    by (cases ok) auto
  from prechecks_Inr_D[OF Inr[unfolded ok]] assms(3-6)
  have e: "req_date = date_str" "slot' = slot" "seats_list = split_on (CHR '','') seats_str" by auto
  have pd: "parse_date date_str = Some dt" using assms(3) by simp
  let ?loop = "submit_loop (rq_cid rq) (stu_pk stu) (Some dt) slot bid now seats_list
                 (reservations d, reservation_seq d) []"
  show ?thesis
  proof (cases ?loop)
    case (Inl e')
    then show ?thesis using assms(1) Inr ok e pd by (simp add: submit_def)
  next
    case loop: (Inr res)
    have "seats_list \<noteq> []" using e(3) by simp
    from submit_loop_Inr_D[OF loop this] assms(2)
    have "\<forall>s \<in> set seats_list. \<exists>r c. parse_seat s = Some (r, c)
            \<and> \<not> is_hard_locked (reservations d) (cls, r, c, dt, slot)" by auto
    then show ?thesis using assms(7,8,9) e(3) by fastforce
  qed
qed

text \<open>
  A pending request on a hard-locked seat, named in the link: approval marks it expired
  when its deadline has passed and rejected otherwise.
\<close>

lemma admin_action_locked:
  assumes "distinct (map rid (reservations d))"
    and "a \<in> set (reservations d)" "status a = Approved"
    and "x \<in> set (reservations d)" "status x = Pending" "key_of x = key_of a" "rid x \<in> set ids"
  shows "x\<lparr>status := if deadline_passed cfg now (date x) (time_slot x) then Expired else Rejected\<rparr>
           \<in> set (reservations (snd (admin_action cfg now d ids ''approve'')))"
proof -
  let ?rows = "reservations d"
  let ?after = "after_deadline cfg now ids ?rows"
  let ?valid = "valid_requests cfg now ids ?rows"
  let ?final = "fold (decide_rows ''approve'') ?valid ?after"
  have eq: "reservations (snd (admin_action cfg now d ids ''approve'')) = ?final"
    by (rule admin_action_rows[OF assms(1)])
  have ld: "loaded ?after ?valid" by (rule loaded_after_deadline[OF assms(1)])
  show ?thesis
  proof (cases "deadline_passed cfg now (date x) (time_slot x)")
    case True
    have xe: "x\<lparr>status := Expired\<rparr> \<in> set ?after"
      using assms(4,5,7) True by (force simp: after_deadline_def)
    have nr: "rid (x\<lparr>status := Expired\<rparr>) \<notin> rid ` set ?valid"
    proof
      assume "rid (x\<lparr>status := Expired\<rparr>) \<in> rid ` set ?valid"
      then obtain v where v: "v \<in> set ?valid" "rid v = rid x" by auto
      then have "v \<in> set ?rows" by (simp add: valid_requests_def)
      from rid_inj_rows[OF assms(1) this assms(4) v(2)] v(1) True show False
        by (simp add: valid_requests_def)
    qed
    from fold_keeps[OF ld xe _ nr, of "''approve''"] True show ?thesis unfolding eq by simp
  next
    case False
    have xv: "x \<in> set ?valid" using assms(4,5,7) False by (simp add: valid_requests_def)
    have aa: "a \<in> set ?after" using assms(2,3) by (force simp: after_deadline_def)
    from fold_locked_rejected[OF ld aa assms(3) xv assms(6)] False
    show ?thesis unfolding eq by simp
  qed
qed

lemma filter_approved_update_status:
  "(\<And>r. P r \<Longrightarrow> status r \<noteq> Approved) \<Longrightarrow> s \<noteq> Approved \<Longrightarrow>
   filter (\<lambda>x. key_of x = k \<and> status x = Approved) (update_status P s rows)
     = filter (\<lambda>x. key_of x = k \<and> status x = Approved) rows"
  by (induction rows) (auto simp: update_status_def)

text \<open>The booking loop adds no approved row to a seat that is hard locked.\<close>

lemma booking_loop_locked:
  "booking_loop cls d slot stu bid now ss ((rows, seq), n) = Inr ((rows', seq'), n') \<Longrightarrow>
   is_hard_locked rows k \<Longrightarrow>
   filter (\<lambda>x. key_of x = k \<and> status x = Approved) rows'
     = filter (\<lambda>x. key_of x = k \<and> status x = Approved) rows"
proof (induction ss arbitrary: rows seq n)
  case Nil
  then show ?case by simp
next
  case (Cons s ss)
  from Cons.prems(1) obtain r c dt where s: "parse_seat s = Some (r, c)" and dt: "d = Some dt"
    by (auto split: option.splits)
  let ?k = "(cls, r, c, dt, slot)"
  show ?case
  proof (cases "is_hard_locked rows ?k")
    case True
    then have "booking_loop cls d slot stu bid now ss ((rows, seq), n) = Inr ((rows', seq'), n')"
      using Cons.prems(1) s dt by simp
    from Cons.IH[OF this Cons.prems(2)] show ?thesis .
  next
    case False
    let ?rows1 = "update_status (\<lambda>x. key_of x = ?k \<and> status x = Pending) Rejected rows"
    let ?res = "new_reservation seq bid stu ?k Approved now True"
    have rec: "booking_loop cls d slot stu bid now ss ((?rows1 @ [?res], seq + 1), n + 1)
                 = Inr ((rows', seq'), n')"
      using Cons.prems(1) s dt False by (simp add: Let_def split: if_splits)
    have kk: "?k \<noteq> k" using False Cons.prems(2) by auto
    have f1: "filter (\<lambda>x. key_of x = k \<and> status x = Approved) ?rows1
                = filter (\<lambda>x. key_of x = k \<and> status x = Approved) rows"
      by (rule filter_approved_update_status) simp_all
    have f2: "filter (\<lambda>x. key_of x = k \<and> status x = Approved) (?rows1 @ [?res])
                = filter (\<lambda>x. key_of x = k \<and> status x = Approved) rows"
      using f1 kk by simp
    have "is_hard_locked (?rows1 @ [?res]) k"
    proof -
      from Cons.prems(2) obtain a where "a \<in> set rows" "key_of a = k" "status a = Approved"
        by (auto simp: is_hard_locked_def)
      then have "a \<in> set (filter (\<lambda>x. key_of x = k \<and> status x = Approved) (?rows1 @ [?res]))"
        unfolding f2 by simp
      then show ?thesis unfolding is_hard_locked_def by auto
    qed
    from Cons.IH[OF rec this] f2 show ?thesis by simp
  qed
qed

lemma admin_booking_view_locked:
  assumes "is_hard_locked (reservations d) k"
  shows "filter (\<lambda>x. key_of x = k \<and> status x = Approved)
           (reservations (snd (admin_booking_view cfg now buid d rq)))
         = filter (\<lambda>x. key_of x = k \<and> status x = Approved) (reservations d)"
proof -
  have bs: "filter (\<lambda>x. key_of x = k \<and> status x = Approved)
              (reservations (snd (book_seats now buid d1 cls dt slot stu seats_str msgs)))
            = filter (\<lambda>x. key_of x = k \<and> status x = Approved) (reservations d)"
    if "reservations d1 = reservations d" for d1 cls dt slot stu seats_str msgs
  proof (cases "booking_loop cls (parse_date dt) slot stu buid now (split_on (CHR '','') seats_str)
                  ((reservations d1, reservation_seq d1), 0)")
    case (Inl e)
    then show ?thesis using that by (simp add: book_seats_def)
  next
    case (Inr res)
    obtain rows' seq' n' where res: "res = ((rows', seq'), n')" by (rule pair_pair_exhaust)
    from booking_loop_locked[OF Inr[unfolded res]] assms that
    show ?thesis using Inr res by (simp add: book_seats_def)
  qed
  have post: "filter (\<lambda>x. key_of x = k \<and> status x = Approved)
              (reservations (snd (admin_booking_post now buid d rq slot_id curr_cls)))
            = filter (\<lambda>x. key_of x = k \<and> status x = Approved) (reservations d)"
    for slot_id curr_cls
  proof (cases "ar_target_student_id rq")
    case None
    then show ?thesis by (simp add: admin_booking_post_def)
  next
    case (Some target_sid)
    obtain target_student created d1 where
      g: "get_or_create_student d target_sid = ((target_student, created), d1)"
      by (rule pair_pair_exhaust)
    have r1: "reservations d1 = reservations d"
      using get_or_create_student_reservations[OF g] by simp
    show ?thesis
      using Some g r1 bs[OF r1]
      by (simp add: admin_booking_post_def Let_def split: option.splits)
  qed
  show ?thesis
    using post by (simp add: admin_booking_view_def split: sum.splits prod.splits)
qed

lemma clean_seat:
  "clean d instance cd = Inr seat \<Longrightarrow> seat = (row_input cd - 1, col_input cd - 1)"
  by (auto simp: clean_def Let_def split: if_splits option.splits)

text \<open>The change form refuses a seat, date and slot that another reservation holds.\<close>

lemma reservation_change_view_locked:
  assumes "a \<in> set (reservations d)" "status a = Approved" "rid a \<noteq> object_id"
    and "key_of a = (cf_classroom cd, row_input cd - 1, col_input cd - 1, cf_date cd, cf_time_slot cd)"
  shows "\<exists>e. reservation_change_view d object_id cd = (Some e, d)"
proof (cases "find (\<lambda>r. rid r = object_id) (reservations d)")
  case None
  then show ?thesis by (simp add: reservation_change_view_def)
next
  case (Some inst)
  then have ri: "rid inst = object_id" by (auto dest: find_Some_iff[THEN iffD1])
  show ?thesis
  proof (cases "clean d inst cd")
    case (Inl e)
    then show ?thesis using Some by (simp add: reservation_change_view_def)
  next
    case (Inr seat)
    from clean_no_other_approved[OF Inr] clean_seat[OF Inr] assms ri
    have False by auto
    then show ?thesis ..
  qed
qed

text \<open>
  Claim C1, as amended (the approved reservation is a hard lock). \<open>seat_invariant\<close>
  says that primary keys are unique and that no two approved reservations share a
  classroom, seat, date and slot, that is, each such key has at most one approved
  reservation. Every operation preserves it: the views \<open>submit\<close>, \<open>admin_action\<close>
  for reservations and for students, \<open>admin_booking_view\<close>, \<open>admin_cancel_view\<close>,
  \<open>cancel_booking\<close> and \<open>apply_promotion\<close>, the commands \<open>cleanup\<close> and
  \<open>send_access_codes\<close>, and in the administration site the change form of a
  reservation, as the site saves it and as \<^verbatim>\<open>save(commit=True)\<close> saves it, and the
  action \<open>cancel_reservations\<close>. When a key has an approved reservation: a POST to
  \<open>submit\<close> whose seat list names the seat is answered with an error and changes
  nothing; a pending request for the seat named in an approval link is not approved but
  marked rejected, or expired when its booking deadline has passed;
  \<open>admin_booking_view\<close> leaves the approved reservations of the seat exactly as they
  were; and the change form refuses to move another reservation onto the seat.
\<close>

theorem approved_is_hard_lock:
  assumes "seat_invariant d"
  shows "(\<forall>k. length (filter (\<lambda>x. key_of x = k \<and> status x = Approved) (reservations d)) \<le> 1)
       \<and> seat_invariant (snd (submit cfg now bid mail_ok d rq))
       \<and> seat_invariant (snd (admin_action cfg now d ids action))
       \<and> seat_invariant (snd (admin_action_stu now remote_user mail_ok d stu_id action))
       \<and> seat_invariant (snd (admin_booking_view cfg now batch_uuid d arq))
       \<and> seat_invariant (snd (admin_cancel_view cfg now new_uuid mail_ok_of d arq))
       \<and> seat_invariant (snd (cancel_booking cfg now d sid post cancel_bid))
       \<and> seat_invariant (snd (apply_promotion d sid mail_ok))
       \<and> seat_invariant (fst (cleanup cfg now d))
       \<and> seat_invariant (fst (send_access_codes cfg dry_run now rnd mail_ok_of d))
       \<and> seat_invariant (snd (reservation_change_view d object_id cd))
       \<and> (inst \<in> set (reservations d) \<and> clean d inst cd = Inr seat \<longrightarrow>
            seat_invariant (d\<lparr>reservations := snd (form_save True (reservations d) inst cd seat)\<rparr>))
       \<and> seat_invariant (snd (cancel_reservations cfg now new_uuid mail_ok_of d selected))
       \<and> (is_hard_locked (reservations d) (cls, r, c, dt, slot) \<longrightarrow>
            (rq_post rq \<and> pk_of_field (rq_cid rq) = Inr (Some cls)
               \<and> rq_date rq = Some date_str \<and> parse_date date_str = Some dt
               \<and> rq_slot rq = Some slot_str \<and> py_int slot_str = Some slot
               \<and> rq_seats_list rq = Some seats_str \<and> s \<in> set (split_on (CHR '','') seats_str)
               \<and> parse_seat s = Some (r, c) \<longrightarrow>
             snd (submit cfg now bid mail_ok d rq) = d
             \<and> (\<exists>m. fst (fst (submit cfg now bid mail_ok d rq)) = InfoError m))
          \<and> (\<forall>x \<in> set (reservations d).
                status x = Pending \<and> key_of x = (cls, r, c, dt, slot) \<and> rid x \<in> set ids \<longrightarrow>
                x\<lparr>status := if deadline_passed cfg now dt slot then Expired else Rejected\<rparr>
                  \<in> set (reservations (snd (admin_action cfg now d ids ''approve''))))
          \<and> filter (\<lambda>x. key_of x = (cls, r, c, dt, slot) \<and> status x = Approved)
               (reservations (snd (admin_booking_view cfg now batch_uuid d arq)))
             = filter (\<lambda>x. key_of x = (cls, r, c, dt, slot) \<and> status x = Approved)
                 (reservations d)
          \<and> (\<forall>a \<in> set (reservations d).
                key_of a = (cls, r, c, dt, slot) \<and> status a = Approved \<and> rid a \<noteq> object_id
                \<and> (cf_classroom cd, row_input cd - 1, col_input cd - 1, cf_date cd, cf_time_slot cd)
                    = (cls, r, c, dt, slot) \<longrightarrow>
                (\<exists>e. reservation_change_view d object_id cd = (Some e, d))))"
proof -
  have dist: "distinct (map rid (reservations d))"
    using assms by (simp add: seat_invariant_def wf_def wf_rows_def)
  have cnt: "\<forall>k. length (filter (\<lambda>x. key_of x = k \<and> status x = Approved) (reservations d)) \<le> 1"
    using assms by (simp add: seat_invariant_def one_approved_count)
  have fs: "inst \<in> set (reservations d) \<and> clean d inst cd = Inr seat \<longrightarrow>
            seat_invariant (d\<lparr>reservations := snd (form_save True (reservations d) inst cd seat)\<rparr>)"
    using seat_invariant_form_save[OF assms] by blast
  have b1: "rq_post rq \<and> pk_of_field (rq_cid rq) = Inr (Some cls)
               \<and> rq_date rq = Some date_str \<and> parse_date date_str = Some dt
               \<and> rq_slot rq = Some slot_str \<and> py_int slot_str = Some slot
               \<and> rq_seats_list rq = Some seats_str \<and> s \<in> set (split_on (CHR '','') seats_str)
               \<and> parse_seat s = Some (r, c) \<longrightarrow>
             snd (submit cfg now bid mail_ok d rq) = d
             \<and> (\<exists>m. fst (fst (submit cfg now bid mail_ok d rq)) = InfoError m)"
    if lk: "is_hard_locked (reservations d) (cls, r, c, dt, slot)"
    using submit_locked_refused[of rq cls date_str dt slot_str slot seats_str s r c d cfg now bid mail_ok]
      lk by blast
  have b2: "\<forall>x \<in> set (reservations d).
                status x = Pending \<and> key_of x = (cls, r, c, dt, slot) \<and> rid x \<in> set ids \<longrightarrow>
                x\<lparr>status := if deadline_passed cfg now dt slot then Expired else Rejected\<rparr>
                  \<in> set (reservations (snd (admin_action cfg now d ids ''approve'')))"
    if lk: "is_hard_locked (reservations d) (cls, r, c, dt, slot)"
  proof (intro ballI impI)
    fix x assume x: "x \<in> set (reservations d)"
      and h: "status x = Pending \<and> key_of x = (cls, r, c, dt, slot) \<and> rid x \<in> set ids"
    from lk obtain a where a: "a \<in> set (reservations d)" "key_of a = (cls, r, c, dt, slot)"
      "status a = Approved" by (auto simp: is_hard_locked_def)
    have dx: "date x = dt" "time_slot x = slot" using h by (simp_all add: key_of_def)
    from admin_action_locked[OF dist a(1) a(3) x, of ids cfg now] h a(2) dx
    show "x\<lparr>status := if deadline_passed cfg now dt slot then Expired else Rejected\<rparr>
            \<in> set (reservations (snd (admin_action cfg now d ids ''approve'')))" by simp
  qed
  have b3: "filter (\<lambda>x. key_of x = (cls, r, c, dt, slot) \<and> status x = Approved)
               (reservations (snd (admin_booking_view cfg now batch_uuid d arq)))
             = filter (\<lambda>x. key_of x = (cls, r, c, dt, slot) \<and> status x = Approved)
                 (reservations d)"
    if lk: "is_hard_locked (reservations d) (cls, r, c, dt, slot)"
    by (rule admin_booking_view_locked[OF lk])
  have b4: "\<forall>a \<in> set (reservations d).
                key_of a = (cls, r, c, dt, slot) \<and> status a = Approved \<and> rid a \<noteq> object_id
                \<and> (cf_classroom cd, row_input cd - 1, col_input cd - 1, cf_date cd, cf_time_slot cd)
                    = (cls, r, c, dt, slot) \<longrightarrow>
                (\<exists>e. reservation_change_view d object_id cd = (Some e, d))"
    using reservation_change_view_locked[of _ d object_id cd] by metis
  have b': "is_hard_locked (reservations d) (cls, r, c, dt, slot) \<longrightarrow>
            (rq_post rq \<and> pk_of_field (rq_cid rq) = Inr (Some cls)
               \<and> rq_date rq = Some date_str \<and> parse_date date_str = Some dt
               \<and> rq_slot rq = Some slot_str \<and> py_int slot_str = Some slot
               \<and> rq_seats_list rq = Some seats_str \<and> s \<in> set (split_on (CHR '','') seats_str)
               \<and> parse_seat s = Some (r, c) \<longrightarrow>
             snd (submit cfg now bid mail_ok d rq) = d
             \<and> (\<exists>m. fst (fst (submit cfg now bid mail_ok d rq)) = InfoError m))
          \<and> (\<forall>x \<in> set (reservations d).
                status x = Pending \<and> key_of x = (cls, r, c, dt, slot) \<and> rid x \<in> set ids \<longrightarrow>
                x\<lparr>status := if deadline_passed cfg now dt slot then Expired else Rejected\<rparr>
                  \<in> set (reservations (snd (admin_action cfg now d ids ''approve''))))
          \<and> filter (\<lambda>x. key_of x = (cls, r, c, dt, slot) \<and> status x = Approved)
               (reservations (snd (admin_booking_view cfg now batch_uuid d arq)))
             = filter (\<lambda>x. key_of x = (cls, r, c, dt, slot) \<and> status x = Approved)
                 (reservations d)
          \<and> (\<forall>a \<in> set (reservations d).
                key_of a = (cls, r, c, dt, slot) \<and> status a = Approved \<and> rid a \<noteq> object_id
                \<and> (cf_classroom cd, row_input cd - 1, col_input cd - 1, cf_date cd, cf_time_slot cd)
                    = (cls, r, c, dt, slot) \<longrightarrow>
                (\<exists>e. reservation_change_view d object_id cd = (Some e, d)))"
    using b1 b2 b3 b4 by (intro impI conjI) blast+
  show ?thesis
    by (intro conjI)
       (rule cnt b' fs seat_invariant_submit[OF assms] seat_invariant_admin_action[OF assms]
          seat_invariant_admin_action_stu[OF assms]
          seat_invariant_admin_booking_view[OF assms] seat_invariant_admin_cancel_view[OF assms]
          seat_invariant_cancel_booking[OF assms] seat_invariant_apply_promotion[OF assms]
          seat_invariant_cleanup[OF assms] seat_invariant_send_access_codes[OF assms]
          seat_invariant_reservation_change_view[OF assms]
          seat_invariant_cancel_reservations[OF assms])+
qed

lemmas db_defs = seat_invariant_def wf_def wf_rows_def one_approved_def approved_keys_def
  lock_db_def lock_rows_def db0_def

lemmas admin_defs = admin_action_def admin_booking_view_def admin_booking_post_def book_seats_def
  admin_prologue_def default_slot_def get_date_def iso_def render_booking_def
  get_or_create_student_def first_by_def
  save_def update_status_def is_hard_locked_def key_of_def new_reservation_def parse_seat_def
  rq_admin_def alice_def bob_def room_def

text \<open>
  The claim as first stated has the competing request always marked rejected. At 07:30,
  the deadline of the 08:00 slot, the approval link for Alice's request on Bob's seat
  marks it expired instead.
\<close>

theorem approved_is_hard_lock_counterexample:
  "is_hard_locked (reservations lock_db) (1, 0, 0, 20000, 1)
   \<and> map status (reservations lock_db) = [Approved, Pending]
   \<and> map status (reservations (snd (admin_action cfg0 (combine 20000 7 30) lock_db [2] ''approve'')))
       = [Approved, Expired]"
  by (simp add: db_defs admin_defs Let_def cfg0_def time_defs)

text \<open>
  At 07:00 with Bob's approval in place: Bob's own request for seats (0, 1) and (0, 0)
  raises, the approval link for Alice's request rejects it, the administrator's
  booking of (0, 0) for Alice creates nothing, and the change form does not move
  Alice's reservation onto the seat as approved.
\<close>

theorem approved_is_hard_lock_witness:
  "seat_invariant lock_db
   \<and> is_hard_locked (reservations lock_db) (1, 0, 0, 20000, 1)
   \<and> submit cfg0 (combine 20000 7 0) 7 True lock_db (rq_bob ''0-1,0-0'')
       = ((InfoError (CaughtValueError (SeatTaken 0 0)), []), lock_db)
   \<and> map status (reservations (snd (admin_action cfg0 (combine 20000 7 0) lock_db [2] ''approve'')))
       = [Approved, Rejected]
   \<and> admin_booking_view cfg0 (combine 20000 7 0) 9 lock_db (rq_admin ''0-0'')
       = ((Redirected, [NoneBooked]), lock_db)
   \<and> reservation_change_view lock_db 2 form_alice = (Some (TakenBy 2), lock_db)"
proof -
  have i: "seat_invariant lock_db" by (simp add: db_defs)
  have lk: "is_hard_locked (reservations lock_db) (1, 0, 0, 20000, 1)"
    by (simp add: db_defs is_hard_locked_def)
  note w = approved_is_hard_lock[OF i, where cfg = cfg0 and now = "combine 20000 7 0" and bid = 7
      and mail_ok = True and rq = "rq_bob ''0-1,0-0''" and ids = "[2]" and batch_uuid = 9
      and arq = "rq_admin ''0-0''" and cls = 1 and r = 0 and c = 0 and dt = 20000 and slot = 1
      and date_str = "iso 20000" and object_id = 2 and cd = form_alice
      and slot_str = "''1''" and seats_str = "''0-1,0-0''" and s = "''0-0''"]
  have a: "snd (submit cfg0 (combine 20000 7 0) 7 True lock_db (rq_bob ''0-1,0-0'')) = lock_db"
    using w lk by (simp add: rq_bob_def iso_def pk_of_field_def parse_seat_def time_defs)
  have b: "(new_reservation 2 81 1 (1, 0, 0, 20000, 1) Pending (combine 19999 12 0) False)
             \<lparr>status := Rejected\<rparr>
           \<in> set (reservations (snd (admin_action cfg0 (combine 20000 7 0) lock_db [2] ''approve'')))"
    using w lk by (simp add: lock_db_def lock_rows_def cfg0_def time_defs)
  have c: "filter (\<lambda>x. key_of x = (1, 0, 0, 20000, 1) \<and> status x = Approved)
               (reservations (snd (admin_booking_view cfg0 (combine 20000 7 0) 9 lock_db
                                     (rq_admin ''0-0''))))
             = filter (\<lambda>x. key_of x = (1, 0, 0, 20000, 1) \<and> status x = Approved)
                 (reservations lock_db)"
    using w lk by blast
  have e: "\<exists>e. reservation_change_view lock_db 2 form_alice = (Some e, lock_db)"
    using w lk by (simp add: lock_db_def lock_rows_def form_alice_def new_reservation_def key_of_def)
  show ?thesis
    using i lk a b c e
    by (simp add: db_defs admin_defs submit_defs rq_bob_def Let_def cfg0_def time_defs
          reservation_change_view_def clean_def form_alice_def split_on.simps)
qed

section \<open>A failing mail\<close>

lemma fold_save_stays:
  assumes "\<And>r. rid (f r) = rid r"
  shows "f x \<in> set rows \<Longrightarrow> \<forall>m \<in> set mem. rid m = rid x \<longrightarrow> m = x \<Longrightarrow>
         f x \<in> set (fold (\<lambda>m rows'. save rows' (f m)) mem rows)"
proof (induction mem arbitrary: rows)
  case Nil
  then show ?case by simp
next
  case (Cons m0 rest)
  have "f x \<in> set (save rows (f m0))"
  proof (cases "rid m0 = rid x")
    case True
    then have "m0 = x" using Cons.prems(2) by simp
    then show ?thesis using Cons.prems(1) by (force simp: set_save)
  next
    case False
    then show ?thesis using Cons.prems(1) assms by (simp add: in_set_save)
  qed
  then show ?case using Cons.IH Cons.prems(2) by simp
qed

lemma fold_save_member:
  assumes "\<And>r. rid (f r) = rid r"
  shows "x \<in> set mem \<Longrightarrow> rid x \<in> rid ` set rows \<Longrightarrow> \<forall>m \<in> set mem. rid m = rid x \<longrightarrow> m = x \<Longrightarrow>
         f x \<in> set (fold (\<lambda>m rows'. save rows' (f m)) mem rows)"
proof (induction mem arbitrary: rows)
  case Nil
  then show ?case by simp
next
  case (Cons m0 rest)
  show ?case
  proof (cases "rid m0 = rid x")
    case True
    then have m0: "m0 = x" using Cons.prems(3) by simp
    from Cons.prems(2) obtain y where "y \<in> set rows" "rid y = rid x" by auto
    then have "f x \<in> set (save rows (f x))" using assms by (force simp: set_save)
    from fold_save_stays[OF assms this, of rest] Cons.prems(3) m0 show ?thesis by simp
  next
    case False
    then have "x \<in> set rest" using Cons.prems(1) by auto
    moreover have "rid x \<in> rid ` set (save rows (f m0))"
      using Cons.prems(2) assms by (metis list.set_map map_rid_save)
    ultimately show ?thesis using Cons.IH Cons.prems(3) by simp
  qed
qed

text \<open>One group of \<open>cancel_student_group\<close>, when the group is not empty.\<close>

lemma cancel_student_group_eq:
  "rs \<noteq> [] \<Longrightarrow>
   cancel_student_group new_uuid mail_ok now (stu, rs) ((rows, seq), ac, es, msgs, lg) =
     ((fold (\<lambda>res rows'. save rows' (res\<lparr>status := Cancelled\<rparr>)) rs rows
         @ [(new_reservation seq (new_uuid stu) stu (key_of (hd rs)) Cancelled now True)
              \<lparr>cancelled_seats_info := map key_of rs\<rparr>],
       seq + 1),
      ac + length rs,
      (if mail_ok stu then es + 1 else es),
      (if mail_ok stu then msgs else msgs @ [MailFailed stu]),
      lg @ [(CancelNotice stu (map key_of rs), mail_ok stu)])"
  by (cases rs) (simp_all add: cancel_student_group_def Let_def)

lemma fold_groups_log:
  "\<forall>g \<in> set grps. snd g \<noteq> [] \<Longrightarrow>
   fold (cancel_student_group new_uuid mail_ok now) grps ((rows, seq), ac, es, msgs, lg)
     = ((rows', seq'), ac', es', msgs', lg') \<Longrightarrow>
   lg' = lg @ map (\<lambda>g. (CancelNotice (fst g) (map key_of (snd g)), mail_ok (fst g))) grps
   \<and> msgs' = msgs @ map MailFailed (filter (\<lambda>s. \<not> mail_ok s) (map fst grps))"
proof (induction grps arbitrary: rows seq ac es msgs lg)
  case Nil
  then show ?case by simp
next
  case (Cons g grps)
  obtain stu rs where g: "g = (stu, rs)" by (cases g)
  have rs: "rs \<noteq> []" using Cons.prems(1) g by simp
  have all: "\<forall>g \<in> set grps. snd g \<noteq> []" using Cons.prems(1) by simp
  from Cons.prems(2) have "fold (cancel_student_group new_uuid mail_ok now) grps
      (cancel_student_group new_uuid mail_ok now (stu, rs) ((rows, seq), ac, es, msgs, lg))
        = ((rows', seq'), ac', es', msgs', lg')" using g by simp
  from Cons.IH[OF all this[unfolded cancel_student_group_eq[OF rs]]]
  show ?case using g by auto
qed

lemma fold_groups_stays:
  "\<forall>g \<in> set grps. snd g \<noteq> [] \<Longrightarrow>
   fold (cancel_student_group new_uuid mail_ok now) grps ((rows, seq), rest)
     = ((rows', seq'), rest') \<Longrightarrow>
   x\<lparr>status := Cancelled\<rparr> \<in> set rows \<Longrightarrow>
   \<forall>g \<in> set grps. \<forall>m \<in> set (snd g). rid m = rid x \<longrightarrow> m = x \<Longrightarrow>
   x\<lparr>status := Cancelled\<rparr> \<in> set rows'"
proof (induction grps arbitrary: rows seq rest)
  case Nil
  then show ?case by simp
next
  case (Cons g grps)
  obtain stu rs where g: "g = (stu, rs)" by (cases g)
  obtain ac es msgs lg where rest: "rest = (ac, es, msgs, lg)" by (rule prod_cases4)
  have rs: "rs \<noteq> []" using Cons.prems(1) g by simp
  let ?rows1 = "fold (\<lambda>res rows'. save rows' (res\<lparr>status := Cancelled\<rparr>)) rs rows"
  have uq_rs: "\<forall>m \<in> set rs. rid m = rid x \<longrightarrow> m = x" using Cons.prems(4) g by simp
  have uq: "\<forall>g \<in> set grps. \<forall>m \<in> set (snd g). rid m = rid x \<longrightarrow> m = x"
    using Cons.prems(4) by simp
  have all: "\<forall>g \<in> set grps. snd g \<noteq> []" using Cons.prems(1) by simp
  have "x\<lparr>status := Cancelled\<rparr> \<in> set ?rows1"
    by (rule fold_save_stays[where f = "\<lambda>r. r\<lparr>status := Cancelled\<rparr>", OF _ Cons.prems(3) uq_rs])
       simp
  then have in1: "x\<lparr>status := Cancelled\<rparr> \<in> set (?rows1 @
        [(new_reservation seq (new_uuid stu) stu (key_of (hd rs)) Cancelled now True)
              \<lparr>cancelled_seats_info := map key_of rs\<rparr>])" by simp
  from Cons.prems(2) have f: "fold (cancel_student_group new_uuid mail_ok now) grps
      ((?rows1 @ [(new_reservation seq (new_uuid stu) stu (key_of (hd rs)) Cancelled now True)
              \<lparr>cancelled_seats_info := map key_of rs\<rparr>], seq + 1),
       ac + length rs, (if mail_ok stu then es + 1 else es),
       (if mail_ok stu then msgs else msgs @ [MailFailed stu]),
       lg @ [(CancelNotice stu (map key_of rs), mail_ok stu)])
        = ((rows', seq'), rest')"
    using g rest cancel_student_group_eq[OF rs, of new_uuid mail_ok now stu rows seq ac es msgs lg]
    by simp
  from Cons.IH[OF all f in1 uq] show ?case .
qed

lemma fold_groups_member:
  "\<forall>g \<in> set grps. snd g \<noteq> [] \<Longrightarrow>
   fold (cancel_student_group new_uuid mail_ok now) grps ((rows, seq), rest)
     = ((rows', seq'), rest') \<Longrightarrow>
   \<exists>g \<in> set grps. x \<in> set (snd g) \<Longrightarrow> rid x \<in> rid ` set rows \<Longrightarrow>
   \<forall>g \<in> set grps. \<forall>m \<in> set (snd g). rid m = rid x \<longrightarrow> m = x \<Longrightarrow>
   x\<lparr>status := Cancelled\<rparr> \<in> set rows'"
proof (induction grps arbitrary: rows seq rest)
  case Nil
  then show ?case by simp
next
  case (Cons g grps)
  obtain stu rs where g: "g = (stu, rs)" by (cases g)
  obtain ac es msgs lg where rest: "rest = (ac, es, msgs, lg)" by (rule prod_cases4)
  have rs: "rs \<noteq> []" using Cons.prems(1) g by simp
  have all: "\<forall>g \<in> set grps. snd g \<noteq> []" using Cons.prems(1) by simp
  have uq: "\<forall>g \<in> set grps. \<forall>m \<in> set (snd g). rid m = rid x \<longrightarrow> m = x" using Cons.prems(5) by simp
  let ?rows1 = "fold (\<lambda>res rows'. save rows' (res\<lparr>status := Cancelled\<rparr>)) rs rows"
  let ?rec = "(new_reservation seq (new_uuid stu) stu (key_of (hd rs)) Cancelled now True)
              \<lparr>cancelled_seats_info := map key_of rs\<rparr>"
  from Cons.prems(2) have f: "fold (cancel_student_group new_uuid mail_ok now) grps
      ((?rows1 @ [?rec], seq + 1), ac + length rs, (if mail_ok stu then es + 1 else es),
       (if mail_ok stu then msgs else msgs @ [MailFailed stu]),
       lg @ [(CancelNotice stu (map key_of rs), mail_ok stu)])
        = ((rows', seq'), rest')"
    using g rest cancel_student_group_eq[OF rs, of new_uuid mail_ok now stu rows seq ac es msgs lg]
    by simp
  show ?case
  proof (cases "x \<in> set rs")
    case True
    have uq_rs: "\<forall>m \<in> set rs. rid m = rid x \<longrightarrow> m = x" using Cons.prems(5) g by simp
    have "x\<lparr>status := Cancelled\<rparr> \<in> set ?rows1"
      by (rule fold_save_member[where f = "\<lambda>r. r\<lparr>status := Cancelled\<rparr>",
                OF _ True Cons.prems(4) uq_rs]) simp
    then have "x\<lparr>status := Cancelled\<rparr> \<in> set (?rows1 @ [?rec])" by simp
    from fold_groups_stays[OF all f this uq] show ?thesis .
  next
    case False
    then have ex: "\<exists>g \<in> set grps. x \<in> set (snd g)" using Cons.prems(3) g by auto
    have "map rid ?rows1 = map rid rows" by (rule fold_save_inv(2)) simp_all
    then have "set (map rid ?rows1) = set (map rid rows)" by simp
    then have "rid ` set ?rows1 = rid ` set rows" by (simp only: set_map)
    then have "rid x \<in> rid ` set (?rows1 @ [?rec])"
      using Cons.prems(4) by (simp add: image_Un)
    from Cons.IH[OF all f ex this uq] show ?thesis .
  qed
qed

lemma distinct_first_occurrences: "distinct (first_occurrences xs)"
  by (simp add: first_occurrences_def)

lemma set_first_occurrences: "set (first_occurrences xs) = set xs"
  by (simp add: first_occurrences_def)

lemma filter_eq_singleton: "distinct xs \<Longrightarrow> a \<in> set xs \<Longrightarrow> filter (\<lambda>y. y = a) xs = [a]"
proof (induction xs)
  case Nil
  then show ?case by simp
next
  case (Cons y ys)
  show ?case
  proof (cases "y = a")
    case True
    then have "a \<notin> set ys" using Cons.prems(1) by simp
    then have "filter (\<lambda>y. y = a) ys = []" by (auto simp: filter_empty_conv)
    then show ?thesis using True by simp
  next
    case False
    then show ?thesis using Cons by simp
  qed
qed

lemma student_groups_nonempty: "\<forall>g \<in> set (student_groups al). snd g \<noteq> []"
  by (auto simp: student_groups_def set_first_occurrences filter_empty_conv)

lemma student_groups_fst: "map fst (student_groups al) = first_occurrences (map student al)"
  by (simp add: student_groups_def comp_def)

lemma student_groups_member: "x \<in> set al \<Longrightarrow> \<exists>g \<in> set (student_groups al). x \<in> set (snd g)"
  by (auto simp: student_groups_def set_first_occurrences)

lemma student_groups_subset: "g \<in> set (student_groups al) \<Longrightarrow> m \<in> set (snd g) \<Longrightarrow> m \<in> set al"
  by (auto simp: student_groups_def)

lemma student_groups_attempts:
  assumes "x \<in> set al"
  shows "attempts (student x)
           (map (\<lambda>g. (CancelNotice (fst g) (map key_of (snd g)), mail_ok (fst g))) (student_groups al))
         = [(CancelNotice (student x) (map key_of (filter (\<lambda>r. student r = student x) al)),
             mail_ok (student x))]"
proof -
  have in_set: "student x \<in> set (first_occurrences (map student al))"
    using assms by (simp add: set_first_occurrences)
  have "attempts (student x)
           (map (\<lambda>g. (CancelNotice (fst g) (map key_of (snd g)), mail_ok (fst g))) (student_groups al))
        = map (\<lambda>s. (CancelNotice s (map key_of (filter (\<lambda>r. student r = s) al)), mail_ok s))
            (filter (\<lambda>s. s = student x) (first_occurrences (map student al)))"
    by (simp add: attempts_def student_groups_def filter_map comp_def)
  then show ?thesis
    by (simp add: filter_eq_singleton[OF distinct_first_occurrences in_set])
qed

text \<open>
  The two loops of a cancellation, for an approved reservation \<open>x\<close> to cancel whose
  student's mail fails.
\<close>

lemma cancel_groups_failure:
  assumes dist: "distinct (map rid rows)"
    and sub: "set al \<subseteq> set rows"
    and x: "x \<in> set al" "\<not> mail_ok (student x)"
    and f0: "fold cancel_pending_seat ks (rows, 0) = (rows0, pc)"
    and f1: "fold (cancel_student_group new_uuid mail_ok now) (student_groups al)
               ((rows0, seq), 0, 0, [], []) = ((rows1, seq1), ac, es, ms, lg1)"
  shows "MailFailed (student x) \<in> set ms"
    and "attempts (student x) lg1
           = [(CancelNotice (student x) (map key_of (filter (\<lambda>r. student r = student x) al)),
               False)]"
    and "x\<lparr>status := Cancelled\<rparr> \<in> set rows1"
proof -
  from fold_groups_log[OF student_groups_nonempty f1]
  have lg1: "lg1 = map (\<lambda>g. (CancelNotice (fst g) (map key_of (snd g)), mail_ok (fst g)))
                     (student_groups al)"
    and ms: "ms = map MailFailed (filter (\<lambda>s. \<not> mail_ok s) (map fst (student_groups al)))"
    by simp_all
  have "student x \<in> set (map fst (student_groups al))"
    using x(1) by (simp only: student_groups_fst set_first_occurrences) simp
  then show "MailFailed (student x) \<in> set ms" using x(2) unfolding ms by simp
  show "attempts (student x) lg1
           = [(CancelNotice (student x) (map key_of (filter (\<lambda>r. student r = student x) al)),
               False)]"
    unfolding lg1 using student_groups_attempts[OF x(1), of mail_ok] x(2) by simp
  have ids: "map rid rows0 = map rid rows"
    using fold_cancel_pending_inv[OF f0] by simp
  have "rid x \<in> set (map rid rows)" using x(1) sub by auto
  then have "rid x \<in> set (map rid rows0)" by (simp only: ids)
  then have in0: "rid x \<in> rid ` set rows0" by simp
  have uq: "\<forall>g \<in> set (student_groups al). \<forall>m \<in> set (snd g). rid m = rid x \<longrightarrow> m = x"
  proof (intro ballI impI)
    fix g m
    assume "g \<in> set (student_groups al)" "m \<in> set (snd g)" "rid m = rid x"
    then have "m \<in> set al" using student_groups_subset by blast
    then have "m \<in> set rows" using sub by auto
    moreover have "x \<in> set rows" using x(1) sub by auto
    ultimately show "m = x" using dist \<open>rid m = rid x\<close> by (rule_tac rid_inj_rows)
  qed
  from fold_groups_member[OF student_groups_nonempty f1 student_groups_member[OF x(1)] in0 uq]
  show "x\<lparr>status := Cancelled\<rparr> \<in> set rows1" .
qed

lemma cancel_selected_mail_failure:
  assumes dist: "distinct (map rid (reservations d))"
    and sub: "set sel \<subseteq> set (reservations d)"
    and x: "x \<in> set sel" "status x = Approved" "\<not> mail_ok (student x)"
    and run: "cancel_selected now new_uuid mail_ok d True sel = (((p, msgs), lg), d')"
  shows "p = Redirected"
    and "MailFailed (student x) \<in> set msgs"
    and "attempts (student x) lg
           = [(CancelNotice (student x)
                 (map key_of (filter (\<lambda>r. student r = student x \<and> status r = Approved) sel)), False)]"
    and "x\<lparr>status := Cancelled\<rparr> \<in> set (reservations d')"
proof -
  let ?al = "filter (\<lambda>r. status r = Approved) sel"
  let ?ks = "remdups (map key_of (filter (\<lambda>r. status r = Pending) sel))"
  have xal: "x \<in> set ?al" using x by simp
  have sub': "set ?al \<subseteq> set (reservations d)" using sub by auto
  obtain rows0 pc where f0: "fold cancel_pending_seat ?ks (reservations d, 0) = (rows0, pc)"
    by (cases "fold cancel_pending_seat ?ks (reservations d, 0)")
  obtain rows1 seq rest1 where
    f1': "fold (cancel_student_group new_uuid mail_ok now) (student_groups ?al)
           ((rows0, reservation_seq d), 0, 0, [], []) = ((rows1, seq), rest1)"
    by (rule pair_pair_exhaust)
  obtain ac es ms lg1 where rest1: "rest1 = (ac, es, ms, lg1)" by (rule prod_cases4)
  have f1: "fold (cancel_student_group new_uuid mail_ok now) (student_groups ?al)
           ((rows0, reservation_seq d), 0, 0, [], []) = ((rows1, seq), ac, es, ms, lg1)"
    using f1' rest1 by simp
  have run': "cancel_selected now new_uuid mail_ok d True sel =
     (((Redirected,
        ms @ (if pc + ac > 0 then [CancelSummary (pc + ac) pc es] else [])
           @ (if filter (\<lambda>r. status r = Approved \<and> \<not> True) sel \<noteq> []
              then [CannotCancel (length (filter (\<lambda>r. status r = Approved \<and> \<not> True) sel))]
              else [])),
       lg1),
      d\<lparr>reservations := rows1, reservation_seq := seq\<rparr>)"
    using f0 f1 by (simp add: cancel_selected_def Let_def)
  from run run' have p: "p = Redirected" and lg: "lg = lg1"
    and d': "reservations d' = rows1"
    and msgs: "set ms \<subseteq> set msgs"
    by auto
  note r = cancel_groups_failure[OF dist sub' xal x(3) f0 f1]
  show "p = Redirected" by (rule p)
  show "MailFailed (student x) \<in> set msgs" using r(1) msgs by blast
  have "filter (\<lambda>r. student r = student x) ?al
          = filter (\<lambda>r. student r = student x \<and> status r = Approved) sel"
    by (simp add: conj_commute)
  then show "attempts (student x) lg
           = [(CancelNotice (student x)
                 (map key_of (filter (\<lambda>r. student r = student x \<and> status r = Approved) sel)), False)]"
    unfolding lg using r(2) by simp
  show "x\<lparr>status := Cancelled\<rparr> \<in> set (reservations d')" using r(3) by (simp only: d')
qed

text \<open>\<open>admin_cancel_view\<close>.\<close>

lemma admin_cancel_view_mail_failure:
  assumes "distinct (map rid (reservations d))"
    and "admin_prologue cfg now d rq = Inr (slot_id, req_date_obj, curr_cls)"
    and "ar_post rq" "ar_reservation_ids rq = Some res_ids_str"
    and "parse_ids (split_on (CHR '','') res_ids_str) = Some res_ids"
    and "list_all db_int res_ids"
    and "\<not> deadline_passed cfg now req_date_obj slot_id"
    and "x \<in> set (reservations d)" "rid x \<in> set res_ids" "status x = Approved"
    and "\<not> mail_ok (student x)"
  shows "fst (fst (fst (admin_cancel_view cfg now new_uuid mail_ok d rq))) = Redirected
       \<and> MailFailed (student x) \<in> set (snd (fst (fst (admin_cancel_view cfg now new_uuid mail_ok d rq))))
       \<and> attempts (student x) (snd (fst (admin_cancel_view cfg now new_uuid mail_ok d rq)))
         = [(CancelNotice (student x)
               (map key_of (filter (\<lambda>r. student r = student x \<and> status r = Approved
                                        \<and> rid r \<in> set res_ids) (reservations d))),
             False)]
       \<and> x\<lparr>status := Cancelled\<rparr>
           \<in> set (reservations (snd (admin_cancel_view cfg now new_uuid mail_ok d rq)))"
proof -
  let ?sel = "filter (\<lambda>r. rid r \<in> set res_ids \<and> status r \<in> {Pending, Approved}) (reservations d)"
  have ne: "res_ids_str \<noteq> []"
  proof
    assume "res_ids_str = []"
    then have "res_ids = []" using assms(5) by (simp add: strip_def)
    then show False using assms(9) by simp
  qed
  have xs: "x \<in> set ?sel" using assms(8,9,10) by simp
  then have sne: "?sel \<noteq> []" by (metis empty_iff empty_set)
  have view: "admin_cancel_view cfg now new_uuid mail_ok d rq
                = cancel_selected now new_uuid mail_ok d True ?sel"
    unfolding admin_cancel_view_def Let_def using assms(2,3,4,5,6,7) ne sne by simp
  obtain a d' where a: "cancel_selected now new_uuid mail_ok d True ?sel = (a, d')"
    by (rule prod.exhaust)
  obtain p msgs lg where "a = ((p, msgs), lg)" by (rule pair_pair_exhaust)
  with a have run: "cancel_selected now new_uuid mail_ok d True ?sel = (((p, msgs), lg), d')"
    by simp
  have sub: "set ?sel \<subseteq> set (reservations d)" by auto
  note r = cancel_selected_mail_failure[OF assms(1) sub xs assms(10) assms(11) run]
  have flt: "filter (\<lambda>r. student r = student x \<and> status r = Approved) ?sel
        = filter (\<lambda>r. student r = student x \<and> status r = Approved \<and> rid r \<in> set res_ids)
            (reservations d)"
    by (auto intro: filter_cong)
  show ?thesis
    unfolding view run using r(1) r(2) r(3) r(4) flt by simp
qed

text \<open>The action \<open>cancel_reservations\<close> of the administration site.\<close>

lemma cancel_reservations_mail_failure:
  assumes "distinct (map rid (reservations d))"
    and "x \<in> set (reservations d)" "rid x \<in> set selected" "status x = Approved"
    and "\<not> deadline_passed cfg now (date x) (time_slot x)"
    and "\<not> mail_ok (student x)"
  shows "MailFailed (student x) \<in> set (fst (fst (cancel_reservations cfg now new_uuid mail_ok d selected)))
       \<and> attempts (student x) (snd (fst (cancel_reservations cfg now new_uuid mail_ok d selected)))
         = [(CancelNotice (student x)
               (map key_of (rev (filter (\<lambda>r. student r = student x \<and> status r = Approved
                                        \<and> \<not> deadline_passed cfg now (date r) (time_slot r)
                                        \<and> rid r \<in> set selected) (reservations d)))),
             False)]
       \<and> x\<lparr>status := Cancelled\<rparr>
           \<in> set (reservations (snd (cancel_reservations cfg now new_uuid mail_ok d selected)))"
proof -
  let ?valid = "rev (filter (\<lambda>r. rid r \<in> set selected \<and> status r \<in> {Pending, Approved})
                       (reservations d))"
  let ?al = "filter (\<lambda>r. status r = Approved \<and> \<not> deadline_passed cfg now (date r) (time_slot r))
               ?valid"
  let ?ks = "remdups (map key_of (filter (\<lambda>r. status r = Pending) ?valid))"
  have xal: "x \<in> set ?al" using assms(2,3,4,5) by simp
  then have alne: "?al \<noteq> []" by (metis empty_iff empty_set)
  have vne: "?valid \<noteq> []" using xal by (metis empty_iff empty_set filter.simps(1))
  have sub: "set ?al \<subseteq> set (reservations d)" by auto
  obtain rows0 pc where f0: "fold cancel_pending_seat ?ks (reservations d, 0) = (rows0, pc)"
    by (cases "fold cancel_pending_seat ?ks (reservations d, 0)")
  obtain rows1 seq rest1 where
    f1': "fold (cancel_student_group new_uuid mail_ok now) (student_groups ?al)
           ((rows0, reservation_seq d), 0, 0, [], []) = ((rows1, seq), rest1)"
    by (rule pair_pair_exhaust)
  obtain ac es ms lg1 where rest1: "rest1 = (ac, es, ms, lg1)" by (rule prod_cases4)
  have f1: "fold (cancel_student_group new_uuid mail_ok now) (student_groups ?al)
           ((rows0, reservation_seq d), 0, 0, [], []) = ((rows1, seq), ac, es, ms, lg1)"
    using f1' rest1 by simp
  have run: "\<exists>warned. cancel_reservations cfg now new_uuid mail_ok d selected =
     ((warned @ ms @ [AdminCancelSummary (pc + ac) pc es], lg1),
      d\<lparr>reservations := rows1, reservation_seq := seq\<rparr>)"
    unfolding cancel_reservations_def Let_def using vne alne f0 f1 by simp
  note r = cancel_groups_failure[OF assms(1) sub xal assms(6) f0 f1]
  have flt: "filter (\<lambda>r. student r = student x) ?al
        = rev (filter (\<lambda>r. student r = student x \<and> status r = Approved
                            \<and> \<not> deadline_passed cfg now (date r) (time_slot r)
                            \<and> rid r \<in> set selected) (reservations d))"
    unfolding rev_filter[symmetric] filter_filter
    by (rule arg_cong[where f = rev], rule filter_cong) auto
  from run obtain warned where run': "cancel_reservations cfg now new_uuid mail_ok d selected =
     ((warned @ ms @ [AdminCancelSummary (pc + ac) pc es], lg1),
      d\<lparr>reservations := rows1, reservation_seq := seq\<rparr>)" by blast
  show ?thesis
    unfolding run' using r flt by simp
qed

text \<open>The mail of \<open>submit\<close> to the administrator.\<close>

lemma submit_mail_failure:
  assumes "get_student (students d) (rq_sid rq) = Some stu"
    and "fst (fst (submit cfg now bid True d rq)) = InfoSuccess n"
  shows "submit cfg now bid False d rq
           = ((InfoError (SystemError MailError), [(BookingRequestMail (stu_pk stu) n, False)]),
              snd (submit cfg now bid True d rq))"
proof -
  have post: "rq_post rq" using assms(2) by (auto simp: submit_def split: if_splits)
  have "submit_prechecks cfg now d rq \<noteq> Inl resp" for resp
  proof
    assume l: "submit_prechecks cfg now d rq = Inl resp"
    from prechecks_Inl_unchanged[OF post l, of bid True] prechecks_Inl_error[OF l] assms(2)
    show False by auto
  qed
  then obtain ok where pre: "submit_prechecks cfg now d rq = Inr ok"
    by (cases "submit_prechecks cfg now d rq") auto
  obtain stu' slot date_str seats_list where ok: "ok = (stu', slot, date_str, seats_list)"
    by (cases ok) auto
  have stu': "stu' = stu"
    using pre ok assms(1)
    by (auto simp: submit_prechecks_def Let_def split: option.splits if_splits)
  show ?thesis
    using assms(2) post pre ok stu'
    by (auto simp: submit_def split: sum.splits prod.splits if_splits)
qed

text \<open>The mail of \<open>admin_action\<close> to the student whose promotion is decided.\<close>

lemma admin_action_stu_mail_failure:
  assumes "find (\<lambda>s. stu_pk s = stu_id) (students d) = Some stu"
    and "action = ''promote'' \<or> action = ''reject''"
  shows "admin_action_stu now remote_user False d stu_id action
           = ((fst (fst (admin_action_stu now remote_user True d stu_id action)),
               [(PromotionDecisionMail stu_id (action = ''promote''), False)]),
              snd (admin_action_stu now remote_user True d stu_id action))"
  using assms by (auto simp: admin_action_stu_def)

text \<open>The mails of \<open>apply_promotion\<close> and \<open>reset_request\<close>, which nothing catches.\<close>

lemma apply_promotion_mail_failure:
  assumes "get_student (students d) sid = Some stu"
    and "fst (fst (apply_promotion d sid True)) = PromotionSubmitted"
  shows "apply_promotion d sid False
           = ((PromotionCrashed MailError, [(PromotionRequestMail (stu_pk stu), False)]),
              snd (apply_promotion d sid True))"
  using assms by (auto simp: apply_promotion_def Let_def split: if_splits)

lemma reset_request_mail_failure:
  assumes "find (\<lambda>s. Some (student_id s) = sid) (students d) = Some stu"
    and "fst (reset_request d post sid new_password True) = ResetMailSent"
  shows "reset_request d post sid new_password False
           = (ResetCrashed MailError, [(ResetMail (stu_pk stu), False)])"
  using assms by (auto simp: reset_request_def split: if_splits)

text \<open>The mails of \<open>send_access_codes\<close>.\<close>

lemma ac_key_notified [simp]: "ac_key (a\<lparr>notified := b\<rparr>) = ac_key a"
  by (simp add: ac_key_def)

lemma get_or_create_code_find:
  "get_or_create_code codes k new_code = (obj, codes1) \<Longrightarrow>
   find (\<lambda>a. ac_key a = k) codes1 = Some obj"
proof (cases "find (\<lambda>a. ac_key a = k) codes")
  case None
  assume g: "get_or_create_code codes k new_code = (obj, codes1)"
  obtain cls dt slot where k: "k = (cls, dt, slot)" by (cases k)
  let ?a = "\<lparr>ac_classroom = cls, ac_date = dt, ac_time_slot = slot, code = new_code,
             notified = False\<rparr>"
  from g None k have e: "obj = ?a" "codes1 = codes @ [?a]"
    by (auto simp: get_or_create_code_def Let_def)
  have no: "\<forall>a \<in> set codes. ac_key a \<noteq> k" using None by (simp add: find_None_iff)
  have "find (\<lambda>a. ac_key a = k) (codes @ [?a]) = Some ?a"
    using no by (induction codes) (auto simp: ac_key_def k)
  then show ?thesis using e by simp
next
  case (Some a)
  assume "get_or_create_code codes k new_code = (obj, codes1)"
  then show ?thesis using Some by (simp add: get_or_create_code_def)
qed

lemma find_mark_notified:
  "find (\<lambda>a. ac_key a = k) codes = Some obj \<Longrightarrow>
   find (\<lambda>a. ac_key a = k) (mark_notified codes obj) = Some (obj\<lparr>notified := True\<rparr>)"
proof (induction codes)
  case Nil
  then show ?case by simp
next
  case (Cons a codes)
  show ?case
  proof (cases "ac_key a = k")
    case True
    then have "a = obj" using Cons.prems by simp
    then show ?thesis using True by (simp add: mark_notified_def)
  next
    case False
    then have f: "find (\<lambda>a. ac_key a = k) codes = Some obj" using Cons.prems by simp
    then have ko: "ac_key obj = k" by (auto dest: find_Some_iff[THEN iffD1])
    from Cons.IH[OF f] False ko show ?thesis by (simp add: mark_notified_def)
  qed
qed

lemma notify_classroom_mail_failure:
  assumes "x \<in> set rows" "classroom x = cls_pk cls" "date x = today" "time_slot x = slot_id"
    "status x = Approved"
    and "get_or_create_code codes (cls_pk cls, today, slot_id)
           (generate_access_code cfg (rnd (cls_pk cls) slot_id)) = (obj, codes1)"
    and "\<not> notified obj"
  shows "attempts (student x)
           (snd (notify_classroom cfg False today rnd mail_ok rows slot_id cls (codes, [])))
         = [(AccessCodeMail (student x) (cls_pk cls) today slot_id (code obj)
               (map (\<lambda>r. (seat_row r + 1, seat_col r + 1))
                  (filter (\<lambda>r. student r = student x \<and> classroom r = cls_pk cls \<and> date r = today
                                \<and> time_slot r = slot_id \<and> status r = Approved) rows)),
             mail_ok (student x))]"
    and "snd (notify_classroom cfg dry_run' today rnd' mail_ok' rows' slot_id cls
                (fst (notify_classroom cfg False today rnd mail_ok rows slot_id cls (codes, [])), log'))
           = log'"
proof -
  let ?ap = "filter (\<lambda>r. classroom r = cls_pk cls \<and> date r = today
                         \<and> time_slot r = slot_id \<and> status r = Approved) rows"
  have xap: "x \<in> set ?ap" using assms(1-5) by simp
  then have ne: "?ap \<noteq> []" by (metis empty_iff empty_set)
  have run: "notify_classroom cfg False today rnd mail_ok rows slot_id cls (codes, [])
               = (mark_notified codes1 obj,
                  map (\<lambda>(s, seats). (AccessCodeMail s (cls_pk cls) today slot_id (code obj) seats,
                                       mail_ok s))
                    (map (\<lambda>s. (s, map (\<lambda>r. (seat_row r + 1, seat_col r + 1))
                                     (filter (\<lambda>r. student r = s) ?ap)))
                       (first_occurrences (map student ?ap))))"
    using assms(6,7) ne by (simp add: notify_classroom_def Let_def)
  have in_set: "student x \<in> set (first_occurrences (map student ?ap))"
    using xap by (simp only: set_first_occurrences) simp
  have "attempts (student x)
          (snd (notify_classroom cfg False today rnd mail_ok rows slot_id cls (codes, [])))
        = map (\<lambda>s. (AccessCodeMail s (cls_pk cls) today slot_id (code obj)
                       (map (\<lambda>r. (seat_row r + 1, seat_col r + 1)) (filter (\<lambda>r. student r = s) ?ap)),
                     mail_ok s))
            (filter (\<lambda>s. s = student x) (first_occurrences (map student ?ap)))"
    unfolding run by (simp add: attempts_def filter_map comp_def)
  also have "\<dots> = [(AccessCodeMail (student x) (cls_pk cls) today slot_id (code obj)
               (map (\<lambda>r. (seat_row r + 1, seat_col r + 1)) (filter (\<lambda>r. student r = student x) ?ap)),
             mail_ok (student x))]"
    by (simp add: filter_eq_singleton[OF distinct_first_occurrences in_set])
  also have "filter (\<lambda>r. student r = student x) ?ap
               = filter (\<lambda>r. student r = student x \<and> classroom r = cls_pk cls \<and> date r = today
                                \<and> time_slot r = slot_id \<and> status r = Approved) rows"
    by (auto intro: filter_cong)
  finally show "attempts (student x)
           (snd (notify_classroom cfg False today rnd mail_ok rows slot_id cls (codes, [])))
         = [(AccessCodeMail (student x) (cls_pk cls) today slot_id (code obj)
               (map (\<lambda>r. (seat_row r + 1, seat_col r + 1))
                  (filter (\<lambda>r. student r = student x \<and> classroom r = cls_pk cls \<and> date r = today
                                \<and> time_slot r = slot_id \<and> status r = Approved) rows)),
             mail_ok (student x))]" .
  have f: "find (\<lambda>a. ac_key a = (cls_pk cls, today, slot_id)) (mark_notified codes1 obj)
             = Some (obj\<lparr>notified := True\<rparr>)"
    by (rule find_mark_notified[OF get_or_create_code_find[OF assms(6)]])
  show "snd (notify_classroom cfg dry_run' today rnd' mail_ok' rows' slot_id cls
                (fst (notify_classroom cfg False today rnd mail_ok rows slot_id cls (codes, [])), log'))
           = log'"
    unfolding run using f by (simp add: notify_classroom_def get_or_create_code_def)
qed

text \<open>
  Claim C8, as amended (a failing notification mail). Primary keys are unique. Wherever
  the program calls \<^verbatim>\<open>send_mail\<close> and the call fails, it has been made once and is
  not made again, and what was written before it stays written.
  \<^item> \<open>admin_cancel_view\<close>, for a selected approved reservation \<open>x\<close> inside the time
    window of the page: the view redirects with an error message naming the student;
    the only call for that student is the failed one, for all of the student's
    selected approved seats; \<open>x\<close> is stored as cancelled.
  \<^item> The action \<open>cancel_reservations\<close>, for a selected approved reservation whose
    deadline has not passed: the same.
  \<^item> \<open>submit\<close>: the answer is the error of the mail, after one call, and the database
    is the one of the successful submission.
  \<^item> \<open>admin_action\<close> on a promotion: the answer and the database are those of a
    delivered mail, after one call; nothing reports the failure.
  \<^item> \<open>apply_promotion\<close> and \<open>reset_request\<close>: the exception leaves the view after
    one call; the promotion request is stored.
  \<^item> \<open>send_access_codes\<close>, for a classroom and slot whose code is not yet notified
    and an approved reservation \<open>y\<close> of it: one call for the student of \<open>y\<close>,
    whatever its outcome, and no call for that classroom and slot in any later run.
\<close>

theorem mail_failure_handling:
  assumes "distinct (map rid (reservations d))"
  shows "(admin_prologue cfg now d arq = Inr (slot_id, req_date_obj, curr_cls)
            \<and> ar_post arq \<and> ar_reservation_ids arq = Some res_ids_str
            \<and> parse_ids (split_on (CHR '','') res_ids_str) = Some res_ids
            \<and> list_all db_int res_ids
            \<and> \<not> deadline_passed cfg now req_date_obj slot_id
            \<and> x \<in> set (reservations d) \<and> rid x \<in> set res_ids \<and> status x = Approved
            \<and> \<not> mail_ok_of (student x) \<longrightarrow>
          fst (fst (fst (admin_cancel_view cfg now new_uuid mail_ok_of d arq))) = Redirected
          \<and> MailFailed (student x)
              \<in> set (snd (fst (fst (admin_cancel_view cfg now new_uuid mail_ok_of d arq))))
          \<and> flash_level (MailFailed (student x)) = LError
          \<and> attempts (student x) (snd (fst (admin_cancel_view cfg now new_uuid mail_ok_of d arq)))
            = [(CancelNotice (student x)
                  (map key_of (filter (\<lambda>r. student r = student x \<and> status r = Approved
                                           \<and> rid r \<in> set res_ids) (reservations d))),
                False)]
          \<and> x\<lparr>status := Cancelled\<rparr>
              \<in> set (reservations (snd (admin_cancel_view cfg now new_uuid mail_ok_of d arq))))
       \<and> (x \<in> set (reservations d) \<and> rid x \<in> set selected \<and> status x = Approved
            \<and> \<not> deadline_passed cfg now (date x) (time_slot x)
            \<and> \<not> mail_ok_of (student x) \<longrightarrow>
          MailFailed (student x)
              \<in> set (fst (fst (cancel_reservations cfg now new_uuid mail_ok_of d selected)))
          \<and> attempts (student x)
               (snd (fst (cancel_reservations cfg now new_uuid mail_ok_of d selected)))
            = [(CancelNotice (student x)
                  (map key_of (rev (filter (\<lambda>r. student r = student x \<and> status r = Approved
                                           \<and> \<not> deadline_passed cfg now (date r) (time_slot r)
                                           \<and> rid r \<in> set selected) (reservations d)))),
                False)]
          \<and> x\<lparr>status := Cancelled\<rparr>
              \<in> set (reservations (snd (cancel_reservations cfg now new_uuid mail_ok_of d selected))))
       \<and> (get_student (students d) (rq_sid rq) = Some stu
            \<and> fst (fst (submit cfg now bid True d rq)) = InfoSuccess n \<longrightarrow>
          submit cfg now bid False d rq
            = ((InfoError (SystemError MailError), [(BookingRequestMail (stu_pk stu) n, False)]),
               snd (submit cfg now bid True d rq)))
       \<and> (find (\<lambda>s. stu_pk s = stu_id) (students d) = Some stu'
            \<and> (action = ''promote'' \<or> action = ''reject'') \<longrightarrow>
          admin_action_stu now remote_user False d stu_id action
            = ((fst (fst (admin_action_stu now remote_user True d stu_id action)),
                [(PromotionDecisionMail stu_id (action = ''promote''), False)]),
               snd (admin_action_stu now remote_user True d stu_id action)))
       \<and> (get_student (students d) sid = Some applicant
            \<and> fst (fst (apply_promotion d sid True)) = PromotionSubmitted \<longrightarrow>
          apply_promotion d sid False
            = ((PromotionCrashed MailError, [(PromotionRequestMail (stu_pk applicant), False)]),
               snd (apply_promotion d sid True)))
       \<and> (find (\<lambda>s. Some (student_id s) = reset_sid) (students d) = Some forgetful
            \<and> fst (reset_request d post reset_sid new_password True) = ResetMailSent \<longrightarrow>
          reset_request d post reset_sid new_password False
            = (ResetCrashed MailError, [(ResetMail (stu_pk forgetful), False)]))
       \<and> (y \<in> set (reservations d) \<and> classroom y = cls_pk cls \<and> date y = today
            \<and> time_slot y = slot \<and> status y = Approved
            \<and> get_or_create_code (access_codes d) (cls_pk cls, today, slot)
                (generate_access_code cfg (rnd (cls_pk cls) slot)) = (obj, codes1)
            \<and> \<not> notified obj \<longrightarrow>
          attempts (student y)
             (snd (notify_classroom cfg False today rnd mail_ok_of (reservations d) slot cls
                     (access_codes d, [])))
            = [(AccessCodeMail (student y) (cls_pk cls) today slot (code obj)
                  (map (\<lambda>r. (seat_row r + 1, seat_col r + 1))
                     (filter (\<lambda>r. student r = student y \<and> classroom r = cls_pk cls
                                   \<and> date r = today \<and> time_slot r = slot \<and> status r = Approved)
                        (reservations d))),
                mail_ok_of (student y))]
          \<and> snd (notify_classroom cfg later_dry_run today later_rnd later_mail_ok later_rows slot cls
                    (fst (notify_classroom cfg False today rnd mail_ok_of (reservations d) slot cls
                            (access_codes d, [])), later_log))
              = later_log)"
proof (intro conjI impI)
  assume h: "admin_prologue cfg now d arq = Inr (slot_id, req_date_obj, curr_cls)
            \<and> ar_post arq \<and> ar_reservation_ids arq = Some res_ids_str
            \<and> parse_ids (split_on (CHR '','') res_ids_str) = Some res_ids
            \<and> list_all db_int res_ids
            \<and> \<not> deadline_passed cfg now req_date_obj slot_id
            \<and> x \<in> set (reservations d) \<and> rid x \<in> set res_ids \<and> status x = Approved
            \<and> \<not> mail_ok_of (student x)"
  then have r: "fst (fst (fst (admin_cancel_view cfg now new_uuid mail_ok_of d arq))) = Redirected
       \<and> MailFailed (student x)
           \<in> set (snd (fst (fst (admin_cancel_view cfg now new_uuid mail_ok_of d arq))))
       \<and> attempts (student x) (snd (fst (admin_cancel_view cfg now new_uuid mail_ok_of d arq)))
         = [(CancelNotice (student x)
               (map key_of (filter (\<lambda>r. student r = student x \<and> status r = Approved
                                        \<and> rid r \<in> set res_ids) (reservations d))),
             False)]
       \<and> x\<lparr>status := Cancelled\<rparr>
           \<in> set (reservations (snd (admin_cancel_view cfg now new_uuid mail_ok_of d arq)))"
    using admin_cancel_view_mail_failure[OF assms, of cfg now arq slot_id req_date_obj curr_cls
        res_ids_str res_ids x mail_ok_of new_uuid] by blast
  from r show "fst (fst (fst (admin_cancel_view cfg now new_uuid mail_ok_of d arq))) = Redirected"
    by blast
  from r show "MailFailed (student x)
           \<in> set (snd (fst (fst (admin_cancel_view cfg now new_uuid mail_ok_of d arq))))" by blast
  show "flash_level (MailFailed (student x)) = LError" by simp
  from r show "attempts (student x) (snd (fst (admin_cancel_view cfg now new_uuid mail_ok_of d arq)))
         = [(CancelNotice (student x)
               (map key_of (filter (\<lambda>r. student r = student x \<and> status r = Approved
                                        \<and> rid r \<in> set res_ids) (reservations d))),
             False)]" by blast
  from r show "x\<lparr>status := Cancelled\<rparr>
           \<in> set (reservations (snd (admin_cancel_view cfg now new_uuid mail_ok_of d arq)))" by blast
next
  assume h: "x \<in> set (reservations d) \<and> rid x \<in> set selected \<and> status x = Approved
            \<and> \<not> deadline_passed cfg now (date x) (time_slot x)
            \<and> \<not> mail_ok_of (student x)"
  then have r: "MailFailed (student x)
              \<in> set (fst (fst (cancel_reservations cfg now new_uuid mail_ok_of d selected)))
          \<and> attempts (student x)
               (snd (fst (cancel_reservations cfg now new_uuid mail_ok_of d selected)))
            = [(CancelNotice (student x)
                  (map key_of (rev (filter (\<lambda>r. student r = student x \<and> status r = Approved
                                           \<and> \<not> deadline_passed cfg now (date r) (time_slot r)
                                           \<and> rid r \<in> set selected) (reservations d)))),
                False)]
          \<and> x\<lparr>status := Cancelled\<rparr>
              \<in> set (reservations (snd (cancel_reservations cfg now new_uuid mail_ok_of d selected)))"
    using cancel_reservations_mail_failure[OF assms, of x selected cfg now mail_ok_of new_uuid]
    by blast
  from r show "MailFailed (student x)
              \<in> set (fst (fst (cancel_reservations cfg now new_uuid mail_ok_of d selected)))"
    by blast
  from r show "attempts (student x)
               (snd (fst (cancel_reservations cfg now new_uuid mail_ok_of d selected)))
            = [(CancelNotice (student x)
                  (map key_of (rev (filter (\<lambda>r. student r = student x \<and> status r = Approved
                                           \<and> \<not> deadline_passed cfg now (date r) (time_slot r)
                                           \<and> rid r \<in> set selected) (reservations d)))),
                False)]" by blast
  from r show "x\<lparr>status := Cancelled\<rparr>
              \<in> set (reservations (snd (cancel_reservations cfg now new_uuid mail_ok_of d selected)))"
    by blast
next
  assume "get_student (students d) (rq_sid rq) = Some stu
            \<and> fst (fst (submit cfg now bid True d rq)) = InfoSuccess n"
  then show "submit cfg now bid False d rq
            = ((InfoError (SystemError MailError), [(BookingRequestMail (stu_pk stu) n, False)]),
               snd (submit cfg now bid True d rq))"
    using submit_mail_failure by blast
next
  assume "find (\<lambda>s. stu_pk s = stu_id) (students d) = Some stu'
            \<and> (action = ''promote'' \<or> action = ''reject'')"
  then show "admin_action_stu now remote_user False d stu_id action
            = ((fst (fst (admin_action_stu now remote_user True d stu_id action)),
                [(PromotionDecisionMail stu_id (action = ''promote''), False)]),
               snd (admin_action_stu now remote_user True d stu_id action))"
    using admin_action_stu_mail_failure by blast
next
  assume "get_student (students d) sid = Some applicant
            \<and> fst (fst (apply_promotion d sid True)) = PromotionSubmitted"
  then show "apply_promotion d sid False
            = ((PromotionCrashed MailError, [(PromotionRequestMail (stu_pk applicant), False)]),
               snd (apply_promotion d sid True))"
    using apply_promotion_mail_failure by blast
next
  assume "find (\<lambda>s. Some (student_id s) = reset_sid) (students d) = Some forgetful
            \<and> fst (reset_request d post reset_sid new_password True) = ResetMailSent"
  then show "reset_request d post reset_sid new_password False
            = (ResetCrashed MailError, [(ResetMail (stu_pk forgetful), False)])"
    using reset_request_mail_failure by blast
next
  assume h: "y \<in> set (reservations d) \<and> classroom y = cls_pk cls \<and> date y = today
            \<and> time_slot y = slot \<and> status y = Approved
            \<and> get_or_create_code (access_codes d) (cls_pk cls, today, slot)
                (generate_access_code cfg (rnd (cls_pk cls) slot)) = (obj, codes1)
            \<and> \<not> notified obj"
  from h have h1: "y \<in> set (reservations d)" "classroom y = cls_pk cls" "date y = today"
    "time_slot y = slot" "status y = Approved"
    "get_or_create_code (access_codes d) (cls_pk cls, today, slot)
                (generate_access_code cfg (rnd (cls_pk cls) slot)) = (obj, codes1)"
    "\<not> notified obj" by blast+
  show "attempts (student y)
             (snd (notify_classroom cfg False today rnd mail_ok_of (reservations d) slot cls
                     (access_codes d, [])))
            = [(AccessCodeMail (student y) (cls_pk cls) today slot (code obj)
                  (map (\<lambda>r. (seat_row r + 1, seat_col r + 1))
                     (filter (\<lambda>r. student r = student y \<and> classroom r = cls_pk cls
                                   \<and> date r = today \<and> time_slot r = slot \<and> status r = Approved)
                        (reservations d))),
                mail_ok_of (student y))]"
    using h1 notify_classroom_mail_failure(1)[where x = y and rows = "reservations d" and cls = cls
        and today = today and slot_id = slot and codes = "access_codes d" and cfg = cfg
        and rnd = rnd and obj = obj and ?codes1.0 = codes1 and mail_ok = mail_ok_of]
    by blast
  show "snd (notify_classroom cfg later_dry_run today later_rnd later_mail_ok later_rows slot cls
                    (fst (notify_classroom cfg False today rnd mail_ok_of (reservations d) slot cls
                            (access_codes d, [])), later_log))
              = later_log"
    using h1 notify_classroom_mail_failure(2)[where x = y and rows = "reservations d" and cls = cls
        and today = today and slot_id = slot and codes = "access_codes d" and cfg = cfg
        and rnd = rnd and obj = obj and ?codes1.0 = codes1 and mail_ok = mail_ok_of
        and dry_run' = later_dry_run and rnd' = later_rnd and mail_ok' = later_mail_ok
        and rows' = later_rows and log' = later_log]
    by blast
qed

lemma admin_cancel_view_example:
  "admin_cancel_view cfg0 (combine 19999 12 0) (\<lambda>s. 90) (\<lambda>s. False) lock_db (rq_cancel ''1'')
     = (((Redirected, [MailFailed 2, CancelSummary 1 0 0]),
         [(CancelNotice 2 [(1, 0, 0, 20000, 1)], False)]),
        lock_db\<lparr>reservations :=
          [(new_reservation 1 80 2 (1, 0, 0, 20000, 1) Approved (combine 19999 12 0) False)
             \<lparr>status := Cancelled\<rparr>,
           new_reservation 2 81 1 (1, 0, 0, 20000, 1) Pending (combine 19999 12 0) False,
           (new_reservation 3 90 2 (1, 0, 0, 20000, 1) Cancelled (combine 19999 12 0) True)
             \<lparr>cancelled_seats_info := [(1, 0, 0, 20000, 1)]\<rparr>],
          reservation_seq := 4\<rparr>)"
proof -
  let ?now = "combine 19999 12 0"
  let ?x = "new_reservation 1 80 2 (1, 0, 0, 20000, 1) Approved (combine 19999 12 0) False"
  have e1: "admin_prologue cfg0 ?now lock_db (rq_cancel ''1'') = Inr (1, 20000, room)"
    by (simp add: admin_prologue_def rq_cancel_def lock_db_def db0_def room_def Let_def
          get_date_def iso_def py_int_def int_space_def strip_def isspace_def digit_of_def
          MAX_STR_DIGITS_def)
  have e3: "\<not> deadline_passed cfg0 ?now 20000 1" by (simp add: cfg0_def time_defs)
  have e5: "cancel_selected ?now (\<lambda>s. 90) (\<lambda>s. False) lock_db True [?x]
     = (((Redirected, [MailFailed 2, CancelSummary 1 0 0]),
         [(CancelNotice 2 [(1, 0, 0, 20000, 1)], False)]),
        lock_db\<lparr>reservations :=
          [?x\<lparr>status := Cancelled\<rparr>,
           new_reservation 2 81 1 (1, 0, 0, 20000, 1) Pending (combine 19999 12 0) False,
           (new_reservation 3 90 2 (1, 0, 0, 20000, 1) Cancelled ?now True)
             \<lparr>cancelled_seats_info := [(1, 0, 0, 20000, 1)]\<rparr>],
          reservation_seq := 4\<rparr>)"
    by (simp add: cancel_selected_def cancel_student_group_def student_groups_def
          first_occurrences_def
          lock_db_def lock_rows_def db0_def new_reservation_def key_of_def save_def Let_def)
  have e6: "ar_post (rq_cancel ''1'')" "ar_reservation_ids (rq_cancel ''1'') = Some ''1''"
    by (simp_all add: rq_cancel_def)
  have e7: "reservations lock_db = lock_rows" by (simp add: lock_db_def)
  show ?thesis
    by (simp add: admin_cancel_view_def Let_def e1 e6 e3 e5 e7 lock_rows_def db_int_def
          py_int_def int_space_def strip_def isspace_def digit_of_def MAX_STR_DIGITS_def)
qed

text \<open>
  The claim as first stated has the delivery retried and the failure reported as a flash
  message. The administrator cancels Bob's approved reservation and \<^verbatim>\<open>send_mail\<close>
  fails: it has been called once. The administrator follows the link that promotes
  Alice and \<^verbatim>\<open>send_mail\<close> fails: the answer is the page of a promotion, Alice is
  a manager, and nothing tells of the failure.
\<close>

theorem mail_failure_handling_counterexample:
  "snd (fst (admin_cancel_view cfg0 (combine 19999 12 0) (\<lambda>s. 90) (\<lambda>s. False) lock_db
               (rq_cancel ''1'')))
     = [(CancelNotice 2 [(1, 0, 0, 20000, 1)], False)]
   \<and> admin_action_stu (combine 19999 12 0) ''admin'' False db0 1 ''promote''
     = ((Promoted, [(PromotionDecisionMail 1 True, False)]),
        db0\<lparr>students := [alice\<lparr>role := Manager\<rparr>, bob]\<rparr>)
   \<and> fst (fst (admin_action_stu (combine 19999 12 0) ''admin'' True db0 1 ''promote'')) = Promoted"
  by (simp add: admin_cancel_view_example admin_action_stu_def decide_promotions_def db0_def
        alice_def bob_def)

text \<open>
  The same cancellation: the page redirects with the error message and the summary,
  Bob's reservation and the new cancellation record are cancelled, Alice's request is
  untouched.
\<close>

theorem mail_failure_handling_witness:
  "distinct (map rid (reservations lock_db))
   \<and> fst (admin_cancel_view cfg0 (combine 19999 12 0) (\<lambda>s. 90) (\<lambda>s. False) lock_db
               (rq_cancel ''1''))
     = ((Redirected, [MailFailed 2, CancelSummary 1 0 0]),
        [(CancelNotice 2 [(1, 0, 0, 20000, 1)], False)])
   \<and> map status (reservations (snd (admin_cancel_view cfg0 (combine 19999 12 0) (\<lambda>s. 90)
                                       (\<lambda>s. False) lock_db (rq_cancel ''1''))))
     = [Cancelled, Pending, Cancelled]"
proof -
  let ?x = "new_reservation 1 80 2 (1, 0, 0, 20000, 1) Approved (combine 19999 12 0) False"
  let ?now = "combine 19999 12 0"
  let ?res = "admin_cancel_view cfg0 ?now (\<lambda>s. 90) (\<lambda>s. False) lock_db (rq_cancel ''1'')"
  have h1: "distinct (map rid (reservations lock_db))"
    by (simp add: lock_db_def lock_rows_def db0_def)
  have h2: "admin_prologue cfg0 ?now lock_db (rq_cancel ''1'') = Inr (1, 20000, room)"
    by (simp add: admin_prologue_def rq_cancel_def lock_db_def db0_def room_def Let_def
          get_date_def iso_def py_int_def int_space_def strip_def isspace_def digit_of_def
          MAX_STR_DIGITS_def)
  have h3: "ar_post (rq_cancel ''1'')" by (simp add: rq_cancel_def)
  have h4: "ar_reservation_ids (rq_cancel ''1'') = Some ''1''" by (simp add: rq_cancel_def)
  have h5: "parse_ids (split_on (CHR '','') ''1'') = Some [1]"
    by (simp add: py_int_def int_space_def strip_def isspace_def digit_of_def MAX_STR_DIGITS_def)
  have h5': "list_all db_int [1]" by (simp add: db_int_def)
  have h6: "\<not> deadline_passed cfg0 ?now 20000 1" by (simp add: cfg0_def time_defs)
  have h7: "?x \<in> set (reservations lock_db)" by (simp add: lock_db_def lock_rows_def db0_def)
  have h8: "rid ?x \<in> set [1]" by simp
  have h9: "status ?x = Approved" by simp
  have h10: "\<not> (\<lambda>s. False) (student ?x)" by simp
  note w = mail_failure_handling[OF h1, where cfg = cfg0 and now = ?now and arq = "rq_cancel ''1''"
      and slot_id = 1 and req_date_obj = 20000 and curr_cls = room and res_ids_str = "''1''"
      and res_ids = "[1]" and x = ?x and mail_ok_of = "\<lambda>s. False" and new_uuid = "\<lambda>s. 90"]
  have hyp: "admin_prologue cfg0 ?now lock_db (rq_cancel ''1'') = Inr (1, 20000, room)
            \<and> ar_post (rq_cancel ''1'') \<and> ar_reservation_ids (rq_cancel ''1'') = Some ''1''
            \<and> parse_ids (split_on (CHR '','') ''1'') = Some [1]
            \<and> list_all db_int [1]
            \<and> \<not> deadline_passed cfg0 ?now 20000 1
            \<and> ?x \<in> set (reservations lock_db) \<and> rid ?x \<in> set [1] \<and> status ?x = Approved
            \<and> \<not> (\<lambda>s. False) (student ?x)"
    using h2 h3 h4 h5 h5' h6 h7 h8 h9 h10 by (intro conjI)
  note c = w[THEN conjunct1, THEN mp, OF hyp]
  have p: "fst (fst (fst ?res)) = Redirected" by (rule c[THEN conjunct1])
  have cancelled: "?x\<lparr>status := Cancelled\<rparr> \<in> set (reservations (snd ?res))"
    by (rule c[THEN conjunct2, THEN conjunct2, THEN conjunct2, THEN conjunct2])
  show ?thesis using h1 p cancelled by (simp add: admin_cancel_view_example)
qed

end
